(* ===== verification/Rust_Prelude.thy ===== *)
theory Rust_Prelude
  imports Main "HOL-Library.Word" "HOL-Library.Sublist" "HOL-Library.Multiset"
    "HOL-Library.List_Lexorder" "HOL-Library.Char_ord" "HOL-Library.Product_Lexorder"
begin

text \<open>
  The prelude of the development: what the sources use of Rust and its standard
  library. Results with the three outcomes of a Rust call (a value, an \<open>Err\<close>, an
  unwinding panic), state passing in which the effects made before an error persist,
  machine integers and their native-endian byte strings, UTF-8 strings, decimal
  printing and parsing, and the list and string operations the sources call.
\<close>

unbundle bit_operations_syntax

named_theorems rust_simps \<open>unfolding rules of the result and state operations\<close>
named_theorems enum_simps \<open>conversion tables of the enumerations\<close>
named_theorems key_simps \<open>the database keys and prefixes\<close>

type_synonym u8 = "8 word"
type_synonym u16 = "16 word"
type_synonym u32 = "32 word"
type_synonym i32 = "32 word"
type_synonym u64 = "64 word"
type_synonym usize = "64 word"
type_synonym bytes = "u8 list"
type_synonym ('k, 'v) hashmap = "('k \<times> 'v) list"

text \<open>
  An \<open>i32\<close> is a 32-bit word read with \<open>sint\<close>; \<open>usize\<close> has the eight bytes
  \<open>bytes_to_usize\<close> asks for. A hash map is the list of its entries in the order an
  iteration visits them, which the language leaves open.
\<close>


subsection \<open>Results: a value, an error, a panic\<close>

datatype ('e, 'a) res = Ok 'a | Err 'e | Panic string

fun bind_res :: "('e, 'a) res \<Rightarrow> ('a \<Rightarrow> ('e, 'b) res) \<Rightarrow> ('e, 'b) res" where
  "bind_res (Ok a) f = f a"
| "bind_res (Err e) f = Err e"
| "bind_res (Panic p) f = Panic p"

definition ok_map :: "('a \<Rightarrow> 'b) \<Rightarrow> ('e, 'a) res \<Rightarrow> ('e, 'b) res" where
  "ok_map f r = bind_res r (\<lambda>a. Ok (f a))"

fun map_err :: "('e \<Rightarrow> 'f) \<Rightarrow> ('e, 'a) res \<Rightarrow> ('f, 'a) res" where
  "map_err f (Ok a) = Ok a"
| "map_err f (Err e) = Err (f e)"
| "map_err f (Panic p) = Panic p"

fun expect_res :: "string \<Rightarrow> ('e, 'a) res \<Rightarrow> ('f, 'a) res" where
  "expect_res p (Ok a) = Ok a"
| "expect_res p (Err e) = Panic p"
| "expect_res p (Panic q) = Panic q"

definition expect_opt :: "string \<Rightarrow> 'a option \<Rightarrow> ('e, 'a) res" where
  "expect_opt p x = (case x of None \<Rightarrow> Panic p | Some a \<Rightarrow> Ok a)"

definition ok_or :: "'e \<Rightarrow> 'a option \<Rightarrow> ('e, 'a) res" where
  "ok_or e x = (case x of None \<Rightarrow> Err e | Some a \<Rightarrow> Ok a)"

fun of_sum :: "'e + 'a \<Rightarrow> ('e, 'a) res" where
  "of_sum (Inl e) = Err e"
| "of_sum (Inr a) = Ok a"

fun opt_res :: "('a \<Rightarrow> ('e, 'b) res) \<Rightarrow> 'a option \<Rightarrow> ('e, 'b option) res" where
  "opt_res f None = Ok None"
| "opt_res f (Some a) = ok_map Some (f a)"

fun is_panic :: "('e, 'a) res \<Rightarrow> bool" where
  "is_panic (Panic p) = True"
| "is_panic _ = False"

fun is_ok :: "('e, 'a) res \<Rightarrow> bool" where
  "is_ok (Ok a) = True"
| "is_ok _ = False"

text \<open>\<open>slice::first\<close> and \<open>Iterator::next\<close>.\<close>

fun first :: "'a list \<Rightarrow> 'a option" where
  "first [] = None"
| "first (x # xs) = Some x"

text \<open>\<open>collect_res\<close> is \<open>collect::<Result<Vec<_>, _>>\<close>: the first failure is the result.\<close>

fun collect_res :: "('e, 'a) res list \<Rightarrow> ('e, 'a list) res" where
  "collect_res [] = Ok []"
| "collect_res (r # rs) = bind_res r (\<lambda>a. ok_map (\<lambda>as. a # as) (collect_res rs))"

lemma ok_map_simps [simp]:
  "ok_map f (Ok a) = Ok (f a)" "ok_map f (Err e) = Err e" "ok_map f (Panic p) = Panic p"
  by (simp_all add: ok_map_def)

lemma expect_opt_simps [simp]:
  "expect_opt p (Some a) = Ok a" "expect_opt p None = Panic p"
  by (simp_all add: expect_opt_def)

lemma ok_or_simps [simp]: "ok_or e (Some a) = Ok a" "ok_or e None = Err e"
  by (simp_all add: ok_or_def)

lemma bind_res_eq_Ok: "bind_res r f = Ok b \<longleftrightarrow> (\<exists>a. r = Ok a \<and> f a = Ok b)"
  by (cases r) auto

lemma bind_res_assoc: "bind_res (bind_res r f) g = bind_res r (\<lambda>a. bind_res (f a) g)"
  by (cases r) auto

lemma bind_res_cong [fundef_cong]:
  "r = r' \<Longrightarrow> (\<And>a. r' = Ok a \<Longrightarrow> f a = g a) \<Longrightarrow> bind_res r f = bind_res r' g"
  by (cases r') auto

lemma ok_map_eq_Ok: "ok_map f r = Ok b \<longleftrightarrow> (\<exists>a. r = Ok a \<and> f a = b)"
  by (cases r) auto

lemma of_sum_eq_Ok [simp]: "of_sum x = Ok a \<longleftrightarrow> x = Inr a"
  by (cases x) auto

lemma map_err_eq_Ok [simp]: "map_err f r = Ok a \<longleftrightarrow> r = Ok a"
  by (cases r) auto

lemma expect_res_eq_Ok [simp]: "expect_res p r = Ok a \<longleftrightarrow> r = Ok a"
  by (cases r) auto

lemma expect_opt_eq_Ok [simp]: "expect_opt p r = Ok a \<longleftrightarrow> r = Some a"
  by (cases r) auto

lemma ok_or_eq_Ok [simp]: "ok_or e r = Ok a \<longleftrightarrow> r = Some a"
  by (cases r) auto

lemma first_eq_Some [simp]: "first xs = Some x \<longleftrightarrow> (\<exists>ys. xs = x # ys)"
  by (cases xs) auto

lemma collect_res_map_Ok [simp]: "collect_res (map (\<lambda>x. Ok (f x)) xs) = Ok (map f xs)"
  by (induction xs) auto

lemma collect_res_all_Ok:
  "(\<And>x. x \<in> set xs \<Longrightarrow> f x = Ok (g x)) \<Longrightarrow> collect_res (map f xs) = Ok (map g xs)"
  by (induction xs) auto


lemma mset_map_choose: "mset xs = image_mset f M \<Longrightarrow> \<exists>us. xs = map f us \<and> mset us = M"
proof (induction xs arbitrary: M)
  case Nil
  then show ?case by simp
next
  case (Cons x xs)
  then obtain a M1 where "M = add_mset a M1" "f a = x" "image_mset f M1 = mset xs"
    by (metis msed_map_invR mset.simps(2))
  with Cons.IH [of M1] show ?case by (metis list.map(2) mset.simps(2))
qed


subsection \<open>State passing with errors\<close>

text \<open>
  A call takes the state and returns its outcome with the state it leaves: what was
  written before an \<open>Err\<close> or a panic stays written, as it does in the database and
  the file system the sources act on.
\<close>

type_synonym ('s, 'e, 'a) st = "'s \<Rightarrow> ('e, 'a) res \<times> 's"

definition bind_st :: "('s, 'e, 'a) st \<Rightarrow> ('a \<Rightarrow> ('s, 'e, 'b) st) \<Rightarrow> ('s, 'e, 'b) st" where
  "bind_st m f = (\<lambda>s. case m s of
     (Ok a, s') \<Rightarrow> f a s' | (Err e, s') \<Rightarrow> (Err e, s') | (Panic p, s') \<Rightarrow> (Panic p, s'))"

definition ret :: "'a \<Rightarrow> ('s, 'e, 'a) st" where
  "ret a = (\<lambda>s. (Ok a, s))"

definition throw :: "'e \<Rightarrow> ('s, 'e, 'a) st" where
  "throw e = (\<lambda>s. (Err e, s))"

definition panic :: "string \<Rightarrow> ('s, 'e, 'a) st" where
  "panic p = (\<lambda>s. (Panic p, s))"

definition reads :: "('s \<Rightarrow> ('e, 'a) res) \<Rightarrow> ('s, 'e, 'a) st" where
  "reads f = (\<lambda>s. (f s, s))"

definition then_st :: "('s, 'e, 'a) st \<Rightarrow> ('s, 'e, 'b) st \<Rightarrow> ('s, 'e, 'b) st" where
  "then_st m n = bind_st m (\<lambda>_. n)"

definition map_err_st :: "('e \<Rightarrow> 'f) \<Rightarrow> ('s, 'e, 'a) st \<Rightarrow> ('s, 'f, 'a) st" where
  "map_err_st f m = (\<lambda>s. case m s of (r, s') \<Rightarrow> (map_err f r, s'))"

definition expect_st :: "string \<Rightarrow> ('s, 'e, 'a) st \<Rightarrow> ('s, 'f, 'a) st" where
  "expect_st p m = (\<lambda>s. case m s of (r, s') \<Rightarrow> (expect_res p r, s'))"

text \<open>\<open>let _ = m\<close>: the outcome is dropped unless it is a panic, the effects stay.\<close>

definition ignore_st :: "('s, 'e, 'a) st \<Rightarrow> ('s, 'f, unit) st" where
  "ignore_st m = (\<lambda>s. case m s of
     (Panic p, s') \<Rightarrow> (Panic p, s') | (_, s') \<Rightarrow> (Ok (), s'))"

fun try_for_each :: "('a \<Rightarrow> ('s, 'e, unit) st) \<Rightarrow> 'a list \<Rightarrow> ('s, 'e, unit) st" where
  "try_for_each f [] = ret ()"
| "try_for_each f (x # xs) = then_st (f x) (try_for_each f xs)"

text \<open>Run a call on the part of the state that \<open>get\<close> and \<open>put\<close> select.\<close>

definition zoom :: "('s \<Rightarrow> 't) \<Rightarrow> ('t \<Rightarrow> 's \<Rightarrow> 's) \<Rightarrow> ('t, 'e, 'a) st \<Rightarrow> ('s, 'e, 'a) st" where
  "zoom get put m = (\<lambda>s. case m (get s) of (r, t) \<Rightarrow> (r, put t s))"

lemmas st_defs [rust_simps] =
  bind_st_def ret_def throw_def panic_def reads_def then_st_def map_err_st_def
  expect_st_def ignore_st_def

lemma bind_st_Ok: "m s = (Ok a, s') \<Longrightarrow> bind_st m f s = f a s'"
  by (simp add: bind_st_def)

lemma then_st_Ok: "m s = (Ok a, s') \<Longrightarrow> then_st m n s = n s'"
  by (simp add: then_st_def bind_st_def)

lemma bind_st_Err: "m s = (Err e, s') \<Longrightarrow> bind_st m f s = (Err e, s')"
  by (simp add: bind_st_def)

lemma bind_st_Panic: "m s = (Panic p, s') \<Longrightarrow> bind_st m f s = (Panic p, s')"
  by (simp add: bind_st_def)

lemma then_st_Err: "m s = (Err e, s') \<Longrightarrow> then_st m n s = (Err e, s')"
  by (simp add: then_st_def bind_st_def)

lemma then_st_Panic: "m s = (Panic p, s') \<Longrightarrow> then_st m n s = (Panic p, s')"
  by (simp add: then_st_def bind_st_def)

lemma ret_app [simp]: "ret a s = (Ok a, s)"
  by (simp add: ret_def)

lemma throw_app [simp]: "throw e s = (Err e, s)"
  by (simp add: throw_def)

lemma panic_app [simp]: "panic p s = (Panic p, s)"
  by (simp add: panic_def)

lemma reads_app [simp]: "reads f s = (f s, s)"
  by (simp add: reads_def)

lemma bind_st_eq_Ok:
  "bind_st m f s = (Ok b, t) \<longleftrightarrow> (\<exists>a s'. m s = (Ok a, s') \<and> f a s' = (Ok b, t))"
  by (auto simp: bind_st_def split: prod.splits res.splits)

lemma then_st_eq_Ok:
  "then_st m n s = (Ok b, t) \<longleftrightarrow> (\<exists>a s'. m s = (Ok a, s') \<and> n s' = (Ok b, t))"
  by (simp add: then_st_def bind_st_eq_Ok)

lemma map_err_st_eq_Ok: "map_err_st g m w = (Ok a, w') \<longleftrightarrow> m w = (Ok a, w')"
  by (cases "m w") (simp add: map_err_st_def)

lemma expect_st_eq_Ok: "expect_st p m w = (Ok a, w') \<longleftrightarrow> m w = (Ok a, w')"
  by (cases "m w") (simp add: expect_st_def)

lemma bind_st_assoc: "bind_st (bind_st m f) g = bind_st m (\<lambda>a. bind_st (f a) g)"
  by (auto simp: bind_st_def fun_eq_iff split: prod.splits res.splits)

lemma is_ok_ex: "is_ok r \<Longrightarrow> \<exists>a. r = Ok a"
  by (cases r) simp_all

lemma is_ok_run: "is_ok (fst x) \<Longrightarrow> \<exists>a w'. x = (Ok a, w')"
  by (cases x; cases "fst x") auto

text \<open>Calls that leave the state as it is.\<close>

lemma keeps_reads: "snd (reads f s) = s"
  by simp

lemma keeps_bind:
  "snd (m s) = s \<Longrightarrow> (\<And>a. snd (f a s) = s) \<Longrightarrow> snd (bind_st m f s) = s"
  by (auto simp: bind_st_def split: prod.splits res.splits)

lemma keeps_then: "snd (m s) = s \<Longrightarrow> snd (n s) = s \<Longrightarrow> snd (then_st m n s) = s"
  unfolding then_st_def by (rule keeps_bind)

lemma then_st_ret [simp]: "then_st m (ret ()) = m"
  by (auto simp: then_st_def bind_st_def fun_eq_iff split: prod.splits res.splits)

lemma ret_then_st [simp]: "then_st (ret a) m = m"
  by (auto simp: then_st_def bind_st_def)

lemma then_st_assoc: "then_st (then_st l m) n = then_st l (then_st m n)"
  by (auto simp: then_st_def bind_st_def fun_eq_iff split: prod.splits res.splits)

lemma bind_reads_Ok [simp]: "bind_st (reads (\<lambda>_. Ok a)) f = f a"
  by (auto simp: bind_st_def fun_eq_iff)

lemma try_for_each_map: "try_for_each f (map g xs) = try_for_each (\<lambda>x. f (g x)) xs"
  by (induction xs) auto

lemma try_for_each_append:
  "try_for_each f (xs @ ys) = then_st (try_for_each f xs) (try_for_each f ys)"
  by (induction xs)
    (auto simp: then_st_def bind_st_def fun_eq_iff split: prod.splits res.splits)

end
