(* ===== verification/Rust_Data.thy ===== *)
theory Rust_Data
  imports Rust_Prelude
begin

text \<open>
  Data of the Rust standard library as the sources use it: integers as byte strings
  (\<open>to_ne_bytes\<close>, \<open>from_ne_bytes\<close>), \<open>String\<close> and its UTF-8 check, decimal printing and
  \<open>parse::<u32>\<close>, \<open>str::split\<close>, \<open>contains\<close>, \<open>strip_prefix\<close>, and \<open>Vec::swap_remove\<close>
  with \<open>Iterator::position\<close>. The lemmas are the round trips the components rest on.
\<close>


subsection \<open>Integers as bytes\<close>

primrec le_bytes :: "nat \<Rightarrow> 'a::len word \<Rightarrow> bytes" where
  "le_bytes 0 w = []"
| "le_bytes (Suc n) w = ucast w # le_bytes n (drop_bit 8 w)"

primrec of_le_bytes :: "bytes \<Rightarrow> 'a::len word" where
  "of_le_bytes [] = 0"
| "of_le_bytes (b # bs) = ucast b OR push_bit 8 (of_le_bytes bs)"

text \<open>The host's byte order is a parameter: \<open>be\<close> holds on a big-endian target.\<close>

definition to_ne_bytes :: "bool \<Rightarrow> nat \<Rightarrow> 'a::len word \<Rightarrow> bytes" where
  "to_ne_bytes be n w = (if be then rev (le_bytes n w) else le_bytes n w)"

definition from_ne_bytes :: "bool \<Rightarrow> bytes \<Rightarrow> 'a::len word" where
  "from_ne_bytes be bs = of_le_bytes (if be then rev bs else bs)"

lemma length_le_bytes [simp]: "length (le_bytes n w) = n"
  by (induction n arbitrary: w) auto

lemma length_to_ne_bytes [simp]: "length (to_ne_bytes be n w) = n"
  by (simp add: to_ne_bytes_def)

lemma of_le_bytes_le_bytes: "of_le_bytes (le_bytes n w) = take_bit (8 * n) (w :: 'a::len word)"
proof (induction n arbitrary: w)
  case 0
  then show ?case by simp
next
  case (Suc n)
  show ?case
  proof (rule bit_word_eqI)
    fix i assume "i < LENGTH('a)"
    then show "bit (of_le_bytes (le_bytes (Suc n) w) :: 'a word) i = bit (take_bit (8 * Suc n) w) i"
      by (simp add: Suc.IH bit_or_iff bit_push_bit_iff bit_take_bit_iff bit_drop_bit_eq
          bit_ucast_iff) (auto simp: bit_imp_le_length)
  qed
qed

lemma from_to_ne_bytes:
  assumes "8 * n = LENGTH('a)"
  shows "from_ne_bytes be (to_ne_bytes be n w) = (w :: 'a::len word)"
  using assms by (simp add: from_ne_bytes_def to_ne_bytes_def of_le_bytes_le_bytes)

lemma from_to_ne_bytes_widths [simp]:
  "from_ne_bytes be (to_ne_bytes be 4 w) = (w :: u32)"
  "from_ne_bytes be (to_ne_bytes be 8 x) = (x :: u64)"
  "from_ne_bytes be (to_ne_bytes be 2 y) = (y :: u16)"
  "from_ne_bytes be (to_ne_bytes be 1 z) = (z :: u8)"
  by (rule from_to_ne_bytes; simp)+


subsection \<open>Strings\<close>

text \<open>
  A \<open>string\<close> holds the bytes of a Rust \<open>str\<close>; \<open>is_str\<close> is the UTF-8 validity that
  Rust keeps for every \<open>str\<close> and that \<open>String::from_utf8\<close> checks.
\<close>

definition as_bytes :: "string \<Rightarrow> bytes" where
  "as_bytes s = map (\<lambda>c. word_of_nat (of_char c)) s"

definition chars_of :: "bytes \<Rightarrow> string" where
  "chars_of bs = map (\<lambda>b. char_of (unat b)) bs"

definition cont_byte :: "u8 \<Rightarrow> bool" where
  "cont_byte b \<longleftrightarrow> 0x80 \<le> b \<and> b \<le> 0xBF"

definition second_byte :: "u8 \<Rightarrow> u8 \<Rightarrow> bool" where
  "second_byte a b \<longleftrightarrow>
     (if a = 0xE0 then 0xA0 \<le> b \<and> b \<le> 0xBF
      else if a = 0xED then 0x80 \<le> b \<and> b \<le> 0x9F
      else if a = 0xF0 then 0x90 \<le> b \<and> b \<le> 0xBF
      else if a = 0xF4 then 0x80 \<le> b \<and> b \<le> 0x8F
      else cont_byte b)"

fun utf8_valid :: "bytes \<Rightarrow> bool" where
  "utf8_valid [] = True"
| "utf8_valid (a # bs) =
     (if a < 0x80 then utf8_valid bs
      else if 0xC2 \<le> a \<and> a \<le> 0xDF then
        (case bs of b # r \<Rightarrow> cont_byte b \<and> utf8_valid r | _ \<Rightarrow> False)
      else if 0xE0 \<le> a \<and> a \<le> 0xEF then
        (case bs of b # c # r \<Rightarrow> second_byte a b \<and> cont_byte c \<and> utf8_valid r | _ \<Rightarrow> False)
      else if 0xF0 \<le> a \<and> a \<le> 0xF4 then
        (case bs of b # c # d # r \<Rightarrow>
           second_byte a b \<and> cont_byte c \<and> cont_byte d \<and> utf8_valid r | _ \<Rightarrow> False)
      else False)"

definition is_str :: "string \<Rightarrow> bool" where
  "is_str s \<longleftrightarrow> utf8_valid (as_bytes s)"

definition ascii :: "string \<Rightarrow> bool" where
  "ascii s \<longleftrightarrow> (\<forall>c \<in> set s. of_char c < (128 :: nat))"

lemma unat_byte_of_char [simp]: "unat (word_of_nat (of_char c) :: u8) = of_char c"
  by (simp add: unat_of_nat take_bit_eq_mod)

lemma chars_of_as_bytes [simp]: "chars_of (as_bytes s) = s"
  by (induction s) (auto simp: chars_of_def as_bytes_def)

lemma as_bytes_inject [simp]: "as_bytes s = as_bytes t \<longleftrightarrow> s = t"
  by (metis chars_of_as_bytes)

lemma as_bytes_append [simp]: "as_bytes (s @ t) = as_bytes s @ as_bytes t"
  by (simp add: as_bytes_def)

lemma ascii_simps [simp]:
  "ascii []" "ascii (c # s) \<longleftrightarrow> of_char c < (128 :: nat) \<and> ascii s"
  "ascii (s @ t) \<longleftrightarrow> ascii s \<and> ascii t"
  by (auto simp: ascii_def)

lemma utf8_valid_ascii_append:
  "ascii s \<Longrightarrow> utf8_valid (as_bytes s @ bs) = utf8_valid bs"
  by (induction s) (auto simp: as_bytes_def word_less_nat_alt)

lemma is_str_ascii [simp]: "ascii s \<Longrightarrow> is_str s"
  using utf8_valid_ascii_append [of s "[]"] by (simp add: is_str_def)

lemma is_str_ascii_append [simp]: "ascii s \<Longrightarrow> is_str (s @ t) = is_str t"
  by (simp add: is_str_def utf8_valid_ascii_append)


subsection \<open>Decimal printing and parsing\<close>

definition digit_char :: "nat \<Rightarrow> char" where
  "digit_char d = char_of (48 + d)"

fun show_nat :: "nat \<Rightarrow> string" where
  "show_nat n = (if n < 10 then [digit_char n] else show_nat (n div 10) @ [digit_char (n mod 10)])"

declare show_nat.simps [simp del]

definition show_int :: "int \<Rightarrow> string" where
  "show_int i = (if i < 0 then CHR ''-'' # show_nat (nat (- i)) else show_nat (nat i))"

definition show_u32 :: "u32 \<Rightarrow> string" where
  "show_u32 w = show_nat (unat w)"

text \<open>\<open>format!("{:x}")\<close>.\<close>

definition hex_char :: "nat \<Rightarrow> char" where
  "hex_char d = (if d < 10 then char_of (48 + d) else char_of (87 + d))"

fun show_hex :: "nat \<Rightarrow> string" where
  "show_hex n = (if n < 16 then [hex_char n] else show_hex (n div 16) @ [hex_char (n mod 16)])"

declare show_hex.simps [simp del]

definition is_digit :: "char \<Rightarrow> bool" where
  "is_digit c \<longleftrightarrow> 48 \<le> (of_char c :: nat) \<and> (of_char c :: nat) \<le> 57"

text \<open>
  \<open>parse::<u32>\<close>: an optional plus sign, then at least one digit, no overflow.
\<close>

primrec parse_digits :: "nat \<Rightarrow> string \<Rightarrow> nat option" where
  "parse_digits acc [] = Some acc"
| "parse_digits acc (c # cs) =
     (if is_digit c then parse_digits (10 * acc + (of_char c - 48)) cs else None)"

definition parse_u32 :: "string \<Rightarrow> u32 option" where
  "parse_u32 s =
     (let ds = (case s of c # cs \<Rightarrow> if c = CHR ''+'' then cs else s | [] \<Rightarrow> s) in
      if ds = [] then None
      else case parse_digits 0 ds of
        None \<Rightarrow> None
      | Some n \<Rightarrow> if n < 2 ^ 32 then Some (word_of_nat n) else None)"

lemma of_char_digit [simp]: "d < 10 \<Longrightarrow> of_char (digit_char d) = (48 + d :: nat)"
  by (simp add: digit_char_def)

lemma is_digit_digit [simp]: "d < 10 \<Longrightarrow> is_digit (digit_char d)"
  by (simp add: is_digit_def)

lemma show_nat_ne [simp]: "show_nat n \<noteq> []"
  by (subst show_nat.simps) simp

lemma show_nat_digits: "\<forall>c \<in> set (show_nat n). is_digit c"
proof (induction n rule: show_nat.induct)
  case (1 n)
  then show ?case by (subst show_nat.simps) auto
qed

lemma parse_digits_append:
  "parse_digits acc (s @ t) = Option.bind (parse_digits acc s) (\<lambda>a. parse_digits a t)"
  by (induction s arbitrary: acc) auto

lemma parse_digits_show: "parse_digits 0 (show_nat n) = Some n"
proof (induction n rule: show_nat.induct)
  case (1 n)
  show ?case
  proof (cases "n < 10")
    case True
    then show ?thesis by (simp add: show_nat.simps [of n])
  next
    case False
    with 1 have "parse_digits 0 (show_nat (n div 10)) = Some (n div 10)" by simp
    with False show ?thesis by (simp add: show_nat.simps [of n] parse_digits_append)
  qed
qed

lemma show_nat_inject [simp]: "show_nat m = show_nat n \<longleftrightarrow> m = n"
  by (metis option.inject parse_digits_show)

lemma show_u32_inject [simp]: "show_u32 v = show_u32 w \<longleftrightarrow> v = w"
  by (simp add: show_u32_def word_unat_eq_iff)

lemma plus_notin_show_nat: "hd (show_nat n) \<noteq> CHR ''+''"
proof -
  have "is_digit (hd (show_nat n))"
    using show_nat_digits [of n] show_nat_ne [of n] hd_in_set by blast
  then show ?thesis by (auto simp: is_digit_def)
qed

lemma parse_u32_show [simp]: "parse_u32 (show_u32 w) = Some w"
proof -
  obtain c cs where s: "show_nat (unat w) = c # cs"
    by (cases "show_nat (unat w)") auto
  have "c \<noteq> CHR ''+''" using plus_notin_show_nat [of "unat w"] s by simp
  moreover have "unat w < 2 ^ 32" using unsigned_less [of w] by simp
  ultimately show ?thesis
    using parse_digits_show [of "unat w"]
    by (simp add: parse_u32_def show_u32_def s del: parse_digits.simps)
qed

lemma ascii_show_nat [simp]: "ascii (show_nat n)"
  using show_nat_digits [of n] by (auto simp: ascii_def is_digit_def)

lemma ascii_show_u32 [simp]: "ascii (show_u32 w)"
  by (simp add: show_u32_def)

lemma ascii_show_hex [simp]: "ascii (show_hex n)"
proof (induction n rule: show_hex.induct)
  case (1 n)
  have "of_char (hex_char d) < (128 :: nat)" if "d < 16" for d
    using that by (simp add: hex_char_def)
  with 1 show ?case by (subst show_hex.simps) auto
qed

lemma underscore_notin_show [simp]: "CHR ''_'' \<notin> set (show_nat n)"
  using show_nat_digits [of n] by (auto simp: is_digit_def)

lemma underscore_notin_show_u32 [simp]: "CHR ''_'' \<notin> set (show_u32 w)"
  by (simp add: show_u32_def)

lemma show_u32_ne [simp]: "show_u32 w \<noteq> []"
  by (simp add: show_u32_def)


subsection \<open>String and vector operations\<close>

definition str_contains :: "string \<Rightarrow> string \<Rightarrow> bool" where
  "str_contains s p \<longleftrightarrow> sublist p s"

definition strip_prefix :: "string \<Rightarrow> string \<Rightarrow> string option" where
  "strip_prefix p s = (if prefix p s then Some (drop (length p) s) else None)"

fun split_on :: "char \<Rightarrow> string \<Rightarrow> string list" where
  "split_on c [] = [[]]"
| "split_on c (x # xs) =
     (if x = c then [] # split_on c xs
      else (case split_on c xs of [] \<Rightarrow> [[x]] | y # ys \<Rightarrow> (x # y) # ys))"

fun str_join :: "string \<Rightarrow> string list \<Rightarrow> string" where
  "str_join sep [] = []"
| "str_join sep [x] = x"
| "str_join sep (x # xs) = x @ sep @ str_join sep xs"

fun position :: "('a \<Rightarrow> bool) \<Rightarrow> 'a list \<Rightarrow> nat option" where
  "position P [] = None"
| "position P (x # xs) = (if P x then Some 0 else map_option Suc (position P xs))"

definition swap_remove :: "nat \<Rightarrow> 'a list \<Rightarrow> 'a list" where
  "swap_remove i xs = butlast (xs[i := last xs])"

lemma strip_prefix_append [simp]: "strip_prefix p (p @ s) = Some s"
  by (simp add: strip_prefix_def)

lemma split_on_ne [simp]: "split_on c s \<noteq> []"
  by (induction s) (auto split: list.splits)

lemma split_on_none: "c \<notin> set s \<Longrightarrow> split_on c s = [s]"
  by (induction s) auto

lemma split_on_append: "split_on c (p @ c # s) = split_on c p @ split_on c s"
  by (induction p) (auto split: list.splits)

lemma last_split_on: "c \<notin> set s \<Longrightarrow> last (split_on c (p @ c # s)) = s"
  by (simp add: split_on_append split_on_none)

lemma split_on_join:
  "xs \<noteq> [] \<Longrightarrow> (\<And>x. x \<in> set xs \<Longrightarrow> c \<notin> set x) \<Longrightarrow> split_on c (str_join [c] xs) = xs"
proof (induction "[c]" xs rule: str_join.induct)
  case 1
  then show ?case by simp
next
  case (2 x)
  then show ?case by (simp add: split_on_none)
next
  case (3 x y ys)
  then show ?case by (simp add: split_on_append split_on_none)
qed

lemma ascii_str_join: "ascii sep \<Longrightarrow> (\<And>x. x \<in> set xs \<Longrightarrow> ascii x) \<Longrightarrow> ascii (str_join sep xs)"
  by (induction sep xs rule: str_join.induct) auto

lemma position_Some:
  "position P xs = Some i \<Longrightarrow> i < length xs \<and> P (xs ! i)"
  by (induction xs arbitrary: i) (auto split: if_splits)

lemma position_None: "position P xs = None \<longleftrightarrow> (\<forall>x \<in> set xs. \<not> P x)"
  by (induction xs) auto

lemma mset_swap_remove:
  assumes "i < length xs"
  shows "mset (swap_remove i xs) = mset xs - {#xs ! i#}"
proof (cases xs rule: rev_cases)
  case Nil
  with assms show ?thesis by simp
next
  case (snoc ys y)
  show ?thesis
  proof (cases "i = length ys")
    case True
    with snoc show ?thesis by (simp add: swap_remove_def)
  next
    case False
    with assms snoc have "i < length ys" by simp
    with snoc show ?thesis
      by (simp add: swap_remove_def list_update_append nth_append mset_update butlast_append)
  qed
qed

end
