(* ===== verification/Bpfman_Errors.thy ===== *)
theory Bpfman_Errors
  imports Rust_Data
begin

text \<open>
  The error enums of \<open>bpfman/src/errors.rs\<close> and \<open>bpfman/src/oci_utils/mod.rs\<close> with
  the texts their \<open>Display\<close> implementations print. A payload that is an error of
  another crate is that error's text.
\<close>

datatype image_error =
    InvalidImageUrl string
  | ImageManifestPullFailure string
  | BytecodeImagePullFailure string
  | BytecodeImageExtractFailure
  | ByteCodeImageProcessFailure string
  | ByteCodeImageNotfound string
  | ImageDatabaseError string string

datatype bpfman_error =
    Error string
  | BpfIOError string
  | BpfProgramError string
  | BpfLoadError string
  | BpfFunctionNameNotValid string
  | TooManyPrograms
  | InvalidInterface
  | UnableToPinLink string
  | UnableToPinProgram string
  | InvalidAttach string
  | NotLoaded
  | DispatcherNotRequired
  | BpfBytecodeError image_error
  | BytecodeMetaDataMismatch (image_prog_name: string) (provided_prog_name: string)
  | BpfmanProgramDeleteError string
  | RpcRecvError string
  | RpcSendError string
  | UnableToPinMap string
  | ContainerAttachError (attach_program_type: string) (attach_container_pid: i32)
  | DatabaseError string string
  | InternalError string
  | BtfError string
  | DatabaseLockError

datatype parse_error =
    InvalidProgramType string
  | InvalidProceedOn string
  | InvalidDirection string
  | BytecodeLocationParseFailure string
  | InvalidBytecodeLocation string
  | InvalidBytecodeImagePullPolicy string
  | InvalidProbeType string
  | InvalidXdpMode string
  | ConfigParseError string

fun show_image_error :: "image_error \<Rightarrow> string" where
  "show_image_error (InvalidImageUrl e) = ''Failed to Parse bytecode Image URL: '' @ e"
| "show_image_error (ImageManifestPullFailure e) =
     ''Failed to pull bytecode Image manifest: '' @ e"
| "show_image_error (BytecodeImagePullFailure e) = ''Failed to pull bytecode Image: '' @ e"
| "show_image_error BytecodeImageExtractFailure = ''Failed to extract bytecode from Image''"
| "show_image_error (ByteCodeImageProcessFailure e) = e"
| "show_image_error (ByteCodeImageNotfound e) = ''BytecodeImage not found: '' @ e"
| "show_image_error (ImageDatabaseError a b) = a @ '': '' @ b"

fun show_bpfman_error :: "bpfman_error \<Rightarrow> string" where
  "show_bpfman_error (Error e) = ''An error occurred. '' @ e"
| "show_bpfman_error (BpfIOError e) = e"
| "show_bpfman_error (BpfProgramError e) = e"
| "show_bpfman_error (BpfLoadError e) = e"
| "show_bpfman_error (BpfFunctionNameNotValid n) =
     ''Unable to find a valid program with function name '' @ n"
| "show_bpfman_error TooManyPrograms =
     ''No room to attach program. Please remove one and try again.''"
| "show_bpfman_error InvalidInterface = ''Invalid Interface''"
| "show_bpfman_error (UnableToPinLink e) = ''Failed to pin link '' @ e"
| "show_bpfman_error (UnableToPinProgram e) = ''Failed to pin program '' @ e"
| "show_bpfman_error (InvalidAttach a) =
     a @ '' is not a valid attach point for this program''"
| "show_bpfman_error NotLoaded = ''dispatcher is not loaded''"
| "show_bpfman_error DispatcherNotRequired = ''dispatcher not required''"
| "show_bpfman_error (BpfBytecodeError e) = show_image_error e"
| "show_bpfman_error (BytecodeMetaDataMismatch i p) =
     ''Bytecode image bpf function name: '' @ i @
     '' isn't equal to the provided bpf function name '' @ p"
| "show_bpfman_error (BpfmanProgramDeleteError e) = ''Unable to delete program '' @ e"
| "show_bpfman_error (RpcRecvError e) = e"
| "show_bpfman_error (RpcSendError e) = e"
| "show_bpfman_error (UnableToPinMap e) = ''Failed to pin map '' @ e"
| "show_bpfman_error (ContainerAttachError t p) =
     ''Unable to attach '' @ t @ '' in container with pid '' @ show_int (sint p)"
| "show_bpfman_error (DatabaseError a b) = a @ '': '' @ b"
| "show_bpfman_error (InternalError e) = ''Internal error occurred. '' @ e"
| "show_bpfman_error (BtfError e) = e"
| "show_bpfman_error DatabaseLockError =
     ''Failed to acquire database lock, please try again later''"

fun show_parse_error :: "parse_error \<Rightarrow> string" where
  "show_parse_error (InvalidProgramType p) = p @ '' is not a valid program type''"
| "show_parse_error (InvalidProceedOn p) = p @ '' is not a valid proceed-on value''"
| "show_parse_error (InvalidDirection d) = ''not a valid direction: '' @ d"
| "show_parse_error (BytecodeLocationParseFailure e) =
     ''Failed to Parse bytecode location: '' @ e"
| "show_parse_error (InvalidBytecodeLocation l) = ''Invalid bytecode location: '' @ l"
| "show_parse_error (InvalidBytecodeImagePullPolicy p) =
     ''Invalid bytecode image pull policy: '' @ p"
| "show_parse_error (InvalidProbeType p) = p @ '' is not a valid probe type''"
| "show_parse_error (InvalidXdpMode m) = ''Invalid XdpMode: '' @ m"
| "show_parse_error (ConfigParseError e) = ''Error parsing config file: '' @ e"

text \<open>The \<open>{:?}\<close> forms used in error texts: a byte slice, and a string without escapes.\<close>

definition debug_bytes :: "bytes \<Rightarrow> string" where
  "debug_bytes bs = ''['' @ str_join '', '' (map (\<lambda>b. show_nat (unat b)) bs) @ '']''"

definition debug_str :: "string \<Rightarrow> string" where
  "debug_str s = [CHR 0x22] @ s @ [CHR 0x22]"

end
