(* ===== verification/Bpfman_Types.thy ===== *)
theory Bpfman_Types
  imports Bpfman_Errors
begin

text \<open>
  The enumerations and value types of \<open>bpfman/src/types.rs\<close> with their conversions:
  program types, probe types, directions, pull policies, bytecode locations, and the
  proceed-on lists of XDP and TC programs with the bit masks the dispatchers test.
  A variant \<open>X::Y\<close> of the source is the constructor \<open>X_Y\<close>. The lemmas are the
  round trips of the conversions and what each bit of a mask means.
\<close>


subsection \<open>ProgramType\<close>

datatype (plugins del: quickcheck_random quickcheck_exhaustive quickcheck_bounded_forall quickcheck_full_exhaustive quickcheck_narrowing) program_type =
    ProgramType_Unspec
  | ProgramType_SocketFilter
  | ProgramType_Probe
  | ProgramType_Tc
  | ProgramType_SchedAct
  | ProgramType_Tracepoint
  | ProgramType_Xdp
  | ProgramType_PerfEvent
  | ProgramType_CgroupSkb
  | ProgramType_CgroupSock
  | ProgramType_LwtIn
  | ProgramType_LwtOut
  | ProgramType_LwtXmit
  | ProgramType_SockOps
  | ProgramType_SkSkb
  | ProgramType_CgroupDevice
  | ProgramType_SkMsg
  | ProgramType_RawTracepoint
  | ProgramType_CgroupSockAddr
  | ProgramType_LwtSeg6Local
  | ProgramType_LircMode2
  | ProgramType_SkReuseport
  | ProgramType_FlowDissector
  | ProgramType_CgroupSysctl
  | ProgramType_RawTracepointWritable
  | ProgramType_CgroupSockopt
  | ProgramType_Tracing
  | ProgramType_StructOps
  | ProgramType_Ext
  | ProgramType_Lsm
  | ProgramType_SkLookup
  | ProgramType_Syscall

definition program_type_from_string :: "string \<Rightarrow> (parse_error, program_type) res" where
  "program_type_from_string value =
     (if value = ''unspec'' then Ok ProgramType_Unspec
      else if value = ''socket_filter'' then Ok ProgramType_SocketFilter
      else if value = ''probe'' then Ok ProgramType_Probe
      else if value = ''tc'' then Ok ProgramType_Tc
      else if value = ''sched_act'' then Ok ProgramType_SchedAct
      else if value = ''tracepoint'' then Ok ProgramType_Tracepoint
      else if value = ''xdp'' then Ok ProgramType_Xdp
      else if value = ''perf_event'' then Ok ProgramType_PerfEvent
      else if value = ''cgroup_skb'' then Ok ProgramType_CgroupSkb
      else if value = ''cgroup_sock'' then Ok ProgramType_CgroupSock
      else if value = ''lwt_in'' then Ok ProgramType_LwtIn
      else if value = ''lwt_out'' then Ok ProgramType_LwtOut
      else if value = ''lwt_xmit'' then Ok ProgramType_LwtXmit
      else if value = ''sock_ops'' then Ok ProgramType_SockOps
      else if value = ''sk_skb'' then Ok ProgramType_SkSkb
      else if value = ''cgroup_device'' then Ok ProgramType_CgroupDevice
      else if value = ''sk_msg'' then Ok ProgramType_SkMsg
      else if value = ''raw_tracepoint'' then Ok ProgramType_RawTracepoint
      else if value = ''cgroup_sock_addr'' then Ok ProgramType_CgroupSockAddr
      else if value = ''lwt_seg6local'' then Ok ProgramType_LwtSeg6Local
      else if value = ''lirc_mode2'' then Ok ProgramType_LircMode2
      else if value = ''sk_reuseport'' then Ok ProgramType_SkReuseport
      else if value = ''flow_dissector'' then Ok ProgramType_FlowDissector
      else if value = ''cgroup_sysctl'' then Ok ProgramType_CgroupSysctl
      else if value = ''raw_tracepoint_writable'' then Ok ProgramType_RawTracepointWritable
      else if value = ''cgroup_sockopt'' then Ok ProgramType_CgroupSockopt
      else if value = ''tracing'' then Ok ProgramType_Tracing
      else if value = ''struct_ops'' then Ok ProgramType_StructOps
      else if value = ''ext'' then Ok ProgramType_Ext
      else if value = ''lsm'' then Ok ProgramType_Lsm
      else if value = ''sk_lookup'' then Ok ProgramType_SkLookup
      else if value = ''syscall'' then Ok ProgramType_Syscall
      else Err (InvalidProgramType value))"

definition program_type_from_u32 :: "u32 \<Rightarrow> (parse_error, program_type) res" where
  "program_type_from_u32 value =
     (if value = 0 then Ok ProgramType_Unspec
      else if value = 1 then Ok ProgramType_SocketFilter
      else if value = 2 then Ok ProgramType_Probe
      else if value = 3 then Ok ProgramType_Tc
      else if value = 4 then Ok ProgramType_SchedAct
      else if value = 5 then Ok ProgramType_Tracepoint
      else if value = 6 then Ok ProgramType_Xdp
      else if value = 7 then Ok ProgramType_PerfEvent
      else if value = 8 then Ok ProgramType_CgroupSkb
      else if value = 9 then Ok ProgramType_CgroupSock
      else if value = 10 then Ok ProgramType_LwtIn
      else if value = 11 then Ok ProgramType_LwtOut
      else if value = 12 then Ok ProgramType_LwtXmit
      else if value = 13 then Ok ProgramType_SockOps
      else if value = 14 then Ok ProgramType_SkSkb
      else if value = 15 then Ok ProgramType_CgroupDevice
      else if value = 16 then Ok ProgramType_SkMsg
      else if value = 17 then Ok ProgramType_RawTracepoint
      else if value = 18 then Ok ProgramType_CgroupSockAddr
      else if value = 19 then Ok ProgramType_LwtSeg6Local
      else if value = 20 then Ok ProgramType_LircMode2
      else if value = 21 then Ok ProgramType_SkReuseport
      else if value = 22 then Ok ProgramType_FlowDissector
      else if value = 23 then Ok ProgramType_CgroupSysctl
      else if value = 24 then Ok ProgramType_RawTracepointWritable
      else if value = 25 then Ok ProgramType_CgroupSockopt
      else if value = 26 then Ok ProgramType_Tracing
      else if value = 27 then Ok ProgramType_StructOps
      else if value = 28 then Ok ProgramType_Ext
      else if value = 29 then Ok ProgramType_Lsm
      else if value = 30 then Ok ProgramType_SkLookup
      else if value = 31 then Ok ProgramType_Syscall
      else Err (InvalidProgramType (show_u32 value)))"

fun program_type_to_u32 :: "program_type \<Rightarrow> u32" where
  "program_type_to_u32 ProgramType_Unspec = 0"
| "program_type_to_u32 ProgramType_SocketFilter = 1"
| "program_type_to_u32 ProgramType_Probe = 2"
| "program_type_to_u32 ProgramType_Tc = 3"
| "program_type_to_u32 ProgramType_SchedAct = 4"
| "program_type_to_u32 ProgramType_Tracepoint = 5"
| "program_type_to_u32 ProgramType_Xdp = 6"
| "program_type_to_u32 ProgramType_PerfEvent = 7"
| "program_type_to_u32 ProgramType_CgroupSkb = 8"
| "program_type_to_u32 ProgramType_CgroupSock = 9"
| "program_type_to_u32 ProgramType_LwtIn = 10"
| "program_type_to_u32 ProgramType_LwtOut = 11"
| "program_type_to_u32 ProgramType_LwtXmit = 12"
| "program_type_to_u32 ProgramType_SockOps = 13"
| "program_type_to_u32 ProgramType_SkSkb = 14"
| "program_type_to_u32 ProgramType_CgroupDevice = 15"
| "program_type_to_u32 ProgramType_SkMsg = 16"
| "program_type_to_u32 ProgramType_RawTracepoint = 17"
| "program_type_to_u32 ProgramType_CgroupSockAddr = 18"
| "program_type_to_u32 ProgramType_LwtSeg6Local = 19"
| "program_type_to_u32 ProgramType_LircMode2 = 20"
| "program_type_to_u32 ProgramType_SkReuseport = 21"
| "program_type_to_u32 ProgramType_FlowDissector = 22"
| "program_type_to_u32 ProgramType_CgroupSysctl = 23"
| "program_type_to_u32 ProgramType_RawTracepointWritable = 24"
| "program_type_to_u32 ProgramType_CgroupSockopt = 25"
| "program_type_to_u32 ProgramType_Tracing = 26"
| "program_type_to_u32 ProgramType_StructOps = 27"
| "program_type_to_u32 ProgramType_Ext = 28"
| "program_type_to_u32 ProgramType_Lsm = 29"
| "program_type_to_u32 ProgramType_SkLookup = 30"
| "program_type_to_u32 ProgramType_Syscall = 31"

fun show_program_type :: "program_type \<Rightarrow> string" where
  "show_program_type ProgramType_Unspec = ''unspec''"
| "show_program_type ProgramType_SocketFilter = ''socket_filter''"
| "show_program_type ProgramType_Probe = ''probe''"
| "show_program_type ProgramType_Tc = ''tc''"
| "show_program_type ProgramType_SchedAct = ''sched_act''"
| "show_program_type ProgramType_Tracepoint = ''tracepoint''"
| "show_program_type ProgramType_Xdp = ''xdp''"
| "show_program_type ProgramType_PerfEvent = ''perf_event''"
| "show_program_type ProgramType_CgroupSkb = ''cgroup_skb''"
| "show_program_type ProgramType_CgroupSock = ''cgroup_sock''"
| "show_program_type ProgramType_LwtIn = ''lwt_in''"
| "show_program_type ProgramType_LwtOut = ''lwt_out''"
| "show_program_type ProgramType_LwtXmit = ''lwt_xmit''"
| "show_program_type ProgramType_SockOps = ''sock_ops''"
| "show_program_type ProgramType_SkSkb = ''sk_skb''"
| "show_program_type ProgramType_CgroupDevice = ''cgroup_device''"
| "show_program_type ProgramType_SkMsg = ''sk_msg''"
| "show_program_type ProgramType_RawTracepoint = ''raw_tracepoint''"
| "show_program_type ProgramType_CgroupSockAddr = ''cgroup_sock_addr''"
| "show_program_type ProgramType_LwtSeg6Local = ''lwt_seg6local''"
| "show_program_type ProgramType_LircMode2 = ''lirc_mode2''"
| "show_program_type ProgramType_SkReuseport = ''sk_reuseport''"
| "show_program_type ProgramType_FlowDissector = ''flow_dissector''"
| "show_program_type ProgramType_CgroupSysctl = ''cgroup_sysctl''"
| "show_program_type ProgramType_RawTracepointWritable = ''raw_tracepoint_writable''"
| "show_program_type ProgramType_CgroupSockopt = ''cgroup_sockopt''"
| "show_program_type ProgramType_Tracing = ''tracing''"
| "show_program_type ProgramType_StructOps = ''struct_ops''"
| "show_program_type ProgramType_Ext = ''ext''"
| "show_program_type ProgramType_Lsm = ''lsm''"
| "show_program_type ProgramType_SkLookup = ''sk_lookup''"
| "show_program_type ProgramType_Syscall = ''syscall''"


subsection \<open>ProbeType, Direction, ImagePullPolicy\<close>

datatype probe_type = ProbeType_Kprobe | ProbeType_Kretprobe | ProbeType_Uprobe | ProbeType_Uretprobe

definition probe_type_from_i32 :: "i32 \<Rightarrow> (parse_error, probe_type) res" where
  "probe_type_from_i32 value =
     (if value = 0 then Ok ProbeType_Kprobe
      else if value = 1 then Ok ProbeType_Kretprobe
      else if value = 2 then Ok ProbeType_Uprobe
      else if value = 3 then Ok ProbeType_Uretprobe
      else Err (InvalidProbeType (show_int (sint value))))"

fun show_probe_type :: "probe_type \<Rightarrow> string" where
  "show_probe_type ProbeType_Kprobe = ''kprobe''"
| "show_probe_type ProbeType_Kretprobe = ''kretprobe''"
| "show_probe_type ProbeType_Uprobe = ''uprobe''"
| "show_probe_type ProbeType_Uretprobe = ''uretprobe''"

datatype direction = Direction_Ingress | Direction_Egress

fun direction_to_u32 :: "direction \<Rightarrow> u32" where
  "direction_to_u32 Direction_Ingress = 1"
| "direction_to_u32 Direction_Egress = 2"

definition direction_from_u32 :: "u32 \<Rightarrow> (parse_error, direction) res" where
  "direction_from_u32 v =
     (if v = 1 then Ok Direction_Ingress
      else if v = 2 then Ok Direction_Egress
      else Err (InvalidDirection (show_u32 v)))"

definition direction_from_string :: "string \<Rightarrow> (parse_error, direction) res" where
  "direction_from_string v =
     (if v = ''ingress'' then Ok Direction_Ingress
      else if v = ''egress'' then Ok Direction_Egress
      else Err (InvalidDirection v))"

fun show_direction :: "direction \<Rightarrow> string" where
  "show_direction Direction_Ingress = ''ingress''"
| "show_direction Direction_Egress = ''egress''"

datatype image_pull_policy =
  ImagePullPolicy_Always | ImagePullPolicy_IfNotPresent | ImagePullPolicy_Never

fun show_image_pull_policy :: "image_pull_policy \<Rightarrow> string" where
  "show_image_pull_policy ImagePullPolicy_Always = ''Always''"
| "show_image_pull_policy ImagePullPolicy_IfNotPresent = ''IfNotPresent''"
| "show_image_pull_policy ImagePullPolicy_Never = ''Never''"

definition image_pull_policy_from_i32 :: "i32 \<Rightarrow> (parse_error, image_pull_policy) res" where
  "image_pull_policy_from_i32 value =
     (if value = 0 then Ok ImagePullPolicy_Always
      else if value = 1 then Ok ImagePullPolicy_IfNotPresent
      else if value = 2 then Ok ImagePullPolicy_Never
      else Err (InvalidBytecodeImagePullPolicy (show_int (sint value))))"

definition image_pull_policy_from_str :: "string \<Rightarrow> (parse_error, image_pull_policy) res" where
  "image_pull_policy_from_str value =
     (if value = ''Always'' then Ok ImagePullPolicy_Always
      else if value = ''IfNotPresent'' then Ok ImagePullPolicy_IfNotPresent
      else if value = ''Never'' then Ok ImagePullPolicy_Never
      else Err (InvalidBytecodeImagePullPolicy value))"

fun image_pull_policy_to_i32 :: "image_pull_policy \<Rightarrow> i32" where
  "image_pull_policy_to_i32 ImagePullPolicy_Always = 0"
| "image_pull_policy_to_i32 ImagePullPolicy_IfNotPresent = 1"
| "image_pull_policy_to_i32 ImagePullPolicy_Never = 2"


subsection \<open>Bytecode locations\<close>

record bytecode_image =
  image_url :: string
  bi_image_pull_policy :: image_pull_policy
  username :: "string option"
  password :: "string option"

definition bytecode_image_new ::
  "string \<Rightarrow> i32 \<Rightarrow> string option \<Rightarrow> string option \<Rightarrow> ('e, bytecode_image) res" where
  "bytecode_image_new url policy user pass = ok_map
     (\<lambda>p. \<lparr>image_url = url, bi_image_pull_policy = p, username = user, password = pass\<rparr>)
     (expect_res ''Unable to parse ImagePullPolicy'' (image_pull_policy_from_i32 policy))"

datatype location = Location_Image bytecode_image | Location_File string

fun show_location :: "location \<Rightarrow> string" where
  "show_location (Location_Image i) =
     ''image: { url: '' @ image_url i @ '', pullpolicy: '' @
     show_image_pull_policy (bi_image_pull_policy i) @ '' }''"
| "show_location (Location_File p) = ''file: { path: '' @ p @ '' }''"


subsection \<open>Proceed-on lists of XDP programs\<close>

datatype xdp_proceed_on_entry =
  Xdp_Aborted | Xdp_Drop | Xdp_Pass | Xdp_Tx | Xdp_Redirect | Xdp_DispatcherReturn

fun xdp_entry_to_i32 :: "xdp_proceed_on_entry \<Rightarrow> i32" where
  "xdp_entry_to_i32 Xdp_Aborted = 0"
| "xdp_entry_to_i32 Xdp_Drop = 1"
| "xdp_entry_to_i32 Xdp_Pass = 2"
| "xdp_entry_to_i32 Xdp_Tx = 3"
| "xdp_entry_to_i32 Xdp_Redirect = 4"
| "xdp_entry_to_i32 Xdp_DispatcherReturn = 31"

definition xdp_entry_from_string :: "string \<Rightarrow> (parse_error, xdp_proceed_on_entry) res" where
  "xdp_entry_from_string value =
     (if value = ''aborted'' then Ok Xdp_Aborted
      else if value = ''drop'' then Ok Xdp_Drop
      else if value = ''pass'' then Ok Xdp_Pass
      else if value = ''tx'' then Ok Xdp_Tx
      else if value = ''redirect'' then Ok Xdp_Redirect
      else if value = ''dispatcher_return'' then Ok Xdp_DispatcherReturn
      else Err (InvalidProceedOn value))"

definition xdp_entry_from_i32 :: "i32 \<Rightarrow> (parse_error, xdp_proceed_on_entry) res" where
  "xdp_entry_from_i32 value =
     (if value = 0 then Ok Xdp_Aborted
      else if value = 1 then Ok Xdp_Drop
      else if value = 2 then Ok Xdp_Pass
      else if value = 3 then Ok Xdp_Tx
      else if value = 4 then Ok Xdp_Redirect
      else if value = 31 then Ok Xdp_DispatcherReturn
      else Err (InvalidProceedOn (show_int (sint value))))"

fun show_xdp_entry :: "xdp_proceed_on_entry \<Rightarrow> string" where
  "show_xdp_entry Xdp_Aborted = ''aborted''"
| "show_xdp_entry Xdp_Drop = ''drop''"
| "show_xdp_entry Xdp_Pass = ''pass''"
| "show_xdp_entry Xdp_Tx = ''tx''"
| "show_xdp_entry Xdp_Redirect = ''redirect''"
| "show_xdp_entry Xdp_DispatcherReturn = ''dispatcher_return''"

type_synonym xdp_proceed_on = "xdp_proceed_on_entry list"

definition xdp_proceed_on_default :: xdp_proceed_on where
  "xdp_proceed_on_default = [Xdp_Pass, Xdp_DispatcherReturn]"

definition xdp_proceed_on_from_iter :: "xdp_proceed_on_entry list \<Rightarrow> xdp_proceed_on" where
  "xdp_proceed_on_from_iter xs = (if xs = [] then xdp_proceed_on_default else xs)"

definition xdp_from_strings :: "string list \<Rightarrow> (parse_error, xdp_proceed_on) res" where
  "xdp_from_strings values = collect_res (map xdp_entry_from_string values)"

definition xdp_from_int32s :: "i32 list \<Rightarrow> (parse_error, xdp_proceed_on) res" where
  "xdp_from_int32s values = (if values = [] then Ok xdp_proceed_on_default
     else collect_res (map xdp_entry_from_i32 values))"

definition xdp_mask :: "xdp_proceed_on \<Rightarrow> u32" where
  "xdp_mask xs = foldl (\<lambda>mask action. mask OR push_bit (unat (xdp_entry_to_i32 action)) 1) 0 xs"

definition xdp_as_action_vec :: "xdp_proceed_on \<Rightarrow> i32 list" where
  "xdp_as_action_vec xs = map xdp_entry_to_i32 xs"

definition show_xdp_proceed_on :: "xdp_proceed_on \<Rightarrow> string" where
  "show_xdp_proceed_on xs = str_join '', '' (map show_xdp_entry xs)"


subsection \<open>Proceed-on lists of TC programs\<close>

datatype tc_proceed_on_entry =
  Tc_Unspec | Tc_Ok | Tc_Reclassify | Tc_Shot | Tc_Pipe | Tc_Stolen | Tc_Queued | Tc_Repeat
| Tc_Redirect | Tc_Trap | Tc_DispatcherReturn

fun tc_entry_to_i32 :: "tc_proceed_on_entry \<Rightarrow> i32" where
  "tc_entry_to_i32 Tc_Unspec = -1"
| "tc_entry_to_i32 Tc_Ok = 0"
| "tc_entry_to_i32 Tc_Reclassify = 1"
| "tc_entry_to_i32 Tc_Shot = 2"
| "tc_entry_to_i32 Tc_Pipe = 3"
| "tc_entry_to_i32 Tc_Stolen = 4"
| "tc_entry_to_i32 Tc_Queued = 5"
| "tc_entry_to_i32 Tc_Repeat = 6"
| "tc_entry_to_i32 Tc_Redirect = 7"
| "tc_entry_to_i32 Tc_Trap = 8"
| "tc_entry_to_i32 Tc_DispatcherReturn = 30"

definition tc_entry_from_string :: "string \<Rightarrow> (parse_error, tc_proceed_on_entry) res" where
  "tc_entry_from_string value =
     (if value = ''unspec'' then Ok Tc_Unspec
      else if value = ''ok'' then Ok Tc_Ok
      else if value = ''reclassify'' then Ok Tc_Reclassify
      else if value = ''shot'' then Ok Tc_Shot
      else if value = ''pipe'' then Ok Tc_Pipe
      else if value = ''stolen'' then Ok Tc_Stolen
      else if value = ''queued'' then Ok Tc_Queued
      else if value = ''repeat'' then Ok Tc_Repeat
      else if value = ''redirect'' then Ok Tc_Redirect
      else if value = ''trap'' then Ok Tc_Trap
      else if value = ''dispatcher_return'' then Ok Tc_DispatcherReturn
      else Err (InvalidProceedOn value))"

definition tc_entry_from_i32 :: "i32 \<Rightarrow> (parse_error, tc_proceed_on_entry) res" where
  "tc_entry_from_i32 value =
     (if value = -1 then Ok Tc_Unspec
      else if value = 0 then Ok Tc_Ok
      else if value = 1 then Ok Tc_Reclassify
      else if value = 2 then Ok Tc_Shot
      else if value = 3 then Ok Tc_Pipe
      else if value = 4 then Ok Tc_Stolen
      else if value = 5 then Ok Tc_Queued
      else if value = 6 then Ok Tc_Repeat
      else if value = 7 then Ok Tc_Redirect
      else if value = 8 then Ok Tc_Trap
      else if value = 30 then Ok Tc_DispatcherReturn
      else Err (InvalidProceedOn (show_int (sint value))))"

fun show_tc_entry :: "tc_proceed_on_entry \<Rightarrow> string" where
  "show_tc_entry Tc_Unspec = ''unspec''"
| "show_tc_entry Tc_Ok = ''ok''"
| "show_tc_entry Tc_Reclassify = ''reclassify''"
| "show_tc_entry Tc_Shot = ''shot''"
| "show_tc_entry Tc_Pipe = ''pipe''"
| "show_tc_entry Tc_Stolen = ''stolen''"
| "show_tc_entry Tc_Queued = ''queued''"
| "show_tc_entry Tc_Repeat = ''repeat''"
| "show_tc_entry Tc_Redirect = ''redirect''"
| "show_tc_entry Tc_Trap = ''trap''"
| "show_tc_entry Tc_DispatcherReturn = ''dispatcher_return''"

type_synonym tc_proceed_on = "tc_proceed_on_entry list"

definition tc_proceed_on_default :: tc_proceed_on where
  "tc_proceed_on_default = [Tc_Pipe, Tc_DispatcherReturn]"

definition tc_proceed_on_from_iter :: "tc_proceed_on_entry list \<Rightarrow> tc_proceed_on" where
  "tc_proceed_on_from_iter xs = (if xs = [] then tc_proceed_on_default else xs)"

definition tc_from_strings :: "string list \<Rightarrow> (parse_error, tc_proceed_on) res" where
  "tc_from_strings values = collect_res (map tc_entry_from_string values)"

definition tc_from_int32s :: "i32 list \<Rightarrow> (parse_error, tc_proceed_on) res" where
  "tc_from_int32s values = (if values = [] then Ok tc_proceed_on_default
     else collect_res (map tc_entry_from_i32 values))"

definition tc_mask :: "tc_proceed_on \<Rightarrow> u32" where
  "tc_mask xs = foldl (\<lambda>mask action. mask OR push_bit (unat (tc_entry_to_i32 action + 1)) 1) 0 xs"

definition tc_as_action_vec :: "tc_proceed_on \<Rightarrow> i32 list" where
  "tc_as_action_vec xs = map tc_entry_to_i32 xs"

definition show_tc_proceed_on :: "tc_proceed_on \<Rightarrow> string" where
  "show_tc_proceed_on xs = str_join '', '' (map show_tc_entry xs)"


subsection \<open>Conversions are inverse to each other\<close>

lemma program_type_u32_roundtrip: "program_type_from_u32 (program_type_to_u32 t) = Ok t"
  by (cases t) (simp_all add: program_type_from_u32_def)

lemma program_type_from_u32_iff:
  "program_type_from_u32 v = Ok t \<longleftrightarrow> v = program_type_to_u32 t"
proof
  assume "program_type_from_u32 v = Ok t"
  then show "v = program_type_to_u32 t"
    by (auto simp: program_type_from_u32_def split: if_splits)
qed (simp add: program_type_u32_roundtrip)

lemma program_type_string_roundtrip: "program_type_from_string (show_program_type t) = Ok t"
  by (cases t) (simp_all add: program_type_from_string_def)

lemma program_type_from_string_iff:
  "program_type_from_string s = Ok t \<longleftrightarrow> s = show_program_type t"
proof
  assume "program_type_from_string s = Ok t"
  then show "s = show_program_type t"
    by (auto simp: program_type_from_string_def split: if_splits)
qed (simp add: program_type_string_roundtrip)

lemma direction_roundtrip [simp]:
  "direction_from_u32 (direction_to_u32 d) = Ok d"
  "direction_from_string (show_direction d) = Ok d"
  by (cases d; simp add: direction_from_u32_def direction_from_string_def)+

lemma image_pull_policy_roundtrip [simp]:
  "image_pull_policy_from_i32 (image_pull_policy_to_i32 p) = Ok p"
  "image_pull_policy_from_str (show_image_pull_policy p) = Ok p"
  by (cases p; simp add: image_pull_policy_from_i32_def image_pull_policy_from_str_def)+

lemma xdp_entry_roundtrip [simp]:
  "xdp_entry_from_i32 (xdp_entry_to_i32 e) = Ok e"
  "xdp_entry_from_string (show_xdp_entry e) = Ok e"
  by (cases e; simp add: xdp_entry_from_i32_def xdp_entry_from_string_def)+

lemma tc_entry_roundtrip [simp]:
  "tc_entry_from_i32 (tc_entry_to_i32 e) = Ok e"
  "tc_entry_from_string (show_tc_entry e) = Ok e"
  by (cases e; simp add: tc_entry_from_i32_def tc_entry_from_string_def)+

lemma ascii_enum [simp]:
  "ascii (show_direction d)" "ascii (show_image_pull_policy p)"
  by (cases d; simp) (cases p; simp)


subsection \<open>The bits of a mask\<close>

lemma foldl_or_bit:
  "bit (foldl (\<lambda>mask a. mask OR 2 ^ f a) acc xs :: u32) n \<longleftrightarrow>
   bit acc n \<or> (n < 32 \<and> (\<exists>a \<in> set xs. f a = n))"
proof (induction xs arbitrary: acc)
  case Nil
  then show ?case by simp
next
  case (Cons a xs)
  have "bit (2 ^ f a :: u32) n \<longleftrightarrow> n < 32 \<and> f a = n"
    by (auto simp: bit_exp_iff)
  with Cons show ?case by (auto simp: bit_or_iff)
qed

lemma xdp_mask_bit:
  "bit (xdp_mask xs) n \<longleftrightarrow> n < 32 \<and> (\<exists>e \<in> set xs. unat (xdp_entry_to_i32 e) = n)"
  by (simp add: xdp_mask_def foldl_or_bit)

lemma tc_mask_bit:
  "bit (tc_mask xs) n \<longleftrightarrow> n < 32 \<and> (\<exists>e \<in> set xs. unat (tc_entry_to_i32 e + 1) = n)"
  by (simp add: tc_mask_def foldl_or_bit)

lemma xdp_entry_bound: "unat (xdp_entry_to_i32 e) < 32"
  by (cases e) simp_all

lemma tc_entry_bound: "unat (tc_entry_to_i32 e + 1) < 32"
  by (cases e) simp_all

lemma xdp_entry_inject: "xdp_entry_to_i32 e = xdp_entry_to_i32 e' \<longleftrightarrow> e = e'"
  by (metis res.inject(1) xdp_entry_roundtrip(1))

lemma tc_entry_inject: "tc_entry_to_i32 e = tc_entry_to_i32 e' \<longleftrightarrow> e = e'"
  by (metis res.inject(1) tc_entry_roundtrip(1))

end
