(* ===== verification/Sled_Store.thy ===== *)
theory Sled_Store
  imports Bpfman_Errors "HOL-Library.AList"
begin

text \<open>
  The interface to the embedded database. The sled crate is not part of the sources, so
  its operations are the fields of the parameter \<open>host\<close> that every database function of
  the development takes (with the byte order of the target), over an arbitrary type \<open>'d\<close>
  of database states. The locale \<open>store\<close> states the documented contract the sources
  rely on, when no I/O error occurs: a database is a set of named trees, each an ordered
  map from keys to byte strings. \<open>ref_host\<close> is a concrete database that satisfies the
  contract; the witnesses run on it.
\<close>

record 'd host =
  db_tree_names :: "'d \<Rightarrow> string list"
  db_open_tree :: "string \<Rightarrow> 'd \<Rightarrow> string + 'd"
  db_drop_tree :: "string \<Rightarrow> 'd \<Rightarrow> string + 'd"
  db_get :: "string \<Rightarrow> string \<Rightarrow> 'd \<Rightarrow> string + bytes option"
  db_insert :: "string \<Rightarrow> string \<Rightarrow> bytes \<Rightarrow> 'd \<Rightarrow> string + 'd"
  db_remove :: "string \<Rightarrow> string \<Rightarrow> 'd \<Rightarrow> string + 'd"
  db_scan_prefix :: "string \<Rightarrow> string \<Rightarrow> 'd \<Rightarrow> (string + string \<times> bytes) list"
  db_iter :: "string \<Rightarrow> 'd \<Rightarrow> (string + string \<times> bytes) list"
  db_flush :: "'d \<Rightarrow> string + 'd"
  big_endian :: bool

type_synonym tree = "string \<rightharpoonup> bytes"
type_synonym trees = "string \<rightharpoonup> tree"

text \<open>A tree is named by a string; sled's default tree cannot be dropped.\<close>

definition default_tree :: string where
  "default_tree = ''__sled__default''"

text \<open>The entries of a tree below a key prefix, in the order of their keys.\<close>

definition entries :: "string \<Rightarrow> tree \<Rightarrow> (string \<times> bytes) list" where
  "entries p m = map (\<lambda>k. (k, the (m k))) (sorted_list_of_set {k \<in> dom m. prefix p k})"

locale store =
  fixes H :: "'d host"
    and \<alpha> :: "'d \<Rightarrow> trees"
  assumes names_set: "set (db_tree_names H d) = dom (\<alpha> d)"
    and names_distinct: "distinct (db_tree_names H d)"
    and finite_tree: "\<alpha> d t = Some m \<Longrightarrow> finite (dom m)"
    and open_ok: "\<exists>d'. db_open_tree H t d = Inr d' \<and>
      \<alpha> d' = (\<alpha> d)(t \<mapsto> (case \<alpha> d t of None \<Rightarrow> Map.empty | Some m \<Rightarrow> m))"
    and drop_ok: "t \<noteq> default_tree \<Longrightarrow>
      \<exists>d'. db_drop_tree H t d = Inr d' \<and> \<alpha> d' = (\<alpha> d)(t := None)"
    and get_ok: "\<alpha> d t = Some m \<Longrightarrow> db_get H t k d = Inr (m k)"
    and insert_ok: "\<alpha> d t = Some m \<Longrightarrow>
      \<exists>d'. db_insert H t k v d = Inr d' \<and> \<alpha> d' = (\<alpha> d)(t \<mapsto> m(k \<mapsto> v))"
    and remove_ok: "\<alpha> d t = Some m \<Longrightarrow>
      \<exists>d'. db_remove H t k d = Inr d' \<and> \<alpha> d' = (\<alpha> d)(t \<mapsto> m(k := None))"
    and scan_ok: "\<alpha> d t = Some m \<Longrightarrow> db_scan_prefix H t p d = map Inr (entries p m)"
    and iter_ok: "\<alpha> d t = Some m \<Longrightarrow> db_iter H t d = map Inr (entries [] m)"
    and flush_ok: "\<exists>d'. db_flush H d = Inr d' \<and> \<alpha> d' = \<alpha> d"

text \<open>The states the operations lead to when they succeed.\<close>

definition opened :: "'d host \<Rightarrow> string \<Rightarrow> 'd \<Rightarrow> 'd" where
  "opened H t d = projr (db_open_tree H t d)"

definition dropped :: "'d host \<Rightarrow> string \<Rightarrow> 'd \<Rightarrow> 'd" where
  "dropped H t d = projr (db_drop_tree H t d)"

definition inserted :: "'d host \<Rightarrow> string \<Rightarrow> string \<Rightarrow> bytes \<Rightarrow> 'd \<Rightarrow> 'd" where
  "inserted H t k v d = projr (db_insert H t k v d)"

definition removed :: "'d host \<Rightarrow> string \<Rightarrow> string \<Rightarrow> 'd \<Rightarrow> 'd" where
  "removed H t k d = projr (db_remove H t k d)"

definition flushed :: "'d host \<Rightarrow> 'd \<Rightarrow> 'd" where
  "flushed H d = projr (db_flush H d)"

context store
begin

lemma open_Inr: "db_open_tree H t d = Inr (opened H t d)"
  using open_ok [of t d] by (auto simp: opened_def)

lemma abs_opened:
  "\<alpha> (opened H t d) = (\<alpha> d)(t \<mapsto> (case \<alpha> d t of None \<Rightarrow> Map.empty | Some m \<Rightarrow> m))"
  using open_ok [of t d] by (auto simp: opened_def)

lemma drop_Inr: "t \<noteq> default_tree \<Longrightarrow> db_drop_tree H t d = Inr (dropped H t d)"
  using drop_ok [of t d] by (auto simp: dropped_def)

lemma abs_dropped: "t \<noteq> default_tree \<Longrightarrow> \<alpha> (dropped H t d) = (\<alpha> d)(t := None)"
  using drop_ok [of t d] by (auto simp: dropped_def)

lemma get_Inr: "\<alpha> d t = Some m \<Longrightarrow> db_get H t k d = Inr (m k)"
  by (rule get_ok)

lemma insert_Inr: "\<alpha> d t = Some m \<Longrightarrow> db_insert H t k v d = Inr (inserted H t k v d)"
  using insert_ok [of d t m k v] by (auto simp: inserted_def)

lemma abs_inserted:
  "\<alpha> d t = Some m \<Longrightarrow> \<alpha> (inserted H t k v d) = (\<alpha> d)(t \<mapsto> m(k \<mapsto> v))"
  using insert_ok [of d t m k v] by (auto simp: inserted_def)

lemma remove_Inr: "\<alpha> d t = Some m \<Longrightarrow> db_remove H t k d = Inr (removed H t k d)"
  using remove_ok [of d t m k] by (auto simp: removed_def)

lemma abs_removed:
  "\<alpha> d t = Some m \<Longrightarrow> \<alpha> (removed H t k d) = (\<alpha> d)(t \<mapsto> m(k := None))"
  using remove_ok [of d t m k] by (auto simp: removed_def)

lemma scan_Inr: "\<alpha> d t = Some m \<Longrightarrow> db_scan_prefix H t p d = map Inr (entries p m)"
  by (rule scan_ok)

lemma iter_Inr: "\<alpha> d t = Some m \<Longrightarrow> db_iter H t d = map Inr (entries [] m)"
  by (rule iter_ok)

lemma flush_Inr: "db_flush H d = Inr (flushed H d)"
  using flush_ok [of d] by (auto simp: flushed_def)

lemma abs_flushed: "\<alpha> (flushed H d) = \<alpha> d"
  using flush_ok [of d] by (auto simp: flushed_def)

lemmas store_simps [simp] =
  open_Inr abs_opened drop_Inr abs_dropped get_Inr insert_Inr abs_inserted
  remove_Inr abs_removed scan_Inr iter_Inr flush_Inr abs_flushed

lemma in_names: "t \<in> set (db_tree_names H d) \<longleftrightarrow> \<alpha> d t \<noteq> None"
  by (auto simp: names_set)

end


subsection \<open>The entries below a prefix\<close>

lemma set_entries:
  "finite (dom m) \<Longrightarrow> set (entries p m) = {(k, v). m k = Some v \<and> prefix p k}"
  by (auto simp: entries_def)

lemma map_of_map_graph: "map_of (map (\<lambda>k. (k, f k)) ks) k = (if k \<in> set ks then Some (f k) else None)"
  by (induction ks) auto

lemma map_of_entries:
  "finite (dom m) \<Longrightarrow> map_of (entries p m) k = (if prefix p k then m k else None)"
proof -
  assume "finite (dom m)"
  then have "finite {k \<in> dom m. prefix p k}" by simp
  then show ?thesis by (auto simp: entries_def map_of_map_graph domIff)
qed

lemma sorted_entries: "sorted_wrt (<) (map fst (entries p m))"
  by (simp add: entries_def comp_def)

lemma distinct_entries: "distinct (map fst (entries p m))"
  by (simp add: entries_def comp_def)

lemma entries_cong:
  "(\<And>k. prefix p k \<Longrightarrow> m k = m' k) \<Longrightarrow> entries p m = entries p m'"
proof -
  assume eq: "\<And>k. prefix p k \<Longrightarrow> m k = m' k"
  then have ks: "{k \<in> dom m. prefix p k} = {k \<in> dom m'. prefix p k}"
    by (auto simp: domIff)
  show ?thesis
    unfolding entries_def ks
    using eq by (intro map_cong refl) (cases "finite {k \<in> dom m'. prefix p k}"; auto)
qed

lemma entries_upd_other [simp]: "\<not> prefix p k \<Longrightarrow> entries p (m(k := v)) = entries p m"
  by (rule entries_cong) auto

lemma entries_empty [simp]: "(\<And>k. prefix p k \<Longrightarrow> m k = None) \<Longrightarrow> entries p m = []"
proof -
  assume "\<And>k. prefix p k \<Longrightarrow> m k = None"
  then have none: "{k \<in> dom m. prefix p k} = {}" by (auto simp: domIff)
  show ?thesis unfolding entries_def none by simp
qed

text \<open>
  The values of a family of keys \<open>p @ f i\<close>: as a multiset they are the values of the
  family, whatever the order of the keys is.
\<close>

lemma mset_entries_family:
  assumes inj: "inj_on f I" and fin: "finite I"
    and m: "\<And>k. prefix p k \<Longrightarrow> m k = (if k \<in> f ` I then Some (g k) else None)"
    and pre: "\<And>i. i \<in> I \<Longrightarrow> prefix p (f i)"
  shows "mset (map snd (entries p m)) = image_mset (\<lambda>i. g (f i)) (mset_set I)"
proof -
  have K: "{k \<in> dom m. prefix p k} = f ` I"
    using m pre by (auto simp: domIff split: if_splits)
  have "mset (map snd (entries p m)) = image_mset (\<lambda>k. the (m k)) (mset_set (f ` I))"
    using fin by (simp add: entries_def K comp_def flip: mset_set_set)
  also have "\<dots> = image_mset (\<lambda>k. g k) (mset_set (f ` I))"
    using m pre fin by (intro image_mset_cong) (auto simp: domIff)
  also have "\<dots> = image_mset (\<lambda>i. g (f i)) (mset_set I)"
    using inj by (simp add: image_mset_mset_set [symmetric] multiset.map_comp comp_def)
  finally show ?thesis .
qed


subsection \<open>A reference database\<close>

type_synonym ref_db = "(string \<times> (string \<times> bytes) list) list"

definition ref_abs :: "ref_db \<Rightarrow> trees" where
  "ref_abs d t = map_option map_of (map_of d t)"

definition ref_entries :: "string \<Rightarrow> (string \<times> bytes) list \<Rightarrow> (string \<times> bytes) list" where
  "ref_entries p m =
     map (\<lambda>k. (k, the (map_of m k))) (sort (remdups (filter (prefix p) (map fst m))))"

definition ref_upd ::
  "string \<Rightarrow> ((string \<times> bytes) list \<Rightarrow> (string \<times> bytes) list) \<Rightarrow> ref_db \<Rightarrow> string + ref_db" where
  "ref_upd t f d = (case map_of d t of
     None \<Rightarrow> Inl ''tree does not exist'' | Some m \<Rightarrow> Inr (AList.update t (f m) d))"

definition ref_scan :: "string \<Rightarrow> string \<Rightarrow> ref_db \<Rightarrow> (string + string \<times> bytes) list" where
  "ref_scan t p d = (case map_of d t of
     None \<Rightarrow> [Inl ''tree does not exist''] | Some m \<Rightarrow> map Inr (ref_entries p m))"

definition ref_host :: "ref_db host" where
  "ref_host = \<lparr>
     db_tree_names = (\<lambda>d. remdups (map fst d)),
     db_open_tree = (\<lambda>t d. Inr (case map_of d t of None \<Rightarrow> d @ [(t, [])] | Some m \<Rightarrow> d)),
     db_drop_tree = (\<lambda>t d. if t = default_tree then Inl ''cannot drop the default tree''
        else Inr (filter (\<lambda>(u, m). u \<noteq> t) d)),
     db_get = (\<lambda>t k d. case map_of d t of
        None \<Rightarrow> Inl ''tree does not exist'' | Some m \<Rightarrow> Inr (map_of m k)),
     db_insert = (\<lambda>t k v. ref_upd t (AList.update k v)),
     db_remove = (\<lambda>t k. ref_upd t (filter (\<lambda>(j, v). j \<noteq> k))),
     db_scan_prefix = ref_scan,
     db_iter = (\<lambda>t. ref_scan t []),
     db_flush = Inr,
     big_endian = False \<rparr>"

lemma ref_entries_eq: "ref_entries p m = entries p (map_of m)"
proof -
  have "{k \<in> dom (map_of m). prefix p k} = set (filter (prefix p) (map fst m))"
    by (auto simp: dom_map_of_conv_image_fst)
  then show ?thesis
    by (simp only: ref_entries_def entries_def sorted_list_of_set_sort_remdups)
qed

lemma ref_abs_update: "ref_abs (AList.update t m d) = (ref_abs d)(t \<mapsto> map_of m)"
  by (auto simp: ref_abs_def fun_eq_iff update_conv')

lemma map_of_filter_key: "map_of (filter (\<lambda>(u, v). u \<noteq> t) d) = (map_of d)(t := None)"
  by (induction d) (auto simp: fun_eq_iff)

lemma ref_abs_append_new:
  "map_of d t = None \<Longrightarrow> ref_abs (d @ [(t, m)]) = (ref_abs d)(t \<mapsto> map_of m)"
  by (auto simp: ref_abs_def fun_eq_iff map_add_def split: option.splits)

interpretation ref: store ref_host ref_abs
proof (unfold_locales, goal_cases)
  case (1 d)
  then show ?case
    by (simp add: ref_host_def ref_abs_def dom_def flip: dom_map_of_conv_image_fst)
next
  case (2 d)
  then show ?case by (simp add: ref_host_def)
next
  case (3 d t m)
  then show ?case by (auto simp: ref_abs_def finite_dom_map_of)
next
  case (4 t d)
  then show ?case
    by (cases "map_of d t")
      (auto simp: ref_host_def ref_abs_append_new, auto simp: ref_abs_def fun_eq_iff)
next
  case (5 t d)
  then show ?case
    by (auto simp: ref_host_def ref_abs_def fun_eq_iff map_of_filter_key)
next
  case (6 d t m k)
  then show ?case by (auto simp: ref_host_def ref_abs_def)
next
  case (7 d t m k v)
  then show ?case
    by (auto simp: ref_host_def ref_abs_update ref_upd_def ref_abs_def update_conv' split: option.splits)
next
  case (8 d t m k)
  then show ?case
    by (auto simp: ref_host_def ref_upd_def ref_abs_def map_of_filter_key update_conv' split: option.splits)
next
  case (9 d t m p)
  then show ?case by (auto simp: ref_host_def ref_scan_def ref_abs_def ref_entries_eq)
next
  case (10 d t m)
  then show ?case by (auto simp: ref_host_def ref_scan_def ref_abs_def ref_entries_eq)
next
  case (11 d)
  then show ?case by (simp add: ref_host_def)
qed

lemmas ref_store = ref.store_axioms

end
