(* ===== verification/Bpfman_Utils.thy ===== *)
theory Bpfman_Utils
  imports Sled_Store
begin

text \<open>
  The helpers of \<open>bpfman/src/utils.rs\<close>: unmarshalling of database values, the database
  accessors with their error texts, the map-pinning test, the last line of a helper's
  error output and the mount check. The lemmas in \<open>store\<close> say what a run of insertions
  leaves in a tree, and what a prefix scan then reads.
\<close>


subsection \<open>Unmarshalling\<close>

definition bytes_to_u32 :: "'d host \<Rightarrow> bytes \<Rightarrow> ('e, u32) res" where
  "bytes_to_u32 H bs = (if length bs = 4 then Ok (from_ne_bytes (big_endian H) bs)
     else Panic ''unable to marshall &[u8] to &[u8; 4]'')"

definition bytes_to_u16 :: "'d host \<Rightarrow> bytes \<Rightarrow> ('e, u16) res" where
  "bytes_to_u16 H bs = (if length bs = 2 then Ok (from_ne_bytes (big_endian H) bs)
     else Panic ''unable to marshall &[u8] to &[u8; 4]'')"

definition bytes_to_i32 :: "'d host \<Rightarrow> bytes \<Rightarrow> ('e, i32) res" where
  "bytes_to_i32 H bs = (if length bs = 4 then Ok (from_ne_bytes (big_endian H) bs)
     else Panic ''unable to marshall &[u8] to &[u8; 4]'')"

definition bytes_to_string :: "bytes \<Rightarrow> ('e, string) res" where
  "bytes_to_string bs = (if utf8_valid bs then Ok (chars_of bs)
     else Panic ''failed to convert &[u8] to string'')"

definition bytes_to_bool :: "'d host \<Rightarrow> bytes \<Rightarrow> ('e, bool) res" where
  "bytes_to_bool H bs = (if length bs = 1 then Ok ((from_ne_bytes (big_endian H) bs :: u8) \<noteq> 0)
     else Panic ''unable to marshall &[u8] to &[i8; 1]'')"

definition bytes_to_usize :: "'d host \<Rightarrow> bytes \<Rightarrow> ('e, usize) res" where
  "bytes_to_usize H bs = (if length bs = 8 then Ok (from_ne_bytes (big_endian H) bs)
     else Panic ''unable to marshall &[u8] to &[u8; 8]'')"

definition bytes_to_u64 :: "'d host \<Rightarrow> bytes \<Rightarrow> ('e, u64) res" where
  "bytes_to_u64 H bs = (if length bs = 8 then Ok (from_ne_bytes (big_endian H) bs)
     else Panic ''unable to marshall &[u8] to &[u8; 8]'')"

text \<open>\<open>to_ne_bytes\<close> at the widths the setters use, and a \<open>bool\<close> cast to \<open>i8\<close>.\<close>

abbreviation ne4 :: "'d host \<Rightarrow> u32 \<Rightarrow> bytes" where
  "ne4 H w \<equiv> to_ne_bytes (big_endian H) 4 w"

abbreviation ne8 :: "'d host \<Rightarrow> u64 \<Rightarrow> bytes" where
  "ne8 H w \<equiv> to_ne_bytes (big_endian H) 8 w"

abbreviation ne2 :: "'d host \<Rightarrow> u16 \<Rightarrow> bytes" where
  "ne2 H w \<equiv> to_ne_bytes (big_endian H) 2 w"

definition ne_bool :: "'d host \<Rightarrow> bool \<Rightarrow> bytes" where
  "ne_bool H b = to_ne_bytes (big_endian H) 1 (if b then 1 else 0 :: u8)"

lemma unmarshal_simps [simp]:
  "bytes_to_u32 H (ne4 H w) = Ok w"
  "bytes_to_i32 H (ne4 H w) = Ok w"
  "bytes_to_u16 H (ne2 H y) = Ok y"
  "bytes_to_u64 H (ne8 H x) = Ok x"
  "bytes_to_usize H (ne8 H x) = Ok x"
  "bytes_to_bool H (ne_bool H b) = Ok b"
  using from_to_ne_bytes_widths(4) [of "big_endian H"]
  by (simp_all add: bytes_to_u32_def bytes_to_i32_def bytes_to_u16_def bytes_to_u64_def
      bytes_to_usize_def bytes_to_bool_def ne_bool_def)

lemma bytes_to_string_as_bytes [simp]: "is_str s \<Longrightarrow> bytes_to_string (as_bytes s) = Ok s"
  by (simp add: bytes_to_string_def is_str_def)


subsection \<open>Database accessors\<close>

definition sled_get :: "'d host \<Rightarrow> string \<Rightarrow> string \<Rightarrow> 'd \<Rightarrow> (bpfman_error, bytes) res" where
  "sled_get H t key d = (case db_get H t key d of
     Inl e \<Rightarrow> Err (DatabaseError
       (''Unable to get database entry '' @ key @ '' from tree '' @ t) e)
   | Inr None \<Rightarrow> Err (DatabaseError
       (''Database entry '' @ key @ '' does not exist in tree '' @ debug_str t) [])
   | Inr (Some v) \<Rightarrow> Ok v)"

definition sled_get_option ::
  "'d host \<Rightarrow> string \<Rightarrow> string \<Rightarrow> 'd \<Rightarrow> (bpfman_error, bytes option) res" where
  "sled_get_option H t key d = (case db_get H t key d of
     Inl e \<Rightarrow> Err (DatabaseError
       (''Unable to get database entry '' @ key @ '' from tree '' @ t) e)
   | Inr v \<Rightarrow> Ok v)"

definition sled_insert ::
  "'d host \<Rightarrow> string \<Rightarrow> string \<Rightarrow> bytes \<Rightarrow> ('d, bpfman_error, unit) st" where
  "sled_insert H t key value d = (case db_insert H t key value d of
     Inl e \<Rightarrow> (Err (DatabaseError
       (''Unable to insert database entry '' @ key @ '' into tree '' @
        debug_bytes (as_bytes t)) e), d)
   | Inr d' \<Rightarrow> (Ok (), d'))"

text \<open>\<open>open_tree(t).expect(msg)\<close> and \<open>drop_tree(t).expect(msg)\<close>.\<close>

definition open_tree :: "'d host \<Rightarrow> string \<Rightarrow> string \<Rightarrow> ('d, 'e, unit) st" where
  "open_tree H msg t d = (case db_open_tree H t d of Inl e \<Rightarrow> (Panic msg, d) | Inr d' \<Rightarrow> (Ok (), d'))"

definition drop_tree :: "'d host \<Rightarrow> string \<Rightarrow> string \<Rightarrow> ('d, 'e, unit) st" where
  "drop_tree H msg t d = (case db_drop_tree H t d of Inl e \<Rightarrow> (Panic msg, d) | Inr d' \<Rightarrow> (Ok (), d'))"

text \<open>
  The scan that the vector getters share: the values below a prefix, the error of a
  failing item mapped to a \<open>DatabaseError\<close> with the given text, then \<open>collect\<close>.
\<close>

definition scan_values ::
  "'d host \<Rightarrow> string \<Rightarrow> string \<Rightarrow> string \<Rightarrow> (bytes \<Rightarrow> (bpfman_error, 'a) res) \<Rightarrow> 'd \<Rightarrow>
   (bpfman_error, 'a list) res" where
  "scan_values H t p msg f d = collect_res (map (\<lambda>n. case n of
     Inl e \<Rightarrow> Err (DatabaseError msg e) | Inr (k, v) \<Rightarrow> f v) (db_scan_prefix H t p d))"

definition scan_pairs ::
  "'d host \<Rightarrow> string \<Rightarrow> string \<Rightarrow> string \<Rightarrow> (bytes \<Rightarrow> (bpfman_error, 'a) res) \<Rightarrow> 'd \<Rightarrow>
   (bpfman_error, (string, 'a) hashmap) res" where
  "scan_pairs H t p msg f d = collect_res (map (\<lambda>n. case n of
     Inl e \<Rightarrow> Err (DatabaseError msg e)
   | Inr (k, v) \<Rightarrow> bind_res (bytes_to_string (as_bytes k)) (\<lambda>s.
       bind_res (expect_opt ''unwrap'' (strip_prefix p s))
         (\<lambda>k'. ok_map (\<lambda>x. (k', x)) (f v)))) (db_scan_prefix H t p d))"

text \<open>The loop of the two \<open>clear_maps_used_by\<close>: remove every key below a prefix.\<close>

definition remove_item :: "'d host \<Rightarrow> string \<Rightarrow> string + string \<times> bytes \<Rightarrow> ('d, 'e, unit) st" where
  "remove_item H t n d = (case n of
       Inl e \<Rightarrow> (Panic ''unwrap'', d)
     | Inr (k, v) \<Rightarrow> (case db_remove H t k d of
         Inl e \<Rightarrow> (Panic ''unable to clear maps used by'', d) | Inr d' \<Rightarrow> (Ok (), d')))"

definition clear_prefix :: "'d host \<Rightarrow> string \<Rightarrow> string \<Rightarrow> ('d, 'e, unit) st" where
  "clear_prefix H t p d = try_for_each (remove_item H t) (db_scan_prefix H t p d) d"


subsection \<open>Other helpers\<close>

definition should_map_be_pinned :: "string \<Rightarrow> bool" where
  "should_map_be_pinned name \<longleftrightarrow>
     \<not> (str_contains name ''.rodata'' \<or> str_contains name ''.bss'' \<or> str_contains name ''.data'')"

text \<open>\<open>open_file\<close> is what opening a path gives: an error, or the outcome of reading it.\<close>

definition utils_read :: "(string \<Rightarrow> string + (string + bytes)) \<Rightarrow> string \<Rightarrow> (bpfman_error, bytes) res" where
  "utils_read open_file path =
     bind_res (map_err (\<lambda>e. Error (''can't open file: '' @ e)) (of_sum (open_file path))) (\<lambda>f.
     map_err (\<lambda>e. Error (''can't read file: '' @ e)) (of_sum f))"

text \<open>The argument is the helper's standard error as \<open>String::from_utf8_lossy\<close> decodes it.\<close>

definition get_error_msg_from_stderr :: "string \<Rightarrow> string" where
  "get_error_msg_from_stderr stderr =
     (let lines = filter (\<lambda>s. s \<noteq> []) (split_on (CHR 0x0A) stderr) in
      if lines = [] then ''No message'' else last lines)"

fun mounts_have_bpffs :: "(string + string) list \<Rightarrow> string + bool" where
  "mounts_have_bpffs [] = Inr False"
| "mounts_have_bpffs (Inl e # ls) = Inl (''problem reading lines '' @ e)"
| "mounts_have_bpffs (Inr line # ls) =
     (let parts = split_on (CHR '' '') line in
      if length parts \<noteq> 6 then Inl ''expected 6 parts in proc mount''
      else if parts ! 0 = ''none'' \<and> str_contains (parts ! 1) ''bpfman'' \<and> parts ! 2 = ''bpf''
      then Inr True else mounts_have_bpffs ls)"

text \<open>\<open>proc_mounts\<close> is the opened \<open>/proc/mounts\<close> as its lines, or the error of opening it.\<close>

definition is_bpffs_mounted :: "string + (string + string) list \<Rightarrow> string + bool" where
  "is_bpffs_mounted proc_mounts = (case proc_mounts of
     Inl e \<Rightarrow> Inl ''Failed to open /proc/mounts'' | Inr ls \<Rightarrow> mounts_have_bpffs ls)"

definition get_ifindex :: "(string \<Rightarrow> u32 option) \<Rightarrow> string \<Rightarrow> (bpfman_error, u32) res" where
  "get_ifindex if_nametoindex iface = (case if_nametoindex iface of
     Some index \<Rightarrow> Ok index | None \<Rightarrow> Err InvalidInterface)"


subsection \<open>Runs of insertions\<close>

definition inserted_all ::
  "'d host \<Rightarrow> string \<Rightarrow> ('a \<Rightarrow> string) \<Rightarrow> ('a \<Rightarrow> bytes) \<Rightarrow> 'a list \<Rightarrow> 'd \<Rightarrow> 'd" where
  "inserted_all H t kf vf xs d = fold (\<lambda>x. inserted H t (kf x) (vf x)) xs d"

definition kv_map :: "('a \<Rightarrow> string) \<Rightarrow> ('a \<Rightarrow> bytes) \<Rightarrow> 'a list \<Rightarrow> tree" where
  "kv_map kf vf xs = map_of (rev (map (\<lambda>x. (kf x, vf x)) xs))"

context store
begin

lemma sled_insert_ok [simp]:
  "\<alpha> d t = Some m \<Longrightarrow> sled_insert H t k v d = (Ok (), inserted H t k v d)"
  by (simp add: sled_insert_def)

lemma open_tree_ok [simp]: "open_tree H msg t d = (Ok (), opened H t d)"
  by (simp add: open_tree_def)

lemma drop_tree_ok [simp]:
  "t \<noteq> default_tree \<Longrightarrow> drop_tree H msg t d = (Ok (), dropped H t d)"
  by (simp add: drop_tree_def)

lemma sled_get_ok [simp]: "\<alpha> d t = Some m \<Longrightarrow> m k = Some v \<Longrightarrow> sled_get H t k d = Ok v"
  by (simp add: sled_get_def)

lemma sled_get_missing: "\<alpha> d t = Some m \<Longrightarrow> m k = None \<Longrightarrow> \<exists>e. sled_get H t k d = Err e"
  by (simp add: sled_get_def)

lemma sled_get_option_ok [simp]: "\<alpha> d t = Some m \<Longrightarrow> sled_get_option H t k d = Ok (m k)"
  by (simp add: sled_get_option_def)

lemma scan_values_ok:
  "\<alpha> d t = Some m \<Longrightarrow>
   scan_values H t p msg f d = collect_res (map (\<lambda>kv. f (snd kv)) (entries p m))"
  by (simp add: scan_values_def comp_def case_prod_beta)

lemma scan_pairs_ok:
  assumes "\<alpha> d t = Some m" and "\<And>k. k \<in> dom m \<Longrightarrow> prefix p k \<Longrightarrow> is_str k"
  shows "scan_pairs H t p msg f d =
    collect_res (map (\<lambda>kv. ok_map (\<lambda>x. (drop (length p) (fst kv), x)) (f (snd kv))) (entries p m))"
proof -
  have "\<forall>kv \<in> set (entries p m). prefix p (fst kv) \<and> is_str (fst kv)"
    using finite_tree [OF assms(1)] assms(2) by (auto simp: set_entries)
  then show ?thesis
    using assms
    by (auto simp: scan_pairs_def comp_def strip_prefix_def case_prod_beta
        intro!: arg_cong [of _ _ collect_res])
qed

lemma inserts_ok:
  assumes f: "\<And>x d m. \<alpha> d t = Some m \<Longrightarrow> f x d = (Ok (), inserted H t (kf x) (vf x) d)"
    and "\<alpha> d t = Some m"
  shows "try_for_each f xs d = (Ok (), inserted_all H t kf vf xs d)
    \<and> \<alpha> (inserted_all H t kf vf xs d) = (\<alpha> d)(t \<mapsto> m ++ kv_map kf vf xs)"
  using assms(2)
proof (induction xs arbitrary: d m)
  case Nil
  then show ?case by (auto simp: inserted_all_def kv_map_def)
next
  case (Cons x xs)
  let ?d = "inserted H t (kf x) (vf x) d"
  have m: "\<alpha> ?d t = Some (m(kf x \<mapsto> vf x))" using Cons.prems by simp
  have "(\<alpha> ?d)(t \<mapsto> m(kf x \<mapsto> vf x) ++ kv_map kf vf xs) =
      (\<alpha> d)(t \<mapsto> m ++ kv_map kf vf (x # xs))"
    using Cons.prems by (simp add: kv_map_def)
  moreover have "inserted_all H t kf vf (x # xs) d = inserted_all H t kf vf xs ?d"
    by (simp add: inserted_all_def)
  moreover have "try_for_each f (x # xs) d = try_for_each f xs ?d"
    using Cons.prems f [OF Cons.prems] by (simp add: then_st_def bind_st_def)
  ultimately show ?case using Cons.IH [OF m] by metis
qed

lemma insert_all_run [simp]:
  "\<alpha> d t = Some m \<Longrightarrow> try_for_each (\<lambda>x. sled_insert H t (kf x) (vf x)) xs d =
     (Ok (), inserted_all H t kf vf xs d)"
  using inserts_ok [of t "\<lambda>x. sled_insert H t (kf x) (vf x)" kf vf d m xs] by simp

lemma abs_inserted_all [simp]:
  "\<alpha> d t = Some m \<Longrightarrow>
   \<alpha> (inserted_all H t kf vf xs d) = (\<alpha> d)(t \<mapsto> m ++ kv_map kf vf xs)"
  using inserts_ok [of t "\<lambda>x. sled_insert H t (kf x) (vf x)" kf vf d m xs] by simp

lemma remove_item_ok:
  "\<alpha> d t = Some m \<Longrightarrow> remove_item H t (Inr kv) d = (Ok (), removed H t (fst kv) d)"
  by (simp add: remove_item_def case_prod_beta)

lemma clear_prefix_aux:
  assumes "\<alpha> d t = Some m"
  shows "\<exists>d'. try_for_each (remove_item H t) (map Inr kvs) d = (Ok (), d') \<and>
     \<alpha> d' = (\<alpha> d)(t \<mapsto> m |` (- fst ` set kvs))"
  using assms
proof (induction kvs arbitrary: d m)
  case Nil
  then show ?case by (auto simp: restrict_map_def)
next
  case (Cons kv kvs)
  let ?d = "removed H t (fst kv) d"
  have m: "\<alpha> ?d t = Some (m(fst kv := None))" using Cons.prems by simp
  have "(m(fst kv := None)) |` (- fst ` set kvs) = m |` (- fst ` set (kv # kvs))"
    by (auto simp: restrict_map_def fun_eq_iff)
  then have "(\<alpha> ?d)(t \<mapsto> (m(fst kv := None)) |` (- fst ` set kvs)) =
      (\<alpha> d)(t \<mapsto> m |` (- fst ` set (kv # kvs)))"
    using Cons.prems by simp
  moreover have "try_for_each (remove_item H t) (map Inr (kv # kvs)) d =
      try_for_each (remove_item H t) (map Inr kvs) ?d"
    using Cons.prems by (simp add: then_st_def bind_st_def remove_item_ok)
  ultimately show ?case using Cons.IH [OF m] by metis
qed

lemma clear_prefix_ok:
  assumes "\<alpha> d t = Some m"
  shows "\<exists>d'. clear_prefix H t p d = (Ok (), d') \<and>
     \<alpha> d' = (\<alpha> d)(t \<mapsto> m |` {k. \<not> prefix p k})"
proof -
  have "fst ` set (entries p m) = {k. prefix p k \<and> k \<in> dom m}"
    using finite_tree [OF assms] by (force simp: set_entries)
  then have "m |` (- fst ` set (entries p m)) = m |` {k. \<not> prefix p k}"
    by (auto simp: restrict_map_def fun_eq_iff)
  with clear_prefix_aux [OF assms, of "entries p m"] assms show ?thesis
    by (simp add: clear_prefix_def)
qed

text \<open>A hash map stored under a prefix is read back as the same map.\<close>

lemma read_hashmap:
  assumes m: "\<alpha> d t = Some m" and asc: "ascii p"
    and hm: "\<And>k. m (p @ k) = map_option enc (map_of hm k)"
    and ok: "\<And>k v. map_of hm k = Some v \<Longrightarrow> is_str k \<and> dec (enc v) = Ok v"
  shows "\<exists>hm'. scan_pairs H t p msg dec d = Ok hm' \<and> map_of hm' = map_of hm"
proof -
  define g where "g = (\<lambda>kv :: string \<times> bytes.
    (drop (length p) (fst kv), the (map_of hm (drop (length p) (fst kv)))))"
  have set_es: "(k, b) \<in> set (entries p m) \<longleftrightarrow>
      (\<exists>k' v. k = p @ k' \<and> map_of hm k' = Some v \<and> b = enc v)" for k b
    using finite_tree [OF m] hm by (fastforce simp: set_entries prefix_def)
  have es: "\<exists>k' v. fst kv = p @ k' \<and> map_of hm k' = Some v \<and> snd kv = enc v"
    if "kv \<in> set (entries p m)" for kv
    using that set_es [of "fst kv" "snd kv"] by simp
  have str: "is_str k" if "k \<in> dom m" "prefix p k" for k
    using that hm ok asc by (auto simp: prefix_def)
  have scan: "scan_pairs H t p msg dec d = collect_res (map (\<lambda>kv.
      ok_map (\<lambda>x. (drop (length p) (fst kv), x)) (dec (snd kv))) (entries p m))"
    by (rule scan_pairs_ok [OF m]) (rule str)
  have "scan_pairs H t p msg dec d = Ok (map g (entries p m))"
    unfolding scan by (rule collect_res_all_Ok) (use es ok in \<open>fastforce simp: g_def\<close>)
  moreover have "map_of (map g (entries p m)) = map_of hm"
  proof
    fix k
    have keys: "map fst (map g (entries p m)) = map (drop (length p)) (map fst (entries p m))"
      by (simp add: g_def)
    have "k = p @ drop (length p) k" if "k \<in> fst ` set (entries p m)" for k
      using that es by fastforce
    then have "inj_on (drop (length p)) (fst ` set (entries p m))"
      by (metis inj_onI)
    then have dist: "distinct (map fst (map g (entries p m)))"
      unfolding keys using distinct_entries [of p m] by (simp only: distinct_map set_map)
    have "map_of (map g (entries p m)) k = Some v \<longleftrightarrow> map_of hm k = Some v" for v
      using set_es [of "p @ k" "enc v"]
      by (simp only: map_of_eq_Some_iff [OF dist]) (use es in \<open>force simp: g_def\<close>)
    then show "map_of (map g (entries p m)) k = map_of hm k"
      by (metis not_None_eq)
  qed
  ultimately show ?thesis by blast
qed

end


subsection \<open>What a scan reads after a run of insertions\<close>

lemma kv_map_None: "k \<notin> kf ` set xs \<Longrightarrow> kv_map kf vf xs k = None"
  by (auto simp: kv_map_def map_of_eq_None_iff)

lemma kv_map_Some: "inj_on kf (set xs) \<Longrightarrow> x \<in> set xs \<Longrightarrow> kv_map kf vf xs (kf x) = Some (vf x)"
proof (induction xs)
  case Nil
  then show ?case by simp
next
  case (Cons y ys)
  show ?case
  proof (cases "x \<in> set ys")
    case True
    with Cons show ?thesis by (simp add: kv_map_def)
  next
    case False
    with Cons.prems have "x = y" and "kf y \<notin> kf ` set ys" by (auto simp: inj_on_def)
    then show ?thesis using kv_map_None [of "kf y" kf ys vf] by (simp add: kv_map_def map_add_def)
  qed
qed

lemma kv_map_simps [simp]:
  "kv_map kf vf [] = Map.empty"
  "kv_map kf vf (x # xs) = [kf x \<mapsto> vf x] ++ kv_map kf vf xs"
  by (auto simp: kv_map_def)

lemma kv_map_prefix_None [simp]: "\<not> prefix p k \<Longrightarrow> kv_map (\<lambda>x. p @ f x) vf xs k = None"
  by (rule kv_map_None) auto

lemma map_of_rev_distinct: "distinct (map fst kvs) \<Longrightarrow> map_of (rev kvs) = map_of kvs"
  by (subst map_of_inject_set) (simp_all flip: rev_map)

lemma kv_map_distinct: "distinct (map fst kvs) \<Longrightarrow> kv_map fst snd kvs = map_of kvs"
  by (simp add: kv_map_def map_of_rev_distinct)

lemma kv_map_entries: "finite (dom m) \<Longrightarrow> kv_map fst snd (entries [] m) = m"
  using map_of_entries [of m "[]"] by (auto simp: kv_map_distinct distinct_entries)

lemma kv_map_hashmap [simp]:
  "distinct (map fst hm) \<Longrightarrow>
   kv_map (\<lambda>kv. p @ fst kv) (\<lambda>kv. enc (snd kv)) hm (p @ k) = map_option enc (map_of hm k)"
  by (induction hm) (force simp: map_add_def split: option.splits)+

text \<open>A run whose keys come out in increasing order is read back as it is.\<close>

lemma entries_kv_map_sorted:
  assumes sorted: "sorted_wrt (<) (map kf xs)"
    and pre: "\<And>x. x \<in> set xs \<Longrightarrow> prefix p (kf x)"
    and none: "\<And>k. prefix p k \<Longrightarrow> m k = None"
  shows "entries p (m ++ kv_map kf vf xs) = map (\<lambda>x. (kf x, vf x)) xs"
proof -
  have dist: "distinct (map kf xs)"
    using sorted strict_sorted_iff by blast
  then have inj: "inj_on kf (set xs)" by (simp add: distinct_map)
  have "{k \<in> dom (m ++ kv_map kf vf xs). prefix p k} = set (map kf xs)"
    using pre none kv_map_Some [OF inj] kv_map_None [of _ kf xs vf]
    by (fastforce simp: domIff map_add_def split: option.splits)
  moreover have "sorted_list_of_set (set (map kf xs)) = map kf xs"
    using sorted by (simp only: strict_sorted_iff sorted_list_of_set.idem_if_sorted_distinct)
  ultimately have "entries p (m ++ kv_map kf vf xs) =
      map (\<lambda>k. (k, the ((m ++ kv_map kf vf xs) k))) (map kf xs)"
    by (simp only: entries_def)
  also have "\<dots> = map (\<lambda>x. (kf x, vf x)) xs"
    using kv_map_Some [OF inj] by (auto simp: map_add_def)
  finally show ?thesis .
qed

text \<open>Whatever the order of its keys is, a run with distinct keys is read back as a multiset.\<close>

lemma mset_entries_kv_map:
  assumes dist: "distinct (map kf xs)"
    and pre: "\<And>x. x \<in> set xs \<Longrightarrow> prefix p (kf x)"
    and none: "\<And>k. prefix p k \<Longrightarrow> m k = None"
  shows "mset (entries p (m ++ kv_map kf vf xs)) = mset (map (\<lambda>x. (kf x, vf x)) xs)"
proof -
  let ?m = "m ++ kv_map kf vf xs"
  from dist have inj: "inj_on kf (set xs)" by (simp add: distinct_map)
  have K: "{k \<in> dom ?m. prefix p k} = set (map kf xs)"
    using pre none kv_map_Some [OF inj] kv_map_None [of _ kf xs vf]
    by (fastforce simp: domIff map_add_def split: option.splits)
  have ks: "mset (sorted_list_of_set (set (map kf xs))) = mset (map kf xs)"
    using dist by (simp only: sorted_list_of_set_sort_remdups distinct_remdups_id mset_sort)
  have "mset (entries p ?m) = image_mset (\<lambda>k. (k, the (?m k))) (mset (map kf xs))"
    unfolding entries_def K using ks by simp
  also have "\<dots> = mset (map (\<lambda>x. (kf x, vf x)) xs)"
    using kv_map_Some [OF inj]
    by (auto simp: multiset.map_comp map_add_def intro!: image_mset_cong)
  finally show ?thesis .
qed

text \<open>
  Numbered keys \<open>p0, p1, \<dots>\<close> sort in the order of their numbers up to ten of them;
  after that \<open>p10\<close> comes before \<open>p2\<close>.
\<close>

lemma digit_char_less: "i < j \<Longrightarrow> j < 10 \<Longrightarrow> digit_char i < digit_char j"
  by (simp add: less_char_def)

lemma list_less_append: "(p @ s < p @ t) \<longleftrightarrow> s < (t :: string)"
  by (induction p) auto

lemma show_nat_digit: "i < 10 \<Longrightarrow> show_nat i = [digit_char i]"
  by (simp add: show_nat.simps [of i])

lemma numbered_sorted:
  "n \<le> 10 \<Longrightarrow> sorted_wrt (<) (map (\<lambda>i. p @ show_nat i) [0..<n])"
  by (auto simp: sorted_wrt_map sorted_wrt_upt list_less_append show_nat_digit digit_char_less
      intro!: sorted_wrt_mono_rel [OF _ sorted_wrt_upt])

lemma numbered_distinct: "distinct (map (\<lambda>i. p @ show_nat i) ns) \<longleftrightarrow> distinct ns"
  by (auto simp: distinct_map inj_on_def)


subsection \<open>Sequences of insertions\<close>

text \<open>
  A straight-line sequence of setters on one tree is one run over the list of its keys
  and values: the rules \<open>to_insert_list\<close> rewrite it so.
\<close>

definition insert_list :: "'d host \<Rightarrow> string \<Rightarrow> (string \<times> bytes) list \<Rightarrow> ('d, bpfman_error, unit) st" where
  "insert_list H t kvs = try_for_each (\<lambda>kv. sled_insert H t (fst kv) (snd kv)) kvs"

definition upd_list :: "(string \<times> bytes) list \<Rightarrow> tree \<Rightarrow> tree" where
  "upd_list kvs m = m ++ map_of (rev kvs)"

lemma sled_insert_list: "sled_insert H t k v = insert_list H t [(k, v)]"
  by (simp add: insert_list_def)

lemma insert_list_then:
  "then_st (insert_list H t xs) (insert_list H t ys) = insert_list H t (xs @ ys)"
  by (simp add: insert_list_def try_for_each_append)

lemma insert_list_then2:
  "then_st (insert_list H t xs) (then_st (insert_list H t ys) m) = then_st (insert_list H t (xs @ ys)) m"
  by (simp add: insert_list_then flip: then_st_assoc)

lemma case_insert_list:
  "(case x of None \<Rightarrow> ret () | Some a \<Rightarrow> insert_list H t (f a)) =
     insert_list H t (case x of None \<Rightarrow> [] | Some a \<Rightarrow> f a)"
  "(case y of Inl e \<Rightarrow> ret () | Inr b \<Rightarrow> insert_list H t (g b)) =
     insert_list H t (case y of Inl e \<Rightarrow> [] | Inr b \<Rightarrow> g b)"
  by (auto simp: insert_list_def split: option.splits sum.splits)

lemma hashmap_insert_list:
  "try_for_each (\<lambda>x. sled_insert H t (kf x) (vf x)) xs = insert_list H t (map (\<lambda>x. (kf x, vf x)) xs)"
  by (simp add: insert_list_def try_for_each_map)

lemmas to_insert_list =
  hashmap_insert_list sled_insert_list insert_list_then insert_list_then2 case_insert_list

lemma upd_list_Nil [simp]: "upd_list [] m = m"
  by (simp add: upd_list_def)

lemma upd_list_Cons [simp]: "upd_list ((k, v) # kvs) m = upd_list kvs (m(k \<mapsto> v))"
  by (simp add: upd_list_def)

lemma upd_list_append [simp]: "upd_list (xs @ ys) m = upd_list ys (upd_list xs m)"
  by (simp add: upd_list_def)

lemma upd_list_other: "k \<notin> fst ` set kvs \<Longrightarrow> upd_list kvs m k = m k"
  by (auto simp: upd_list_def map_add_dom_app_simps dom_map_of_conv_image_fst)

context store
begin

definition wrote_list :: "string \<Rightarrow> (string \<times> bytes) list \<Rightarrow> 'd \<Rightarrow> 'd" where
  "wrote_list t kvs d = inserted_all H t fst snd kvs d"

lemma insert_list_run [simp]:
  "\<alpha> d t = Some m \<Longrightarrow> insert_list H t kvs d = (Ok (), wrote_list t kvs d)"
  by (simp add: insert_list_def wrote_list_def)

lemma abs_wrote_list [simp]:
  "\<alpha> d t = Some m \<Longrightarrow> \<alpha> (wrote_list t kvs d) = (\<alpha> d)(t \<mapsto> upd_list kvs m)"
  by (simp add: wrote_list_def upd_list_def kv_map_def)

end


subsection \<open>Vectors under numbered keys\<close>

text \<open>
  \<open>ids.iter().enumerate().try_for_each(|(i, v)| sled_insert(tree, "{p}{i}", v))\<close>: the shape
  of every vector setter. What it shares with its getter is the locale \<open>db_vector\<close>: a
  prefix and a codec of the elements. The vector is read back as it was written up to
  ten elements, and as a multiset beyond.
\<close>

definition insert_numbered ::
  "'d host \<Rightarrow> string \<Rightarrow> string \<Rightarrow> bytes list \<Rightarrow> ('d, bpfman_error, unit) st" where
  "insert_numbered H t p vs =
     try_for_each (\<lambda>iv. sled_insert H t (p @ show_nat (fst iv)) (snd iv)) (List.enumerate 0 vs)"

definition numbered :: "string \<Rightarrow> bytes list \<Rightarrow> tree" where
  "numbered p vs = kv_map (\<lambda>iv. p @ show_nat (fst iv)) snd (List.enumerate 0 vs)"

lemma numbered_keys: "map (\<lambda>iv. p @ show_nat (fst iv)) (List.enumerate 0 vs) =
    map (\<lambda>i. p @ show_nat i) [0..<length vs]"
  by (simp add: enumerate_eq_zip flip: map_map [where f = "\<lambda>i. p @ show_nat i" and g = fst, unfolded comp_def])

lemma insert_numbered_list: "insert_numbered H t p vs =
    insert_list H t (map (\<lambda>iv. (p @ show_nat (fst iv), snd iv)) (List.enumerate 0 vs))"
  by (simp add: insert_numbered_def hashmap_insert_list)

lemma upd_list_numbered:
  "upd_list (map (\<lambda>iv. (p @ show_nat (fst iv), snd iv)) (List.enumerate 0 vs)) m = m ++ numbered p vs"
  by (simp add: upd_list_def numbered_def kv_map_def)

lemma numbered_None: "\<not> prefix p k \<Longrightarrow> numbered p vs k = None"
  unfolding numbered_def by (rule kv_map_None) auto

lemma entries_numbered:
  assumes "length vs \<le> 10" and "\<And>k. prefix p k \<Longrightarrow> m k = None"
  shows "map snd (entries p (m ++ numbered p vs)) = vs"
proof -
  have "entries p (m ++ numbered p vs) =
      map (\<lambda>iv. (p @ show_nat (fst iv), snd iv)) (List.enumerate 0 vs)"
    unfolding numbered_def
    by (rule entries_kv_map_sorted) (use assms numbered_sorted [of "length vs" p] in
        \<open>auto simp only: numbered_keys prefixI\<close>)
  then show ?thesis by (simp add: comp_def)
qed

lemma mset_entries_numbered:
  assumes "\<And>k. prefix p k \<Longrightarrow> m k = None"
  shows "mset (map snd (entries p (m ++ numbered p vs))) = mset vs"
proof -
  have "mset (entries p (m ++ numbered p vs)) =
      mset (map (\<lambda>iv. (p @ show_nat (fst iv), snd iv)) (List.enumerate 0 vs))"
    unfolding numbered_def
    by (rule mset_entries_kv_map) (use assms in
        \<open>auto simp only: numbered_keys numbered_distinct prefixI distinct_upt\<close>)
  then have "image_mset snd (mset (entries p (m ++ numbered p vs))) =
      image_mset snd (mset (map (\<lambda>iv. (p @ show_nat (fst iv), snd iv)) (List.enumerate 0 vs)))"
    by simp
  then show ?thesis by (simp flip: mset_map add: comp_def)
qed

locale db_vector = store H \<alpha> for H :: "'d host" and \<alpha> +
  fixes p :: string and enc :: "'v \<Rightarrow> bytes" and dec :: "bytes \<Rightarrow> (bpfman_error, 'v) res"
  assumes dec_enc: "dec (enc v) = Ok v"
begin

definition wrote :: "string \<Rightarrow> 'v list \<Rightarrow> 'd \<Rightarrow> 'd" where
  "wrote t vs d = inserted_all H t (\<lambda>iv. p @ show_nat (fst iv)) snd (List.enumerate 0 (map enc vs)) d"

lemma set_run [simp]:
  "\<alpha> d t = Some m \<Longrightarrow> insert_numbered H t p (map enc vs) d = (Ok (), wrote t vs d)"
  by (simp add: insert_numbered_def wrote_def)

lemma abs_wrote [simp]:
  "\<alpha> d t = Some m \<Longrightarrow> \<alpha> (wrote t vs d) = (\<alpha> d)(t \<mapsto> m ++ numbered p (map enc vs))"
  by (simp add: wrote_def numbered_def)

lemma read_list:
  assumes "\<alpha> d t = Some m" and "map snd (entries p m) = map enc vs"
  shows "scan_values H t p msg dec d = Ok vs"
proof -
  have "map (\<lambda>kv. dec (snd kv)) (entries p m) = map (\<lambda>v. Ok v) vs"
    using arg_cong [OF assms(2), of "map dec"] by (simp add: comp_def dec_enc)
  then show ?thesis
    by (simp only: scan_values_ok [OF assms(1)]) (simp add: collect_res_map_Ok [of "\<lambda>v. v", simplified])
qed

lemma read_mset:
  assumes "\<alpha> d t = Some m" and "mset (map snd (entries p m)) = mset (map enc vs)"
  shows "\<exists>ws. scan_values H t p msg dec d = Ok ws \<and> mset ws = mset vs"
proof -
  from assms(2) obtain us where "mset us = mset vs" and "map snd (entries p m) = map enc us"
    using mset_map_choose [of "map snd (entries p m)" enc "mset vs"] by auto
  with read_list [OF assms(1)] show ?thesis by blast
qed

lemma get_set:
  assumes "\<alpha> d t = Some m" and "\<And>k. prefix p k \<Longrightarrow> m k = None" and "length vs \<le> 10"
  shows "scan_values H t p msg dec (wrote t vs d) = Ok vs"
  by (rule read_list) (use assms entries_numbered [of "map enc vs" p m] in simp_all)

lemma get_set_mset:
  assumes "\<alpha> d t = Some m" and "\<And>k. prefix p k \<Longrightarrow> m k = None"
  shows "\<exists>ws. scan_values H t p msg dec (wrote t vs d) = Ok ws \<and> mset ws = mset vs"
  by (rule read_mset) (use assms mset_entries_numbered [of p m "map enc vs"] in simp_all)

end

end
