(* ===== verification/Image_Manager.thy ===== *)
theory Image_Manager
  imports Bpfman_Types Bpfman_Utils
begin

text \<open>
  The bytecode image store: \<open>oci_utils/image_manager.rs\<close> and \<open>oci_utils/cosign.rs\<close>. The
  registry client, the signature verifier, the JSON, digest and archive crates are the
  fields of the parameter \<open>oci\<close>; an image is stored in the default tree of the root
  database under three keys that start with its content key. The lemmas follow a pulled
  image into the store and out of it again.
\<close>


subsection \<open>The registry, the verifier and the codecs\<close>

record reference =
  registry :: string
  repository :: string
  ref_tag :: "string option"
  ref_digest :: "string option"

record oci_image_manifest =
  config_digest :: string
  layer_digests :: "string list"

record container_image_metadata =
  meta_name :: string
  bpf_function_name :: string
  meta_program_type :: string
  meta_filename :: string

datatype registry_auth = RegistryAuth_Anonymous | RegistryAuth_Basic string string

datatype sigstore_error = RegistryPullManifestError string | OtherSigstoreError string

record ('sig, 'layer) oci =
  parse_reference :: "string \<Rightarrow> string + reference"
  show_reference :: "reference \<Rightarrow> string"
  parse_oci_reference :: "string \<Rightarrow> string + reference"
  triangulate :: "reference \<Rightarrow> registry_auth \<Rightarrow> string + 'sig \<times> string"
  trusted_signature_layers ::
    "registry_auth \<Rightarrow> string \<Rightarrow> 'sig \<Rightarrow> sigstore_error + 'layer list"
  verify_no_constraints :: "'layer list \<Rightarrow> string + unit"
  pull_manifest_and_config ::
    "reference \<Rightarrow> registry_auth \<Rightarrow> string + oci_image_manifest \<times> string"
  pull_layers :: "reference \<Rightarrow> registry_auth \<Rightarrow> string + bytes list"
  manifest_to_json :: "oci_image_manifest \<Rightarrow> string + string"
  manifest_from_json :: "string \<Rightarrow> string + oci_image_manifest"
  json_from_str :: "string \<Rightarrow> string + string"
  labels_from_config :: "string \<Rightarrow> string + container_image_metadata"
  sha256_hex :: "bytes \<Rightarrow> string"
  tar_gz_entries :: "bytes \<Rightarrow> string + (string + (string + bytes)) list"

fun show_sigstore_error :: "sigstore_error \<Rightarrow> string" where
  "show_sigstore_error (RegistryPullManifestError e) = e"
| "show_sigstore_error (OtherSigstoreError e) = e"


subsection \<open>CosignVerifier\<close>

record cosign_verifier =
  allow_unsigned :: bool

text \<open>
  The outcomes of setting the verifier up: opening the trust root below a path, fetching its data,
  and the two fallible steps of building the client.
\<close>

record sigstore =
  trust_root_new :: "string option \<Rightarrow> string + unit"
  trust_prefetch :: "string + unit"
  with_trust_repository :: "string + unit"
  client_build :: "string + unit"

abbreviation RTDIR_TUF :: string where "RTDIR_TUF \<equiv> ''/run/bpfman/tuf''"

definition get_tuf_path :: "string option" where
  "get_tuf_path = Some RTDIR_TUF"

definition fetch_sigstore_tuf_data :: "sigstore \<Rightarrow> (string, unit) res" where
  "fetch_sigstore_tuf_data S =
     bind_res (map_err (\<lambda>e. ''Error spawning blocking task to build sigstore repo inside of tokio: '' @ e)
       (of_sum (trust_root_new S get_tuf_path))) (\<lambda>_.
     map_err (\<lambda>e. ''Error spawning blocking task to prefetch tuf data inside of tokio: '' @ e)
       (of_sum (trust_prefetch S)))"

definition cosign_new :: "sigstore \<Rightarrow> bool \<Rightarrow> (string, cosign_verifier) res" where
  "cosign_new S unsigned_ok =
     bind_res (fetch_sigstore_tuf_data S) (\<lambda>_.
     bind_res (of_sum (with_trust_repository S)) (\<lambda>_.
     bind_res (of_sum (client_build S)) (\<lambda>_.
     Ok \<lparr>allow_unsigned = unsigned_ok\<rparr>)))"

definition auth_of :: "string option \<Rightarrow> string option \<Rightarrow> registry_auth" where
  "auth_of user pass = (case (user, pass) of
     (Some u, Some p) \<Rightarrow> RegistryAuth_Basic u p | _ \<Rightarrow> RegistryAuth_Anonymous)"

definition cosign_verify ::
  "('sig, 'layer) oci \<Rightarrow> cosign_verifier \<Rightarrow> string \<Rightarrow> string option \<Rightarrow> string option \<Rightarrow>
   (string, unit) res" where
  "cosign_verify C cv image_str user pass =
     bind_res (of_sum (parse_oci_reference C image_str)) (\<lambda>img.
     let auth = auth_of user pass in
     bind_res (of_sum (triangulate C img auth)) (\<lambda>(cosign_signature_image, source_image_digest).
     case trusted_signature_layers C auth source_image_digest cosign_signature_image of
       Inr trusted_layers \<Rightarrow>
         map_err (\<lambda>e. ''Error verifying constraints: '' @ e)
           (of_sum (verify_no_constraints C trusted_layers))
     | Inl (RegistryPullManifestError e) \<Rightarrow>
         if \<not> allow_unsigned cv then Err (''Error triangulating image: '' @ e) else Ok ()
     | Inl (OtherSigstoreError e) \<Rightarrow> Err (''Error triangulating image: '' @ e)))"


subsection \<open>Keys of the image store\<close>

definition get_image_content_key :: "reference \<Rightarrow> string" where
  "get_image_content_key img =
     (let tag = (case ref_tag img of Some t \<Rightarrow> t | None \<Rightarrow>
        (case ref_digest img of Some d \<Rightarrow> d | None \<Rightarrow> ''latest'')) in
      registry img @ ''_'' @
      map (\<lambda>c. if c = CHR ''/'' then CHR ''_'' else c) (repository img) @ ''_'' @ tag)"

text \<open>\<open>digest.split(':').collect::<Vec<&str>>()[1]\<close> panics on a digest without a colon.\<close>

definition digest_sha :: "string \<Rightarrow> ('e, string) res" where
  "digest_sha digest =
     (let parts = split_on (CHR '':'') digest in
      if 1 < length parts then Ok (parts ! 1) else Panic ''index out of bounds'')"

definition first_layer :: "oci_image_manifest \<Rightarrow> ('e, string) res" where
  "first_layer m = (case layer_digests m of
     [] \<Rightarrow> Panic ''index out of bounds'' | l # ls \<Rightarrow> Ok l)"


subsection \<open>Access to the root tree\<close>

definition root_insert ::
  "'d host \<Rightarrow> string \<Rightarrow> bytes \<Rightarrow> ('d, image_error, unit) st" where
  "root_insert H key v d = (case db_insert H default_tree key v d of
     Inl e \<Rightarrow> (Err (ImageDatabaseError ''failed to write to db'' e), d)
   | Inr d1 \<Rightarrow> (case db_flush H d1 of
       Inl e \<Rightarrow> (Err (ImageDatabaseError ''failed to flush db'' e), d1)
     | Inr d2 \<Rightarrow> (Ok (), d2)))"

definition root_get :: "'d host \<Rightarrow> string \<Rightarrow> 'd \<Rightarrow> (image_error, bytes option) res" where
  "root_get H key d = (case db_get H default_tree key d of
     Inl e \<Rightarrow> Err (ImageDatabaseError ''failed to read db'' e) | Inr v \<Rightarrow> Ok v)"

definition stored_manifest ::
  "'d host \<Rightarrow> ('sig, 'layer) oci \<Rightarrow> string \<Rightarrow> string \<Rightarrow> 'd \<Rightarrow> (image_error, oci_image_manifest) res" where
  "stored_manifest H C msg base_key d =
     bind_res (root_get H (base_key @ ''manifest.json'') d) (\<lambda>v.
     bind_res (expect_opt ''Image manifest is empty'' v) (\<lambda>bs.
     if \<not> utf8_valid bs then Panic ''unwrap''
     else map_err (ImageDatabaseError msg) (of_sum (manifest_from_json C (chars_of bs)))))"


subsection \<open>ImageManager\<close>

record image_manager =
  cosign :: cosign_verifier

definition image_manager_new :: "sigstore \<Rightarrow> bool \<Rightarrow> (string, image_manager) res" where
  "image_manager_new S unsigned_ok = bind_res (cosign_new S unsigned_ok) (\<lambda>cv. Ok \<lparr>cosign = cv\<rparr>)"

definition pull_image ::
  "'d host \<Rightarrow> ('sig, 'layer) oci \<Rightarrow> reference \<Rightarrow> string \<Rightarrow> string option \<Rightarrow> string option \<Rightarrow>
   ('d, image_error, container_image_metadata) st" where
  "pull_image H C img base_key user pass =
     (let auth = auth_of user pass in
      bind_st (reads (\<lambda>_. map_err ImageManifestPullFailure
        (of_sum (pull_manifest_and_config C img auth)))) (\<lambda>(image_manifest, config_contents).
      bind_st (reads (\<lambda>_. map_err ByteCodeImageProcessFailure
        (of_sum (manifest_to_json C image_manifest)))) (\<lambda>image_manifest_json.
      then_st (root_insert H (base_key @ ''manifest.json'') (as_bytes image_manifest_json)) (
      bind_st (reads (\<lambda>_. digest_sha (config_digest image_manifest))) (\<lambda>config_sha.
      bind_st (reads (\<lambda>_. bind_res (first_layer image_manifest) digest_sha)) (\<lambda>bytecode_sha.
      bind_st (reads (\<lambda>_. map_err ByteCodeImageProcessFailure
        (of_sum (json_from_str C config_contents)))) (\<lambda>image_config.
      bind_st (reads (\<lambda>_. map_err ByteCodeImageProcessFailure
        (of_sum (labels_from_config C image_config)))) (\<lambda>image_labels.
      then_st (root_insert H (base_key @ config_sha) (as_bytes config_contents)) (
      bind_st (reads (\<lambda>_. bind_res
        (map_err BytecodeImagePullFailure (of_sum (pull_layers C img auth)))
        (\<lambda>layers. ok_or BytecodeImageExtractFailure (first layers))))
        (\<lambda>image_content.
      then_st (root_insert H (base_key @ bytecode_sha) image_content) (ret image_labels)))))))))))"

definition load_image_meta ::
  "'d host \<Rightarrow> ('sig, 'layer) oci \<Rightarrow> string \<Rightarrow> 'd \<Rightarrow> (string, container_image_metadata) res" where
  "load_image_meta H C image_content_key d =
     bind_res (map_err show_image_error
       (stored_manifest H C ''failed to parse db entry to image manifest'' image_content_key d)) (\<lambda>m.
     bind_res (digest_sha (config_digest m)) (\<lambda>config_sha.
     bind_res (map_err show_image_error (root_get H (image_content_key @ config_sha) d)) (\<lambda>v.
     bind_res (expect_opt ''Image manifest is empty'' v) (\<lambda>bs.
     if \<not> utf8_valid bs then Err ''invalid utf-8 sequence''
     else bind_res (expect_res ''cannot parse image config from database''
         (of_sum (json_from_str C (chars_of bs)) :: (string, string) res)) (\<lambda>image_config.
       of_sum (labels_from_config C image_config))))))"

definition get_image ::
  "'d host \<Rightarrow> ('sig, 'layer) oci \<Rightarrow> image_manager \<Rightarrow> string \<Rightarrow> image_pull_policy \<Rightarrow>
   string option \<Rightarrow> string option \<Rightarrow> ('d, image_error, string \<times> string) st" where
  "get_image H C im url pull_policy user pass =
     bind_st (reads (\<lambda>_. map_err InvalidImageUrl (of_sum (parse_reference C url)))) (\<lambda>img.
     then_st (reads (\<lambda>_. map_err ByteCodeImageProcessFailure
       (cosign_verify C (cosign im) url user pass))) (
     let key = get_image_content_key img;
         pull = pull_image H C img key user pass;
         cached = reads (\<lambda>d. map_err ByteCodeImageProcessFailure (load_image_meta H C key d))
     in bind_st (reads (root_get H (key @ ''manifest.json''))) (\<lambda>v.
     let exists = (v \<noteq> None) in
     bind_st (case pull_policy of
         ImagePullPolicy_Always \<Rightarrow> pull
       | ImagePullPolicy_IfNotPresent \<Rightarrow> (if exists then cached else pull)
       | ImagePullPolicy_Never \<Rightarrow>
           (if exists then cached else throw (ByteCodeImageNotfound (show_reference C img))))
     (\<lambda>image_meta. ret (key, bpf_function_name image_meta)))))"

definition first_entry :: "(string + (string + bytes)) list \<Rightarrow> ('e, bytes) res" where
  "first_entry es =
     bind_res (collect_res (map (\<lambda>e. expect_res ''unable to read bytecode tarball entry''
         (of_sum (projr e) :: (string, bytes) res)) (filter (\<lambda>e. \<not> isl e) es)))
       (\<lambda>files. expect_opt ''unable to get bytecode file bytes''
         (first files))"

definition get_bytecode_from_image_store ::
  "'d host \<Rightarrow> ('sig, 'layer) oci \<Rightarrow> string \<Rightarrow> 'd \<Rightarrow> (image_error, bytes) res" where
  "get_bytecode_from_image_store H C base_key d =
     bind_res (stored_manifest H C ''failed to parse image manifest from db'' base_key d) (\<lambda>m.
     bind_res (first_layer m) (\<lambda>bytecode_sha.
     bind_res (digest_sha bytecode_sha) (\<lambda>sha.
     bind_res (root_get H (base_key @ sha) d) (\<lambda>v.
     bind_res (ok_or (ImageDatabaseError ''key does not exist in db'' []) v) (\<lambda>f.
     if bytecode_sha \<noteq> ''sha256:'' @ sha256_hex C f then Panic ''Bpf Bytecode has been compromised''
     else bind_res (expect_res ''unable to parse tarball entries''
         (of_sum (tar_gz_entries C f) :: (string, _) res)) first_entry)))))"


subsection \<open>Location::get_program_bytes\<close>

definition location_get_program_bytes ::
  "'d host \<Rightarrow> ('sig, 'layer) oci \<Rightarrow> (string \<Rightarrow> string + (string + bytes)) \<Rightarrow> image_manager \<Rightarrow> location \<Rightarrow>
   ('d, bpfman_error, bytes \<times> string) st" where
  "location_get_program_bytes H C open_file im loc = (case loc of
     Location_File l \<Rightarrow> reads (\<lambda>_. ok_map (\<lambda>bs. (bs, [])) (utils_read open_file l))
   | Location_Image l \<Rightarrow>
       bind_st (map_err_st BpfBytecodeError
         (get_image H C im (image_url l) (bi_image_pull_policy l) (username l) (password l)))
       (\<lambda>(path, fn_name).
       bind_st (reads (\<lambda>d. map_err BpfBytecodeError (get_bytecode_from_image_store H C path d)))
       (\<lambda>bytecode. ret (bytecode, fn_name))))"


subsection \<open>Pulled images are served from the store\<close>

text \<open>
  What the store relies on of the JSON crate: a manifest that was printed is a string
  that parses back to the same manifest.
\<close>

locale json_codec =
  fixes C :: "('sig, 'layer) oci"
  assumes manifest_roundtrip:
    "manifest_to_json C mf = Inr js \<Longrightarrow> is_str js \<and> manifest_from_json C js = Inr mf"

context store
begin

lemma root_insert_ok [simp]:
  "\<alpha> d default_tree = Some m \<Longrightarrow>
   root_insert H k v d = (Ok (), flushed H (inserted H default_tree k v d))"
  by (simp add: root_insert_def)

lemma root_get_ok [simp]: "\<alpha> d default_tree = Some m \<Longrightarrow> root_get H k d = Ok (m k)"
  by (simp add: root_get_def)

lemma pull_image_inv:
  assumes "\<alpha> d default_tree = Some m"
    and "pull_image H C img key user pass d = (Ok meta, d')"
  obtains mf cfg js cs ld bs ic c where
    "pull_manifest_and_config C img (auth_of user pass) = Inr (mf, cfg)"
    "manifest_to_json C mf = Inr js" "digest_sha (config_digest mf) = (Ok cs :: (image_error, _) res)"
    "first_layer mf = (Ok ld :: (image_error, _) res)" "digest_sha ld = (Ok bs :: (image_error, _) res)"
    "json_from_str C cfg = Inr ic" "labels_from_config C ic = Inr meta"
    "\<exists>cs'. pull_layers C img (auth_of user pass) = Inr (c # cs')"
    "\<alpha> d' = (\<alpha> d)(default_tree \<mapsto> m(key @ ''manifest.json'' \<mapsto> as_bytes js,
       key @ cs \<mapsto> as_bytes cfg, key @ bs \<mapsto> c))"
  using assms
  by (auto simp: pull_image_def Let_def bind_st_eq_Ok then_st_eq_Ok bind_res_eq_Ok)

end

lemma digest_sha_any: "digest_sha x = (Ok y :: ('e, string) res) \<Longrightarrow> digest_sha x = (Ok y :: ('f, string) res)"
  by (auto simp: digest_sha_def Let_def split: if_splits)

lemma first_layer_any:
  "first_layer x = (Ok y :: ('e, string) res) \<Longrightarrow> first_layer x = (Ok y :: ('f, string) res)"
  by (auto simp: first_layer_def split: list.splits)

locale image_store = store H \<alpha> + json_codec C
  for H :: "'d host" and \<alpha> and C :: "('sig, 'layer) oci"
begin

lemma stored_manifest_ok:
  assumes "\<alpha> d default_tree = Some m" and "m (key @ ''manifest.json'') = Some (as_bytes js)"
    and "manifest_to_json C mf = Inr js"
  shows "stored_manifest H C msg key d = Ok mf"
  using assms manifest_roundtrip [OF assms(3)] by (simp add: stored_manifest_def is_str_def)

lemma load_after_pull:
  assumes d: "\<alpha> d default_tree = Some m"
    and pull: "pull_image H C img key user pass d = (Ok meta, d')"
    and mf: "pull_manifest_and_config C img (auth_of user pass) = Inr (mf, cfg)"
    and cfg: "is_str cfg"
    and cs: "digest_sha (config_digest mf) = (Ok cs :: (image_error, _) res)"
    and ld: "first_layer mf = (Ok ld :: (image_error, _) res)"
    and bs: "digest_sha ld = (Ok bs :: (image_error, _) res)"
    and dist: "distinct [''manifest.json'', cs, bs]"
  shows "load_image_meta H C key d' = Ok meta"
    and "(\<And>v. root_get H (key @ ''manifest.json'') d' = Ok (Some v) \<Longrightarrow> thesis) \<Longrightarrow> thesis"
proof -
  obtain js ic c where js: "manifest_to_json C mf = Inr js"
    and ic: "json_from_str C cfg = Inr ic" "labels_from_config C ic = Inr meta"
    and d': "\<alpha> d' = (\<alpha> d)(default_tree \<mapsto> m(key @ ''manifest.json'' \<mapsto> as_bytes js,
       key @ cs \<mapsto> as_bytes cfg, key @ bs \<mapsto> c))"
    by (rule pull_image_inv [OF d pull]) (use mf cs ld bs in auto)
  from d' have t: "\<alpha> d' default_tree = Some (m(key @ ''manifest.json'' \<mapsto> as_bytes js,
       key @ cs \<mapsto> as_bytes cfg, key @ bs \<mapsto> c))" by simp
  note st = stored_manifest_ok [OF t, of key js mf]
  show "load_image_meta H C key d' = Ok meta"
    using dist js ic cfg st
    by (auto simp: load_image_meta_def digest_sha_any [OF cs] root_get_ok [OF t] is_str_def
        bind_res_eq_Ok)
  show thesis if "\<And>v. root_get H (key @ ''manifest.json'') d' = Ok (Some v) \<Longrightarrow> thesis"
    using dist that by (auto simp: root_get_ok [OF t])
qed

end


text \<open>
  A reference registry with one signed image, whose manifest codec prints one digest per
  line: it satisfies the contract of the codec and serves the examples.
\<close>

definition plain_digest :: "string \<Rightarrow> bool" where
  "plain_digest s \<longleftrightarrow> ascii s \<and> CHR 0x0A \<notin> set s"

definition ref_oci :: "oci_image_manifest \<Rightarrow> string \<Rightarrow> bytes \<Rightarrow> (unit, unit) oci" where
  "ref_oci mf cfg layer = \<lparr>
     parse_reference = (\<lambda>s. Inr \<lparr>registry = ''quay.io'', repository = s,
       ref_tag = Some ''latest'', ref_digest = None\<rparr>),
     show_reference = repository,
     parse_oci_reference = (\<lambda>s. Inr \<lparr>registry = ''quay.io'', repository = s,
       ref_tag = Some ''latest'', ref_digest = None\<rparr>),
     triangulate = (\<lambda>r a. Inr ((), ''sha256:00'')),
     trusted_signature_layers = (\<lambda>a d s. Inr [()]),
     verify_no_constraints = (\<lambda>ls. Inr ()),
     pull_manifest_and_config = (\<lambda>r a. Inr (mf, cfg)),
     pull_layers = (\<lambda>r a. Inr [layer]),
     manifest_to_json = (\<lambda>m.
       if plain_digest (config_digest m) \<and> list_all plain_digest (layer_digests m)
       then Inr (str_join [CHR 0x0A] (config_digest m # layer_digests m))
       else Inl ''unprintable digest''),
     manifest_from_json = (\<lambda>s. case split_on (CHR 0x0A) s of
       [] \<Rightarrow> Inl ''empty manifest'' | c # ls \<Rightarrow> Inr \<lparr>config_digest = c, layer_digests = ls\<rparr>),
     json_from_str = Inr,
     labels_from_config = (\<lambda>s. Inr \<lparr>meta_name = s, bpf_function_name = s,
       meta_program_type = ''xdp'', meta_filename = s\<rparr>),
     sha256_hex = (\<lambda>bs. if bs = layer then ''0b'' else ''00''),
     tar_gz_entries = (\<lambda>bs. Inr [Inr (Inr bs)]) \<rparr>"

interpretation ref_codec: json_codec "ref_oci mf cfg layer"
proof
  fix m js
  assume js: "manifest_to_json (ref_oci mf cfg layer) m = Inr js"
  let ?ds = "config_digest m # layer_digests m"
  from js have ds: "\<forall>x \<in> set ?ds. plain_digest x" and eq: "js = str_join [CHR 0x0A] ?ds"
    by (auto simp: ref_oci_def list_all_iff split: if_splits)
  from ds have "ascii js" unfolding eq
    by (intro ascii_str_join) (auto simp: plain_digest_def)
  moreover from ds have "split_on (CHR 0x0A) js = ?ds" unfolding eq
    by (intro split_on_join) (auto simp: plain_digest_def)
  ultimately show "is_str js \<and> manifest_from_json (ref_oci mf cfg layer) js = Inr m"
    by (simp add: ref_oci_def)
qed

lemmas ref_json_codec = ref_codec.json_codec_axioms

interpretation ref_images: image_store ref_host ref_abs "ref_oci mf cfg layer"
  by (rule image_store.intro) (rule ref.store_axioms, rule ref_json_codec)


lemma cosign_verify_registry [simp]:
  "cosign_verify (C\<lparr>pull_manifest_and_config := f, pull_layers := g\<rparr>) cv url user pass =
   cosign_verify C cv url user pass"
  by (simp add: cosign_verify_def cong: sum.case_cong)

lemma load_image_meta_registry [simp]:
  "load_image_meta H (C\<lparr>pull_manifest_and_config := f, pull_layers := g\<rparr>) key d =
   load_image_meta H C key d"
  by (simp add: load_image_meta_def stored_manifest_def cong: if_cong)


subsection \<open>Properties of the image store\<close>


definition demo_manifest :: oci_image_manifest where
  "demo_manifest = \<lparr>config_digest = ''sha256:0a'', layer_digests = [''sha256:0b'']\<rparr>"

abbreviation demo_oci :: "(unit, unit) oci" where
  "demo_oci \<equiv> ref_oci demo_manifest ''xdp_pass'' [1, 2, 3]"

abbreviation demo_im :: image_manager where
  "demo_im \<equiv> \<lparr>cosign = \<lparr>allow_unsigned = False\<rparr>\<rparr>"

abbreviation demo_ref :: reference where
  "demo_ref \<equiv> \<lparr>registry = ''quay.io'', repository = ''xdp/pass'', ref_tag = Some ''latest'',
     ref_digest = None\<rparr>"

abbreviation demo_meta :: container_image_metadata where
  "demo_meta \<equiv> \<lparr>meta_name = ''xdp_pass'', bpf_function_name = ''xdp_pass'',
     meta_program_type = ''xdp'', meta_filename = ''xdp_pass''\<rparr>"

definition demo_image_db :: ref_db where
  "demo_image_db = [(default_tree,
     [(''quay.io_xdp_pass_latestmanifest.json'', as_bytes (''sha256:0a'' @ [CHR 0x0A] @ ''sha256:0b'')),
      (''quay.io_xdp_pass_latest0a'', as_bytes ''xdp_pass''),
      (''quay.io_xdp_pass_latest0b'', [1, 2, 3])])]"

lemma demo_pull:
  "pull_image ref_host demo_oci demo_ref (get_image_content_key demo_ref) None None
     [(default_tree, [])] = (Ok demo_meta, demo_image_db)"
  by code_simp


text \<open>
  C21: bytecode leaves the store only when it is the layer the stored manifest names: every
  successful read returns the first file of a stored layer whose SHA-256 digest is the
  digest of the first layer of the stored manifest.
\<close>

theorem bytecode_digest_checked:
  assumes "get_bytecode_from_image_store H C key d = Ok bytecode"
  shows "\<exists>mf ls layer entries.
    stored_manifest H C ''failed to parse image manifest from db'' key d = Ok mf
    \<and> layer_digests mf = (''sha256:'' @ sha256_hex C layer) # ls
    \<and> root_get H (key @ split_on (CHR '':'') (''sha256:'' @ sha256_hex C layer) ! 1) d = Ok (Some layer)
    \<and> tar_gz_entries C layer = Inr entries
    \<and> first_entry entries = (Ok bytecode :: (image_error, bytes) res)"
  using assms
  by (auto simp: get_bytecode_from_image_store_def bind_res_eq_Ok first_layer_def digest_sha_def
      Let_def split: if_splits list.splits)

theorem bytecode_digest_checked_witness:
  "\<exists>mf ls layer entries.
    stored_manifest ref_host demo_oci ''failed to parse image manifest from db''
      ''quay.io_xdp_pass_latest'' demo_image_db = Ok mf
    \<and> layer_digests mf = (''sha256:'' @ sha256_hex demo_oci layer) # ls
    \<and> root_get ref_host (''quay.io_xdp_pass_latest'' @
        split_on (CHR '':'') (''sha256:'' @ sha256_hex demo_oci layer) ! 1) demo_image_db = Ok (Some layer)
    \<and> tar_gz_entries demo_oci layer = Inr entries
    \<and> first_entry entries = (Ok [1, 2, 3] :: (image_error, bytes) res)"
proof -
  have "get_bytecode_from_image_store ref_host demo_oci ''quay.io_xdp_pass_latest'' demo_image_db =
    Ok [1, 2, 3]" by code_simp
  then show ?thesis by (rule bytecode_digest_checked)
qed


end
