(* ===== verification/Program_Data.thy ===== *)
theory Program_Data
  imports Image_Manager
begin

text \<open>
  \<open>ProgramData\<close> of \<open>bpfman/src/types.rs\<close>: the handle on the database tree that holds
  everything known of one program, with its getters and setters, the copy from the
  temporary database into the root database (\<open>load\<close>) and the move to the tree named by
  the kernel's program id (\<open>swap_tree\<close>). The handle is the name of the tree, in the
  database the call runs on: the temporary database before \<open>load\<close>, the root database after.
\<close>

record program_data =
  db_tree :: string


subsection \<open>Keys\<close>

abbreviation PROGRAM_PREFIX :: string where "PROGRAM_PREFIX \<equiv> ''program_''"
abbreviation PROGRAM_PRE_LOAD_PREFIX :: string where "PROGRAM_PRE_LOAD_PREFIX \<equiv> ''pre_load_program_''"
abbreviation KIND :: string where "KIND \<equiv> ''kind''"
abbreviation NAME :: string where "NAME \<equiv> ''name''"
abbreviation ID :: string where "ID \<equiv> ''id''"
abbreviation LOCATION_FILENAME :: string where "LOCATION_FILENAME \<equiv> ''location_filename''"
abbreviation LOCATION_IMAGE_URL :: string where "LOCATION_IMAGE_URL \<equiv> ''location_image_url''"
abbreviation LOCATION_IMAGE_PULL_POLICY :: string where "LOCATION_IMAGE_PULL_POLICY \<equiv> ''location_image_pull_policy''"
abbreviation LOCATION_USERNAME :: string where "LOCATION_USERNAME \<equiv> ''location_username''"
abbreviation LOCATION_PASSWORD :: string where "LOCATION_PASSWORD \<equiv> ''location_password''"
abbreviation MAP_OWNER_ID :: string where "MAP_OWNER_ID \<equiv> ''map_owner_id''"
abbreviation MAP_PIN_PATH :: string where "MAP_PIN_PATH \<equiv> ''map_pin_path''"
definition PREFIX_GLOBAL_DATA :: string where "PREFIX_GLOBAL_DATA = ''global_data_''"
definition PREFIX_METADATA :: string where "PREFIX_METADATA = ''metadata_''"
definition PREFIX_MAPS_USED_BY :: string where "PREFIX_MAPS_USED_BY = ''maps_used_by_''"
abbreviation PROGRAM_BYTES :: string where "PROGRAM_BYTES \<equiv> ''program_bytes''"
abbreviation KERNEL_NAME :: string where "KERNEL_NAME \<equiv> ''kernel_name''"
abbreviation KERNEL_PROGRAM_TYPE :: string where "KERNEL_PROGRAM_TYPE \<equiv> ''kernel_program_type''"
abbreviation KERNEL_LOADED_AT :: string where "KERNEL_LOADED_AT \<equiv> ''kernel_loaded_at''"
abbreviation KERNEL_TAG :: string where "KERNEL_TAG \<equiv> ''kernel_tag''"
abbreviation KERNEL_GPL_COMPATIBLE :: string where "KERNEL_GPL_COMPATIBLE \<equiv> ''kernel_gpl_compatible''"
abbreviation KERNEL_BTF_ID :: string where "KERNEL_BTF_ID \<equiv> ''kernel_btf_id''"
abbreviation KERNEL_BYTES_XLATED :: string where "KERNEL_BYTES_XLATED \<equiv> ''kernel_bytes_xlated''"
abbreviation KERNEL_JITED :: string where "KERNEL_JITED \<equiv> ''kernel_jited''"
abbreviation KERNEL_BYTES_JITED :: string where "KERNEL_BYTES_JITED \<equiv> ''kernel_bytes_jited''"
abbreviation KERNEL_BYTES_MEMLOCK :: string where "KERNEL_BYTES_MEMLOCK \<equiv> ''kernel_bytes_memlock''"
abbreviation KERNEL_VERIFIED_INSNS :: string where "KERNEL_VERIFIED_INSNS \<equiv> ''kernel_verified_insns''"
definition PREFIX_KERNEL_MAP_IDS :: string where "PREFIX_KERNEL_MAP_IDS = ''kernel_map_ids_''"
abbreviation XDP_PRIORITY :: string where "XDP_PRIORITY \<equiv> ''xdp_priority''"
abbreviation XDP_IFACE :: string where "XDP_IFACE \<equiv> ''xdp_iface''"
abbreviation XDP_CURRENT_POSITION :: string where "XDP_CURRENT_POSITION \<equiv> ''xdp_current_position''"
abbreviation XDP_IF_INDEX :: string where "XDP_IF_INDEX \<equiv> ''xdp_if_index''"
abbreviation XDP_ATTACHED :: string where "XDP_ATTACHED \<equiv> ''xdp_attached''"
definition PREFIX_XDP_PROCEED_ON :: string where "PREFIX_XDP_PROCEED_ON = ''xdp_proceed_on_''"
abbreviation TC_PRIORITY :: string where "TC_PRIORITY \<equiv> ''tc_priority''"
abbreviation TC_IFACE :: string where "TC_IFACE \<equiv> ''tc_iface''"
abbreviation TC_CURRENT_POSITION :: string where "TC_CURRENT_POSITION \<equiv> ''tc_current_position''"
abbreviation TC_IF_INDEX :: string where "TC_IF_INDEX \<equiv> ''tc_if_index''"
abbreviation TC_ATTACHED :: string where "TC_ATTACHED \<equiv> ''tc_attached''"
abbreviation TC_DIRECTION :: string where "TC_DIRECTION \<equiv> ''tc_direction''"
definition PREFIX_TC_PROCEED_ON :: string where "PREFIX_TC_PROCEED_ON = ''tc_proceed_on_''"
abbreviation TRACEPOINT_NAME :: string where "TRACEPOINT_NAME \<equiv> ''tracepoint_name''"
abbreviation KPROBE_FN_NAME :: string where "KPROBE_FN_NAME \<equiv> ''kprobe_fn_name''"
abbreviation KPROBE_OFFSET :: string where "KPROBE_OFFSET \<equiv> ''kprobe_offset''"
abbreviation KPROBE_RETPROBE :: string where "KPROBE_RETPROBE \<equiv> ''kprobe_retprobe''"
abbreviation KPROBE_CONTAINER_PID :: string where "KPROBE_CONTAINER_PID \<equiv> ''kprobe_container_pid''"
abbreviation UPROBE_FN_NAME :: string where "UPROBE_FN_NAME \<equiv> ''uprobe_fn_name''"
abbreviation UPROBE_OFFSET :: string where "UPROBE_OFFSET \<equiv> ''uprobe_offset''"
abbreviation UPROBE_RETPROBE :: string where "UPROBE_RETPROBE \<equiv> ''uprobe_retprobe''"
abbreviation UPROBE_CONTAINER_PID :: string where "UPROBE_CONTAINER_PID \<equiv> ''uprobe_container_pid''"
abbreviation UPROBE_PID :: string where "UPROBE_PID \<equiv> ''uprobe_pid''"
abbreviation UPROBE_TARGET :: string where "UPROBE_TARGET \<equiv> ''uprobe_target''"
abbreviation FENTRY_FN_NAME :: string where "FENTRY_FN_NAME \<equiv> ''fentry_fn_name''"
abbreviation FEXIT_FN_NAME :: string where "FEXIT_FN_NAME \<equiv> ''fexit_fn_name''"


text \<open>
  The prefixes of the vectors and hash maps are kept folded: the rules below decide
  whether a key lies below a prefix.
\<close>

lemmas prefix_defs =
  PREFIX_GLOBAL_DATA_def PREFIX_METADATA_def PREFIX_MAPS_USED_BY_def
  PREFIX_KERNEL_MAP_IDS_def PREFIX_XDP_PROCEED_ON_def PREFIX_TC_PROCEED_ON_def

lemma prefix_of_key [simp, key_simps]:
  "prefix PREFIX_GLOBAL_DATA (c # cs) = prefix ''global_data_'' (c # cs)"
  "prefix PREFIX_METADATA (c # cs) = prefix ''metadata_'' (c # cs)"
  "prefix PREFIX_MAPS_USED_BY (c # cs) = prefix ''maps_used_by_'' (c # cs)"
  "prefix PREFIX_KERNEL_MAP_IDS (c # cs) = prefix ''kernel_map_ids_'' (c # cs)"
  "prefix PREFIX_XDP_PROCEED_ON (c # cs) = prefix ''xdp_proceed_on_'' (c # cs)"
  "prefix PREFIX_TC_PROCEED_ON (c # cs) = prefix ''tc_proceed_on_'' (c # cs)"
  by (simp_all add: prefix_defs)

lemma prefix_neq_key [simp, key_simps]:
  "PREFIX_GLOBAL_DATA @ s = c # cs \<longleftrightarrow> ''global_data_'' @ s = c # cs"
  "c # cs = PREFIX_GLOBAL_DATA @ s \<longleftrightarrow> c # cs = ''global_data_'' @ s"
  "PREFIX_METADATA @ s = c # cs \<longleftrightarrow> ''metadata_'' @ s = c # cs"
  "c # cs = PREFIX_METADATA @ s \<longleftrightarrow> c # cs = ''metadata_'' @ s"
  "PREFIX_MAPS_USED_BY @ s = c # cs \<longleftrightarrow> ''maps_used_by_'' @ s = c # cs"
  "c # cs = PREFIX_MAPS_USED_BY @ s \<longleftrightarrow> c # cs = ''maps_used_by_'' @ s"
  "PREFIX_KERNEL_MAP_IDS @ s = c # cs \<longleftrightarrow> ''kernel_map_ids_'' @ s = c # cs"
  "c # cs = PREFIX_KERNEL_MAP_IDS @ s \<longleftrightarrow> c # cs = ''kernel_map_ids_'' @ s"
  "PREFIX_XDP_PROCEED_ON @ s = c # cs \<longleftrightarrow> ''xdp_proceed_on_'' @ s = c # cs"
  "c # cs = PREFIX_XDP_PROCEED_ON @ s \<longleftrightarrow> c # cs = ''xdp_proceed_on_'' @ s"
  "PREFIX_TC_PROCEED_ON @ s = c # cs \<longleftrightarrow> ''tc_proceed_on_'' @ s = c # cs"
  "c # cs = PREFIX_TC_PROCEED_ON @ s \<longleftrightarrow> c # cs = ''tc_proceed_on_'' @ s"
  by (simp_all add: prefix_defs)

lemma prefix_disjoint [simp, key_simps]:
  "\<not> prefix PREFIX_GLOBAL_DATA (PREFIX_METADATA @ s)"
  "\<not> prefix PREFIX_GLOBAL_DATA (PREFIX_MAPS_USED_BY @ s)"
  "\<not> prefix PREFIX_GLOBAL_DATA (PREFIX_KERNEL_MAP_IDS @ s)"
  "\<not> prefix PREFIX_GLOBAL_DATA (PREFIX_XDP_PROCEED_ON @ s)"
  "\<not> prefix PREFIX_GLOBAL_DATA (PREFIX_TC_PROCEED_ON @ s)"
  "\<not> prefix PREFIX_METADATA (PREFIX_GLOBAL_DATA @ s)"
  "\<not> prefix PREFIX_METADATA (PREFIX_MAPS_USED_BY @ s)"
  "\<not> prefix PREFIX_METADATA (PREFIX_KERNEL_MAP_IDS @ s)"
  "\<not> prefix PREFIX_METADATA (PREFIX_XDP_PROCEED_ON @ s)"
  "\<not> prefix PREFIX_METADATA (PREFIX_TC_PROCEED_ON @ s)"
  "\<not> prefix PREFIX_MAPS_USED_BY (PREFIX_GLOBAL_DATA @ s)"
  "\<not> prefix PREFIX_MAPS_USED_BY (PREFIX_METADATA @ s)"
  "\<not> prefix PREFIX_MAPS_USED_BY (PREFIX_KERNEL_MAP_IDS @ s)"
  "\<not> prefix PREFIX_MAPS_USED_BY (PREFIX_XDP_PROCEED_ON @ s)"
  "\<not> prefix PREFIX_MAPS_USED_BY (PREFIX_TC_PROCEED_ON @ s)"
  "\<not> prefix PREFIX_KERNEL_MAP_IDS (PREFIX_GLOBAL_DATA @ s)"
  "\<not> prefix PREFIX_KERNEL_MAP_IDS (PREFIX_METADATA @ s)"
  "\<not> prefix PREFIX_KERNEL_MAP_IDS (PREFIX_MAPS_USED_BY @ s)"
  "\<not> prefix PREFIX_KERNEL_MAP_IDS (PREFIX_XDP_PROCEED_ON @ s)"
  "\<not> prefix PREFIX_KERNEL_MAP_IDS (PREFIX_TC_PROCEED_ON @ s)"
  "\<not> prefix PREFIX_XDP_PROCEED_ON (PREFIX_GLOBAL_DATA @ s)"
  "\<not> prefix PREFIX_XDP_PROCEED_ON (PREFIX_METADATA @ s)"
  "\<not> prefix PREFIX_XDP_PROCEED_ON (PREFIX_MAPS_USED_BY @ s)"
  "\<not> prefix PREFIX_XDP_PROCEED_ON (PREFIX_KERNEL_MAP_IDS @ s)"
  "\<not> prefix PREFIX_XDP_PROCEED_ON (PREFIX_TC_PROCEED_ON @ s)"
  "\<not> prefix PREFIX_TC_PROCEED_ON (PREFIX_GLOBAL_DATA @ s)"
  "\<not> prefix PREFIX_TC_PROCEED_ON (PREFIX_METADATA @ s)"
  "\<not> prefix PREFIX_TC_PROCEED_ON (PREFIX_MAPS_USED_BY @ s)"
  "\<not> prefix PREFIX_TC_PROCEED_ON (PREFIX_KERNEL_MAP_IDS @ s)"
  "\<not> prefix PREFIX_TC_PROCEED_ON (PREFIX_XDP_PROCEED_ON @ s)"
  by (simp_all add: prefix_defs)

lemma ascii_prefixes [simp]:
  "ascii PREFIX_GLOBAL_DATA"
  "ascii PREFIX_METADATA"
  "ascii PREFIX_MAPS_USED_BY"
  "ascii PREFIX_KERNEL_MAP_IDS"
  "ascii PREFIX_XDP_PROCEED_ON"
  "ascii PREFIX_TC_PROCEED_ON"
  by (simp_all add: prefix_defs)


text \<open>The names of program trees: after the kernel id once loaded, before that after a random one.\<close>

definition prog_tree :: "u32 \<Rightarrow> string" where
  "prog_tree i = PROGRAM_PREFIX @ show_u32 i"

definition pre_load_tree :: "u32 \<Rightarrow> string" where
  "pre_load_tree r = PROGRAM_PRE_LOAD_PREFIX @ show_u32 r"

lemma tree_names [simp, key_simps]:
  "prog_tree i = prog_tree j \<longleftrightarrow> i = j" "pre_load_tree i = pre_load_tree j \<longleftrightarrow> i = j"
  "prog_tree i \<noteq> pre_load_tree j" "pre_load_tree j \<noteq> prog_tree i"
  "prog_tree i \<noteq> default_tree" "pre_load_tree i \<noteq> default_tree"
  "default_tree \<noteq> prog_tree i" "default_tree \<noteq> pre_load_tree i"
  "is_str (prog_tree i)" "is_str (pre_load_tree i)"
  by (simp_all add: prog_tree_def pre_load_tree_def default_tree_def)


subsection \<open>Getters and setters\<close>

definition get_u32 :: "'d host \<Rightarrow> string \<Rightarrow> program_data \<Rightarrow> 'd \<Rightarrow> (bpfman_error, u32) res" where
  "get_u32 H key pd d = bind_res (sled_get H (db_tree pd) key d) (bytes_to_u32 H)"

definition get_string :: "'d host \<Rightarrow> string \<Rightarrow> program_data \<Rightarrow> 'd \<Rightarrow> (bpfman_error, string) res" where
  "get_string H key pd d = bind_res (sled_get H (db_tree pd) key d) bytes_to_string"

definition get_bool :: "'d host \<Rightarrow> string \<Rightarrow> program_data \<Rightarrow> 'd \<Rightarrow> (bpfman_error, bool) res" where
  "get_bool H key pd d = bind_res (sled_get H (db_tree pd) key d) (bytes_to_bool H)"

definition get_opt ::
  "'d host \<Rightarrow> (bytes \<Rightarrow> (bpfman_error, 'a) res) \<Rightarrow> string \<Rightarrow> program_data \<Rightarrow> 'd \<Rightarrow>
   (bpfman_error, 'a option) res" where
  "get_opt H dec key pd d = bind_res (sled_get_option H (db_tree pd) key d) (opt_res dec)"

definition set_kind :: "'d host \<Rightarrow> program_data \<Rightarrow> program_type \<Rightarrow> ('d, bpfman_error, unit) st" where
  "set_kind H pd kind = sled_insert H (db_tree pd) KIND (ne4 H (program_type_to_u32 kind))"

definition get_kind ::
  "'d host \<Rightarrow> program_data \<Rightarrow> 'd \<Rightarrow> (bpfman_error, program_type option) res" where
  "get_kind H = get_opt H (\<lambda>v. bind_res (bytes_to_u32 H v)
     (\<lambda>n. expect_res ''unwrap'' (program_type_from_u32 n))) KIND"

definition set_name :: "'d host \<Rightarrow> program_data \<Rightarrow> string \<Rightarrow> ('d, bpfman_error, unit) st" where
  "set_name H pd name = sled_insert H (db_tree pd) NAME (as_bytes name)"

definition get_name :: "'d host \<Rightarrow> program_data \<Rightarrow> 'd \<Rightarrow> (bpfman_error, string) res" where
  "get_name H = get_string H NAME"

definition set_id :: "'d host \<Rightarrow> program_data \<Rightarrow> u32 \<Rightarrow> ('d, bpfman_error, unit) st" where
  "set_id H pd i = sled_insert H (db_tree pd) ID (ne4 H i)"

definition get_id :: "'d host \<Rightarrow> program_data \<Rightarrow> 'd \<Rightarrow> (bpfman_error, u32) res" where
  "get_id H = get_u32 H ID"

definition set_location ::
  "'d host \<Rightarrow> program_data \<Rightarrow> location \<Rightarrow> ('d, bpfman_error, unit) st" where
  "set_location H pd loc = (case loc of
     Location_File l \<Rightarrow>
       map_err_st (\<lambda>e. DatabaseError (''Unable to insert location database entries into tree '' @
           debug_bytes (as_bytes (db_tree pd))) (show_bpfman_error e))
         (sled_insert H (db_tree pd) LOCATION_FILENAME (as_bytes l))
   | Location_Image l \<Rightarrow>
       then_st (sled_insert H (db_tree pd) LOCATION_IMAGE_URL (as_bytes (image_url l))) (
       then_st (sled_insert H (db_tree pd) LOCATION_IMAGE_PULL_POLICY
         (as_bytes (show_image_pull_policy (bi_image_pull_policy l)))) (
       then_st (case username l of None \<Rightarrow> ret ()
         | Some u \<Rightarrow> sled_insert H (db_tree pd) LOCATION_USERNAME (as_bytes u)) (
       case password l of None \<Rightarrow> ret ()
         | Some p \<Rightarrow> sled_insert H (db_tree pd) LOCATION_PASSWORD (as_bytes p)))))"

definition get_location :: "'d host \<Rightarrow> program_data \<Rightarrow> 'd \<Rightarrow> (bpfman_error, location) res" where
  "get_location H pd d = (case sled_get H (db_tree pd) LOCATION_FILENAME d of
     Ok l \<Rightarrow> ok_map Location_File (bytes_to_string l)
   | Panic p \<Rightarrow> Panic p
   | Err e \<Rightarrow>
       bind_res (get_string H LOCATION_IMAGE_URL pd d) (\<lambda>url.
       bind_res (get_string H LOCATION_IMAGE_PULL_POLICY pd d) (\<lambda>s.
       bind_res (expect_res ''unwrap'' (image_pull_policy_from_str s)) (\<lambda>policy.
       bind_res (get_opt H bytes_to_string LOCATION_USERNAME pd d) (\<lambda>user.
       bind_res (get_opt H bytes_to_string LOCATION_PASSWORD pd d) (\<lambda>pass.
       Ok (Location_Image \<lparr>image_url = url, bi_image_pull_policy = policy,
         username = user, password = pass\<rparr>)))))))"

definition set_global_data ::
  "'d host \<Rightarrow> program_data \<Rightarrow> (string, bytes) hashmap \<Rightarrow> ('d, bpfman_error, unit) st" where
  "set_global_data H pd data =
     try_for_each (\<lambda>kv. sled_insert H (db_tree pd) (PREFIX_GLOBAL_DATA @ fst kv) (snd kv)) data"

definition get_global_data ::
  "'d host \<Rightarrow> program_data \<Rightarrow> 'd \<Rightarrow> (bpfman_error, (string, bytes) hashmap) res" where
  "get_global_data H pd =
     scan_pairs H (db_tree pd) PREFIX_GLOBAL_DATA ''Failed to get global data'' Ok"

definition set_metadata ::
  "'d host \<Rightarrow> program_data \<Rightarrow> (string, string) hashmap \<Rightarrow> ('d, bpfman_error, unit) st" where
  "set_metadata H pd data =
     try_for_each (\<lambda>kv. sled_insert H (db_tree pd) (PREFIX_METADATA @ fst kv) (as_bytes (snd kv))) data"

definition get_metadata ::
  "'d host \<Rightarrow> program_data \<Rightarrow> 'd \<Rightarrow> (bpfman_error, (string, string) hashmap) res" where
  "get_metadata H pd =
     scan_pairs H (db_tree pd) PREFIX_METADATA ''Failed to get metadata'' bytes_to_string"

definition set_map_owner_id :: "'d host \<Rightarrow> program_data \<Rightarrow> u32 \<Rightarrow> ('d, bpfman_error, unit) st" where
  "set_map_owner_id H pd i = sled_insert H (db_tree pd) MAP_OWNER_ID (ne4 H i)"

definition get_map_owner_id :: "'d host \<Rightarrow> program_data \<Rightarrow> 'd \<Rightarrow> (bpfman_error, u32 option) res" where
  "get_map_owner_id H = get_opt H (bytes_to_u32 H) MAP_OWNER_ID"

definition set_map_pin_path :: "'d host \<Rightarrow> program_data \<Rightarrow> string \<Rightarrow> ('d, bpfman_error, unit) st" where
  "set_map_pin_path H pd path = sled_insert H (db_tree pd) MAP_PIN_PATH (as_bytes path)"

definition get_map_pin_path :: "'d host \<Rightarrow> program_data \<Rightarrow> 'd \<Rightarrow> (bpfman_error, string option) res" where
  "get_map_pin_path H = get_opt H bytes_to_string MAP_PIN_PATH"

definition clear_maps_used_by :: "'d host \<Rightarrow> program_data \<Rightarrow> ('d, bpfman_error, unit) st" where
  "clear_maps_used_by H pd = clear_prefix H (db_tree pd) PREFIX_MAPS_USED_BY"

definition set_maps_used_by ::
  "'d host \<Rightarrow> program_data \<Rightarrow> u32 list \<Rightarrow> ('d, bpfman_error, unit) st" where
  "set_maps_used_by H pd ids = then_st (clear_maps_used_by H pd)
     (insert_numbered H (db_tree pd) PREFIX_MAPS_USED_BY (map (ne4 H) ids))"

definition get_maps_used_by ::
  "'d host \<Rightarrow> program_data \<Rightarrow> 'd \<Rightarrow> (bpfman_error, u32 list) res" where
  "get_maps_used_by H pd =
     scan_values H (db_tree pd) PREFIX_MAPS_USED_BY ''Failed to get maps used by'' (bytes_to_u32 H)"

definition get_program_bytes :: "'d host \<Rightarrow> program_data \<Rightarrow> 'd \<Rightarrow> (bpfman_error, bytes) res" where
  "get_program_bytes H pd = sled_get H (db_tree pd) PROGRAM_BYTES"

definition set_program_bytes ::
  "'d host \<Rightarrow> ('sig, 'layer) oci \<Rightarrow> (string \<Rightarrow> string + (string + bytes)) \<Rightarrow> image_manager \<Rightarrow>
   program_data \<Rightarrow> ('d, bpfman_error, unit) st" where
  "set_program_bytes H C open_file im pd =
     bind_st (reads (get_location H pd)) (\<lambda>loc.
     bind_st (location_get_program_bytes H C open_file im loc) (\<lambda>(v, s).
     then_st (case loc of
         Location_Image l \<Rightarrow>
           bind_st (reads (get_name H pd)) (\<lambda>provided_name.
           if provided_name = [] then set_name H pd s
           else if s \<noteq> provided_name then throw (BytecodeMetaDataMismatch s provided_name)
           else ret ())
       | Location_File l \<Rightarrow> ret ())
     (sled_insert H (db_tree pd) PROGRAM_BYTES v)))"


subsection \<open>Kernel information\<close>

text \<open>
  What aya reports of a loaded program. The load time is the text chrono prints for it
  with the format \<open>%Y-%m-%dT%H:%M:%S%z\<close> in local time.
\<close>

record aya_prog_info =
  api_id :: u32
  api_name :: "string option"
  api_program_type :: u32
  api_loaded_at :: string
  api_tag :: u64
  api_gpl_compatible :: bool
  api_btf_id :: "u32 option"
  api_size_translated :: u32
  api_size_jitted :: u32
  api_verified_insns :: u32
  api_map_ids :: "string + u32 list"
  api_memory_locked :: "string + u32"

definition get_kernel_name :: "'d host \<Rightarrow> program_data \<Rightarrow> 'd \<Rightarrow> (bpfman_error, string) res" where
  "get_kernel_name H = get_string H KERNEL_NAME"

definition set_kernel_name :: "'d host \<Rightarrow> program_data \<Rightarrow> string \<Rightarrow> ('d, bpfman_error, unit) st" where
  "set_kernel_name H pd v = sled_insert H (db_tree pd) KERNEL_NAME (as_bytes v)"

definition get_kernel_program_type :: "'d host \<Rightarrow> program_data \<Rightarrow> 'd \<Rightarrow> (bpfman_error, u32) res" where
  "get_kernel_program_type H = get_u32 H KERNEL_PROGRAM_TYPE"

definition set_kernel_program_type :: "'d host \<Rightarrow> program_data \<Rightarrow> u32 \<Rightarrow> ('d, bpfman_error, unit) st" where
  "set_kernel_program_type H pd v = sled_insert H (db_tree pd) KERNEL_PROGRAM_TYPE (ne4 H v)"

definition get_kernel_loaded_at :: "'d host \<Rightarrow> program_data \<Rightarrow> 'd \<Rightarrow> (bpfman_error, string) res" where
  "get_kernel_loaded_at H = get_string H KERNEL_LOADED_AT"

definition set_kernel_loaded_at :: "'d host \<Rightarrow> program_data \<Rightarrow> string \<Rightarrow> ('d, bpfman_error, unit) st" where
  "set_kernel_loaded_at H pd v = sled_insert H (db_tree pd) KERNEL_LOADED_AT (as_bytes v)"

definition get_kernel_tag :: "'d host \<Rightarrow> program_data \<Rightarrow> 'd \<Rightarrow> (bpfman_error, string) res" where
  "get_kernel_tag H = get_string H KERNEL_TAG"

definition set_kernel_tag :: "'d host \<Rightarrow> program_data \<Rightarrow> u64 \<Rightarrow> ('d, bpfman_error, unit) st" where
  "set_kernel_tag H pd v = sled_insert H (db_tree pd) KERNEL_TAG (as_bytes (show_hex (unat v)))"

definition get_kernel_gpl_compatible :: "'d host \<Rightarrow> program_data \<Rightarrow> 'd \<Rightarrow> (bpfman_error, bool) res" where
  "get_kernel_gpl_compatible H = get_bool H KERNEL_GPL_COMPATIBLE"

definition set_kernel_gpl_compatible :: "'d host \<Rightarrow> program_data \<Rightarrow> bool \<Rightarrow> ('d, bpfman_error, unit) st" where
  "set_kernel_gpl_compatible H pd v = sled_insert H (db_tree pd) KERNEL_GPL_COMPATIBLE (ne_bool H v)"

definition get_kernel_map_ids ::
  "'d host \<Rightarrow> program_data \<Rightarrow> 'd \<Rightarrow> (bpfman_error, u32 list) res" where
  "get_kernel_map_ids H pd =
     scan_values H (db_tree pd) PREFIX_KERNEL_MAP_IDS ''Failed to get map ids'' (bytes_to_u32 H)"

definition set_kernel_map_ids ::
  "'d host \<Rightarrow> program_data \<Rightarrow> u32 list \<Rightarrow> ('d, bpfman_error, unit) st" where
  "set_kernel_map_ids H pd map_ids =
     insert_numbered H (db_tree pd) PREFIX_KERNEL_MAP_IDS (map (ne4 H) map_ids)"

definition get_kernel_btf_id :: "'d host \<Rightarrow> program_data \<Rightarrow> 'd \<Rightarrow> (bpfman_error, u32) res" where
  "get_kernel_btf_id H = get_u32 H KERNEL_BTF_ID"

definition set_kernel_btf_id :: "'d host \<Rightarrow> program_data \<Rightarrow> u32 \<Rightarrow> ('d, bpfman_error, unit) st" where
  "set_kernel_btf_id H pd v = sled_insert H (db_tree pd) KERNEL_BTF_ID (ne4 H v)"

definition get_kernel_bytes_xlated :: "'d host \<Rightarrow> program_data \<Rightarrow> 'd \<Rightarrow> (bpfman_error, u32) res" where
  "get_kernel_bytes_xlated H = get_u32 H KERNEL_BYTES_XLATED"

definition set_kernel_bytes_xlated :: "'d host \<Rightarrow> program_data \<Rightarrow> u32 \<Rightarrow> ('d, bpfman_error, unit) st" where
  "set_kernel_bytes_xlated H pd v = sled_insert H (db_tree pd) KERNEL_BYTES_XLATED (ne4 H v)"

definition get_kernel_jited :: "'d host \<Rightarrow> program_data \<Rightarrow> 'd \<Rightarrow> (bpfman_error, bool) res" where
  "get_kernel_jited H = get_bool H KERNEL_JITED"

definition set_kernel_jited :: "'d host \<Rightarrow> program_data \<Rightarrow> bool \<Rightarrow> ('d, bpfman_error, unit) st" where
  "set_kernel_jited H pd v = sled_insert H (db_tree pd) KERNEL_JITED (ne_bool H v)"

definition get_kernel_bytes_jited :: "'d host \<Rightarrow> program_data \<Rightarrow> 'd \<Rightarrow> (bpfman_error, u32) res" where
  "get_kernel_bytes_jited H = get_u32 H KERNEL_BYTES_JITED"

definition set_kernel_bytes_jited :: "'d host \<Rightarrow> program_data \<Rightarrow> u32 \<Rightarrow> ('d, bpfman_error, unit) st" where
  "set_kernel_bytes_jited H pd v = sled_insert H (db_tree pd) KERNEL_BYTES_JITED (ne4 H v)"

definition get_kernel_bytes_memlock :: "'d host \<Rightarrow> program_data \<Rightarrow> 'd \<Rightarrow> (bpfman_error, u32) res" where
  "get_kernel_bytes_memlock H = get_u32 H KERNEL_BYTES_MEMLOCK"

definition set_kernel_bytes_memlock :: "'d host \<Rightarrow> program_data \<Rightarrow> u32 \<Rightarrow> ('d, bpfman_error, unit) st" where
  "set_kernel_bytes_memlock H pd v = sled_insert H (db_tree pd) KERNEL_BYTES_MEMLOCK (ne4 H v)"

definition get_kernel_verified_insns :: "'d host \<Rightarrow> program_data \<Rightarrow> 'd \<Rightarrow> (bpfman_error, u32) res" where
  "get_kernel_verified_insns H = get_u32 H KERNEL_VERIFIED_INSNS"

definition set_kernel_verified_insns :: "'d host \<Rightarrow> program_data \<Rightarrow> u32 \<Rightarrow> ('d, bpfman_error, unit) st" where
  "set_kernel_verified_insns H pd v = sled_insert H (db_tree pd) KERNEL_VERIFIED_INSNS (ne4 H v)"

definition set_kernel_info ::
  "'d host \<Rightarrow> program_data \<Rightarrow> aya_prog_info \<Rightarrow> ('d, bpfman_error, unit) st" where
  "set_kernel_info H pd prog =
     then_st (set_id H pd (api_id prog)) (
     bind_st (reads (\<lambda>_. expect_opt ''Program name is not valid unicode'' (api_name prog))) (\<lambda>name.
     then_st (set_kernel_name H pd name) (
     then_st (set_kernel_program_type H pd (api_program_type prog)) (
     then_st (set_kernel_loaded_at H pd (api_loaded_at prog)) (
     then_st (set_kernel_tag H pd (api_tag prog)) (
     then_st (set_kernel_gpl_compatible H pd (api_gpl_compatible prog)) (
     then_st (set_kernel_btf_id H pd (case api_btf_id prog of None \<Rightarrow> 0 | Some n \<Rightarrow> n)) (
     then_st (set_kernel_bytes_xlated H pd (api_size_translated prog)) (
     then_st (set_kernel_jited H pd (api_size_jitted prog \<noteq> 0)) (
     then_st (set_kernel_bytes_jited H pd (api_size_jitted prog)) (
     then_st (set_kernel_verified_insns H pd (api_verified_insns prog)) (
     then_st (case api_map_ids prog of Inl e \<Rightarrow> ret () | Inr ids \<Rightarrow> set_kernel_map_ids H pd ids) (
     case api_memory_locked prog of
       Inl e \<Rightarrow> ret () | Inr bytes_memlock \<Rightarrow> set_kernel_bytes_memlock H pd bytes_memlock)))))))))))))"


subsection \<open>Life cycle of the tree\<close>

text \<open>
  \<open>tmp\<close> is what opening the temporary database gives and \<open>id_rand\<close> the random number
  drawn; the second component of the result is the temporary database.
\<close>

definition program_data_init ::
  "'d host \<Rightarrow> u32 \<Rightarrow> location \<Rightarrow> string \<Rightarrow> (string, string) hashmap \<Rightarrow> (string, bytes) hashmap \<Rightarrow>
   u32 option \<Rightarrow> ('d, bpfman_error, program_data) st" where
  "program_data_init H id_rand loc name metadata global_data map_owner_id =
     (let pd = \<lparr>db_tree = pre_load_tree id_rand\<rparr> in
      then_st (open_tree H ''Unable to open program database tree'' (db_tree pd)) (
      then_st (set_id H pd id_rand) (
      then_st (set_location H pd loc) (
      then_st (set_name H pd name) (
      then_st (set_metadata H pd metadata) (
      then_st (set_global_data H pd global_data) (
      then_st (case map_owner_id of None \<Rightarrow> ret () | Some i \<Rightarrow> set_map_owner_id H pd i)
        (ret pd))))))))"

definition program_data_new ::
  "'d host \<Rightarrow> string + 'd \<Rightarrow> u32 \<Rightarrow> location \<Rightarrow> string \<Rightarrow> (string, string) hashmap \<Rightarrow>
   (string, bytes) hashmap \<Rightarrow> u32 option \<Rightarrow> (bpfman_error, program_data) res \<times> 'd option" where
  "program_data_new H tmp id_rand loc name metadata global_data map_owner_id = (case tmp of
     Inl e \<Rightarrow> (Panic ''unable to open temporary database'', None)
   | Inr d \<Rightarrow> (case program_data_init H id_rand loc name metadata global_data map_owner_id d of
       (r, d') \<Rightarrow> (r, Some d')))"

definition new_empty :: "string \<Rightarrow> program_data" where
  "new_empty t = \<lparr>db_tree = t\<rparr>"

text \<open>The loop of \<open>load\<close> and \<open>swap_tree\<close>: the items of one tree inserted into another.\<close>

definition copy_entry :: "'d host \<Rightarrow> string \<Rightarrow> string + string \<times> bytes \<Rightarrow> ('d, bpfman_error, unit) st" where
  "copy_entry H t r d = (case r of
     Inl e \<Rightarrow> (Panic ''unable to iterate db_tree'', d)
   | Inr (k, v) \<Rightarrow> (case db_insert H t k v d of
       Inl e \<Rightarrow> (Err (DatabaseError ''unable to insert entry during copy'' e), d)
     | Inr d' \<Rightarrow> (Ok (), d')))"

definition program_data_load ::
  "'d host \<Rightarrow> 'd \<Rightarrow> program_data \<Rightarrow> ('d, bpfman_error, program_data) st" where
  "program_data_load H tmp pd =
     then_st (open_tree H ''Unable to open program database tree'' (db_tree pd)) (
     then_st (try_for_each (copy_entry H (db_tree pd)) (db_iter H (db_tree pd) tmp))
       (ret \<lparr>db_tree = db_tree pd\<rparr>))"

definition swap_tree ::
  "'d host \<Rightarrow> program_data \<Rightarrow> u32 \<Rightarrow> ('d, bpfman_error, program_data) st" where
  "swap_tree H pd new_id =
     (let new_tree = prog_tree new_id; pd' = \<lparr>db_tree = new_tree\<rparr> in
      then_st (open_tree H ''Unable to open program database tree'' new_tree) (
      then_st (\<lambda>d. try_for_each (copy_entry H new_tree) (db_iter H (db_tree pd) d) d) (
      then_st (drop_tree H ''unable to delete temporary program tree'' (db_tree pd)) (
      then_st (set_id H pd' new_id) (ret pd')))))"


subsection \<open>What the getters read\<close>

context store
begin

lemma get_u32_ok [simp]:
  "\<alpha> d (db_tree pd) = Some m \<Longrightarrow> m k = Some (ne4 H v) \<Longrightarrow> get_u32 H k pd d = Ok v"
  by (simp add: get_u32_def)

lemma get_string_ok [simp]:
  "\<alpha> d (db_tree pd) = Some m \<Longrightarrow> m k = Some (as_bytes s) \<Longrightarrow> is_str s \<Longrightarrow>
   get_string H k pd d = Ok s"
  by (simp add: get_string_def)

lemma get_bool_ok [simp]:
  "\<alpha> d (db_tree pd) = Some m \<Longrightarrow> m k = Some (ne_bool H b) \<Longrightarrow> get_bool H k pd d = Ok b"
  by (simp add: get_bool_def)

lemma get_opt_ok [simp]:
  "\<alpha> d (db_tree pd) = Some m \<Longrightarrow> get_opt H dec k pd d = opt_res dec (m k)"
  by (simp add: get_opt_def)

lemma get_missing:
  assumes "\<alpha> d (db_tree pd) = Some m" and "m k = None"
  shows "\<exists>e. get_u32 H k pd d = Err e" and "\<exists>e. get_string H k pd d = Err e"
    and "\<exists>e. get_bool H k pd d = Err e"
  using sled_get_missing [OF assms] by (auto simp: get_u32_def get_string_def get_bool_def)

end

lemmas pd_getter_defs =
  get_kind_def get_name_def get_id_def get_map_owner_id_def get_map_pin_path_def
  get_program_bytes_def get_kernel_name_def get_kernel_program_type_def get_kernel_loaded_at_def
  get_kernel_tag_def get_kernel_gpl_compatible_def get_kernel_btf_id_def
  get_kernel_bytes_xlated_def get_kernel_jited_def get_kernel_bytes_jited_def
  get_kernel_bytes_memlock_def get_kernel_verified_insns_def

lemmas pd_setter_defs =
  set_kind_def set_name_def set_id_def set_map_owner_id_def set_map_pin_path_def
  set_kernel_name_def set_kernel_program_type_def set_kernel_loaded_at_def set_kernel_tag_def
  set_kernel_gpl_compatible_def set_kernel_btf_id_def set_kernel_bytes_xlated_def
  set_kernel_jited_def set_kernel_bytes_jited_def set_kernel_bytes_memlock_def
  set_kernel_verified_insns_def


subsection \<open>Copying a tree\<close>

context store
begin

definition copied :: "string \<Rightarrow> tree \<Rightarrow> 'd \<Rightarrow> 'd" where
  "copied t src d = inserted_all H t fst snd (entries [] src) d"

lemma copy_entry_ok:
  "\<alpha> d t = Some m \<Longrightarrow> copy_entry H t (Inr kv) d = (Ok (), inserted H t (fst kv) (snd kv) d)"
  by (simp add: copy_entry_def case_prod_beta)

lemma copy_run [simp]:
  "\<alpha> d t = Some m \<Longrightarrow>
   try_for_each (copy_entry H t) (map Inr (entries [] src)) d = (Ok (), copied t src d)"
  unfolding try_for_each_map copied_def
  using inserts_ok [of t "\<lambda>kv. copy_entry H t (Inr kv)" fst snd d m "entries [] src"]
  by (simp add: copy_entry_ok)

lemma abs_copied [simp]:
  "\<alpha> d t = Some m \<Longrightarrow> finite (dom src) \<Longrightarrow> \<alpha> (copied t src d) = (\<alpha> d)(t \<mapsto> m ++ src)"
  by (simp add: copied_def kv_map_entries)

lemma load_ok:
  assumes "\<alpha> tmp (db_tree pd) = Some src"
  shows "\<exists>d'. program_data_load H tmp pd d = (Ok \<lparr>db_tree = db_tree pd\<rparr>, d') \<and>
    \<alpha> d' = (\<alpha> d)(db_tree pd \<mapsto>
      (case \<alpha> d (db_tree pd) of None \<Rightarrow> Map.empty | Some m \<Rightarrow> m) ++ src)"
  using assms finite_tree [OF assms]
  by (auto simp: program_data_load_def then_st_def bind_st_def)

lemma swap_ok:
  assumes "\<alpha> d (db_tree pd) = Some m" and "db_tree pd \<noteq> default_tree"
    and "db_tree pd \<noteq> prog_tree new_id"
  shows "\<exists>d'. swap_tree H pd new_id d = (Ok \<lparr>db_tree = prog_tree new_id\<rparr>, d') \<and>
    \<alpha> d' = (\<alpha> d)(db_tree pd := None, prog_tree new_id \<mapsto>
      ((case \<alpha> d (prog_tree new_id) of None \<Rightarrow> Map.empty | Some m' \<Rightarrow> m') ++ m)
        (ID \<mapsto> ne4 H new_id))"
  using assms finite_tree [OF assms(1)]
  by (simp add: swap_tree_def Let_def then_st_def bind_st_def set_id_def fun_upd_twist)

end


subsection \<open>A new program\<close>

definition opt_upd :: "string \<Rightarrow> bytes option \<Rightarrow> tree \<Rightarrow> tree" where
  "opt_upd k v m = (case v of None \<Rightarrow> m | Some b \<Rightarrow> m(k \<mapsto> b))"

fun add_location :: "location \<Rightarrow> tree \<Rightarrow> tree" where
  "add_location (Location_File l) m = m(LOCATION_FILENAME \<mapsto> as_bytes l)"
| "add_location (Location_Image l) m =
     opt_upd LOCATION_PASSWORD (map_option as_bytes (password l))
       (opt_upd LOCATION_USERNAME (map_option as_bytes (username l))
         (m(LOCATION_IMAGE_URL \<mapsto> as_bytes (image_url l),
            LOCATION_IMAGE_PULL_POLICY \<mapsto> as_bytes (show_image_pull_policy (bi_image_pull_policy l)))))"

fun location_str :: "location \<Rightarrow> bool" where
  "location_str (Location_File l) \<longleftrightarrow> is_str l"
| "location_str (Location_Image l) \<longleftrightarrow> is_str (image_url l) \<and>
     pred_option is_str (username l) \<and> pred_option is_str (password l)"

text \<open>The tree of a new program.\<close>

definition new_program_map ::
  "'d host \<Rightarrow> u32 \<Rightarrow> location \<Rightarrow> string \<Rightarrow> (string, string) hashmap \<Rightarrow> (string, bytes) hashmap \<Rightarrow>
   u32 option \<Rightarrow> tree" where
  "new_program_map H r loc name md gd owner = opt_upd MAP_OWNER_ID (map_option (ne4 H) owner)
     ((add_location loc [ID \<mapsto> ne4 H r])(NAME \<mapsto> as_bytes name)
      ++ kv_map (\<lambda>kv. PREFIX_METADATA @ fst kv) (\<lambda>kv. as_bytes (snd kv)) md
      ++ kv_map (\<lambda>kv. PREFIX_GLOBAL_DATA @ fst kv) snd gd)"

lemma opt_upd_other [simp]: "k \<noteq> k' \<Longrightarrow> opt_upd k v m k' = m k'"
  by (auto simp: opt_upd_def split: option.splits)

lemma opt_upd_same [simp]: "m k = None \<Longrightarrow> opt_upd k v m k = v"
  by (auto simp: opt_upd_def split: option.splits)

lemma opt_upd_simps [simp]: "opt_upd k None m = m" "opt_upd k (Some b) m = m(k \<mapsto> b)"
  by (simp_all add: opt_upd_def)

lemma add_location_other:
  "k \<notin> {LOCATION_FILENAME, LOCATION_IMAGE_URL, LOCATION_IMAGE_PULL_POLICY, LOCATION_USERNAME,
     LOCATION_PASSWORD} \<Longrightarrow> add_location loc m k = m k"
  by (cases loc) auto

context store
begin

lemma set_location_ok:
  assumes "\<alpha> d (db_tree pd) = Some m"
  obtains d' where "set_location H pd loc d = (Ok (), d')"
    and "\<alpha> d' = (\<alpha> d)(db_tree pd \<mapsto> add_location loc m)"
proof (cases loc)
  case (Location_File l)
  with assms that show ?thesis by (simp add: set_location_def map_err_st_def)
next
  case (Location_Image l)
  with assms that show ?thesis
    by (cases "username l"; cases "password l") (simp_all add: set_location_def then_st_def bind_st_def)
qed

lemma program_data_init_ok:
  assumes "\<alpha> d (pre_load_tree r) = None"
  obtains d' where
    "program_data_init H r loc name md gd owner d =
      (Ok \<lparr>db_tree = pre_load_tree r\<rparr>, d')"
    "\<alpha> d' = (\<alpha> d)(pre_load_tree r \<mapsto> new_program_map H r loc name md gd owner)"
proof -
  let ?t = "pre_load_tree r"
  let ?pd = "\<lparr>db_tree = ?t\<rparr>" and ?d1 = "inserted H ?t ID (ne4 H r) (opened H ?t d)"
  have "\<alpha> ?d1 (db_tree ?pd) = Some [ID \<mapsto> ne4 H r]" using assms by simp
  then obtain d2 where d2: "set_location H ?pd loc ?d1 = (Ok (), d2)"
    "\<alpha> d2 = (\<alpha> ?d1)(?t \<mapsto> add_location loc [ID \<mapsto> ne4 H r])"
    by (rule set_location_ok) simp
  show ?thesis
    by (cases owner; rule that, unfold program_data_init_def Let_def)
      (simp add: d2 assms new_program_map_def then_st_def bind_st_def
        set_id_def set_name_def set_metadata_def set_global_data_def set_map_owner_id_def)+
qed

lemma get_location_ok:
  assumes "\<alpha> d (db_tree pd) = Some m" and "location_str loc"
    and "\<And>k. k \<in> {LOCATION_FILENAME, LOCATION_USERNAME, LOCATION_PASSWORD} \<Longrightarrow> m0 k = None"
    and "\<And>k. prefix ''location_'' k \<Longrightarrow> m k = add_location loc m0 k"
  shows "get_location H pd d = Ok loc"
proof (cases loc)
  case (Location_File l)
  with assms show ?thesis by (simp add: get_location_def)
next
  case (Location_Image l)
  have "sled_get H (db_tree pd) LOCATION_FILENAME d =
      Err (DatabaseError (''Database entry location_filename does not exist in tree '' @
        debug_str (db_tree pd)) [])"
    using assms Location_Image by (simp add: sled_get_def)
  moreover have "opt_res bytes_to_string (map_option as_bytes u) = (Ok u :: (bpfman_error, _) res)"
    if "pred_option is_str u" for u
    using that by (cases u) auto
  ultimately show ?thesis using assms Location_Image by (simp add: get_location_def)
qed

end

text \<open>The entries that hold the kernel information.\<close>

definition kernel_info_kvs :: "'d host \<Rightarrow> aya_prog_info \<Rightarrow> string \<Rightarrow> (string \<times> bytes) list" where
  "kernel_info_kvs H prog nm =
     [(ID, ne4 H (api_id prog)), (KERNEL_NAME, as_bytes nm),
      (KERNEL_PROGRAM_TYPE, ne4 H (api_program_type prog)),
      (KERNEL_LOADED_AT, as_bytes (api_loaded_at prog)),
      (KERNEL_TAG, as_bytes (show_hex (unat (api_tag prog)))),
      (KERNEL_GPL_COMPATIBLE, ne_bool H (api_gpl_compatible prog)),
      (KERNEL_BTF_ID, ne4 H (case api_btf_id prog of None \<Rightarrow> 0 | Some n \<Rightarrow> n)),
      (KERNEL_BYTES_XLATED, ne4 H (api_size_translated prog)),
      (KERNEL_JITED, ne_bool H (api_size_jitted prog \<noteq> 0)),
      (KERNEL_BYTES_JITED, ne4 H (api_size_jitted prog)),
      (KERNEL_VERIFIED_INSNS, ne4 H (api_verified_insns prog))]
     @ (case api_map_ids prog of Inl e \<Rightarrow> [] | Inr ids \<Rightarrow>
          map (\<lambda>iv. (PREFIX_KERNEL_MAP_IDS @ show_nat (fst iv), snd iv))
            (List.enumerate 0 (map (ne4 H) ids)))
     @ (case api_memory_locked prog of Inl e \<Rightarrow> [] | Inr n \<Rightarrow> [(KERNEL_BYTES_MEMLOCK, ne4 H n)])"

lemma set_kernel_info_list:
  "api_name prog = Some nm \<Longrightarrow>
   set_kernel_info H pd prog = insert_list H (db_tree pd) (kernel_info_kvs H prog nm)"
  by (cases "api_map_ids prog"; cases "api_memory_locked prog")
    (simp_all add: set_kernel_info_def kernel_info_kvs_def pd_setter_defs set_kernel_map_ids_def
      insert_numbered_list to_insert_list)

text \<open>The vectors of the tree.\<close>

sublocale store \<subseteq> used_by: db_vector H \<alpha> PREFIX_MAPS_USED_BY "ne4 H" "bytes_to_u32 H"
  by unfold_locales simp

sublocale store \<subseteq> map_ids: db_vector H \<alpha> PREFIX_KERNEL_MAP_IDS "ne4 H" "bytes_to_u32 H"
  by unfold_locales simp

context store
begin

lemma set_maps_used_by_run:
  assumes "\<alpha> d (db_tree pd) = Some m"
  obtains d' where "set_maps_used_by H pd ids d = (Ok (), d')"
    and "\<alpha> d' = (\<alpha> d)(db_tree pd \<mapsto>
      m |` {k. \<not> prefix PREFIX_MAPS_USED_BY k} ++ numbered PREFIX_MAPS_USED_BY (map (ne4 H) ids))"
proof -
  obtain d1 where d1: "clear_prefix H (db_tree pd) PREFIX_MAPS_USED_BY d =
      (Ok () :: (bpfman_error, unit) res, d1)"
    and a1: "\<alpha> d1 = (\<alpha> d)(db_tree pd \<mapsto> m |` {k. \<not> prefix PREFIX_MAPS_USED_BY k})"
    using clear_prefix_ok [OF assms] by blast
  show ?thesis
    by (rule that [of "used_by.wrote (db_tree pd) ids d1"])
      (simp_all add: set_maps_used_by_def clear_maps_used_by_def then_st_def bind_st_def d1 a1)
qed

lemma set_maps_used_by_reads:
  assumes "\<alpha> d (db_tree pd) = Some m" and "set_maps_used_by H pd ids d = (Ok (), d')"
  shows "\<exists>us. get_maps_used_by H pd d' = Ok us \<and> mset us = mset ids"
    and "length ids \<le> 10 \<Longrightarrow> get_maps_used_by H pd d' = Ok ids"
    and "\<not> prefix PREFIX_MAPS_USED_BY k \<Longrightarrow> db_get H (db_tree pd) k d' = Inr (m k)"
    and "t \<noteq> db_tree pd \<Longrightarrow> \<alpha> d' t = \<alpha> d t"
proof -
  let ?p = PREFIX_MAPS_USED_BY
  let ?m = "m |` {k. \<not> prefix ?p k}"
  have none: "?m k = None" if "prefix ?p k" for k using that by simp
  from assms have a: "\<alpha> d' = (\<alpha> d)(db_tree pd \<mapsto> ?m ++ numbered ?p (map (ne4 H) ids))"
    using set_maps_used_by_run [OF assms(1), of ids] by auto
  then have m: "\<alpha> d' (db_tree pd) = Some (?m ++ numbered ?p (map (ne4 H) ids))" by simp
  show "\<exists>us. get_maps_used_by H pd d' = Ok us \<and> mset us = mset ids"
    unfolding get_maps_used_by_def
    by (rule used_by.read_mset [OF m]) (rule mset_entries_numbered [OF none])
  show "get_maps_used_by H pd d' = Ok ids" if "length ids \<le> 10"
    unfolding get_maps_used_by_def
    by (rule used_by.read_list [OF m], rule entries_numbered [OF _ none]) (use that in simp)
  show "db_get H (db_tree pd) k d' = Inr (m k)" if "\<not> prefix ?p k"
    using that m by (simp add: map_add_def numbered_None)
  show "\<alpha> d' t = \<alpha> d t" if "t \<noteq> db_tree pd" using that a by simp
qed

end

lemma kernel_info_reads:
  "upd_list (kernel_info_kvs H prog nm) m ID = Some (ne4 H (api_id prog))"
  "upd_list (kernel_info_kvs H prog nm) m KERNEL_NAME = Some (as_bytes nm)"
  "upd_list (kernel_info_kvs H prog nm) m KERNEL_PROGRAM_TYPE = Some (ne4 H (api_program_type prog))"
  "upd_list (kernel_info_kvs H prog nm) m KERNEL_LOADED_AT = Some (as_bytes (api_loaded_at prog))"
  "upd_list (kernel_info_kvs H prog nm) m KERNEL_TAG = Some (as_bytes (show_hex (unat (api_tag prog))))"
  "upd_list (kernel_info_kvs H prog nm) m KERNEL_GPL_COMPATIBLE =
     Some (ne_bool H (api_gpl_compatible prog))"
  "upd_list (kernel_info_kvs H prog nm) m KERNEL_BTF_ID =
     Some (ne4 H (case api_btf_id prog of None \<Rightarrow> 0 | Some n \<Rightarrow> n))"
  "upd_list (kernel_info_kvs H prog nm) m KERNEL_BYTES_XLATED = Some (ne4 H (api_size_translated prog))"
  "upd_list (kernel_info_kvs H prog nm) m KERNEL_JITED = Some (ne_bool H (api_size_jitted prog \<noteq> 0))"
  "upd_list (kernel_info_kvs H prog nm) m KERNEL_BYTES_JITED = Some (ne4 H (api_size_jitted prog))"
  "upd_list (kernel_info_kvs H prog nm) m KERNEL_VERIFIED_INSNS = Some (ne4 H (api_verified_insns prog))"
  "api_memory_locked prog = Inr n \<Longrightarrow>
    upd_list (kernel_info_kvs H prog nm) m KERNEL_BYTES_MEMLOCK = Some (ne4 H n)"
  by (cases "api_map_ids prog"; cases "api_memory_locked prog";
      simp add: kernel_info_kvs_def upd_list_numbered map_add_def numbered_None)+


subsection \<open>Properties of the program tree\<close>

lemma new_program_map_reads:
  "new_program_map H r loc name md gd owner ID = Some (ne4 H r)"
  "new_program_map H r loc name md gd owner NAME = Some (as_bytes name)"
  "new_program_map H r loc name md gd owner MAP_OWNER_ID = map_option (ne4 H) owner"
  "distinct (map fst md) \<Longrightarrow>
    new_program_map H r loc name md gd owner (PREFIX_METADATA @ k) = map_option as_bytes (map_of md k)"
  "distinct (map fst gd) \<Longrightarrow>
    new_program_map H r loc name md gd owner (PREFIX_GLOBAL_DATA @ k) = map_of gd k"
  using kv_map_hashmap [of gd PREFIX_GLOBAL_DATA "\<lambda>b. b" k]
  by (auto simp: new_program_map_def map_add_def add_location_other option.map_ident
      split: option.splits)

lemma new_program_map_location:
  assumes "prefix ''location_'' k"
  shows "new_program_map H r loc name md gd owner k = add_location loc [ID \<mapsto> ne4 H r] k"
proof -
  from assms obtain z where "k = ''location_'' @ z" by (auto simp: prefix_def)
  then show ?thesis by (simp add: new_program_map_def map_add_def)
qed

text \<open>
  What a new program was created with is what its getters return: the random id, the
  bytecode location with its pull policy and credentials, the name, the owner of its
  maps, and the metadata and global data as maps.
\<close>

lemma program_data_new_fields:
  assumes "store H \<alpha>" and "\<alpha> tmp (pre_load_tree r) = None"
    and "is_str name" and "location_str loc"
    and "\<forall>(k, v) \<in> set md. is_str k \<and> is_str v" and "distinct (map fst md)"
    and "\<forall>(k, v) \<in> set gd. is_str k" and "distinct (map fst gd)"
  shows "\<exists>pd d md' gd'. program_data_new H (Inr tmp) r loc name md gd owner = (Ok pd, Some d)
    \<and> get_id H pd d = Ok r \<and> get_name H pd d = Ok name \<and> get_location H pd d = Ok loc
    \<and> get_map_owner_id H pd d = Ok owner
    \<and> get_metadata H pd d = Ok md' \<and> map_of md' = map_of md
    \<and> get_global_data H pd d = Ok gd' \<and> map_of gd' = map_of gd"
proof -
  let ?t = "pre_load_tree r"
  let ?m = "new_program_map H r loc name md gd owner" and ?pd = "\<lparr>db_tree = ?t\<rparr>"
  obtain d where run: "program_data_init H r loc name md gd owner tmp = (Ok ?pd, d)"
    and d: "\<alpha> d = (\<alpha> tmp)(?t \<mapsto> ?m)"
    by (rule store.program_data_init_ok [OF assms(1), OF assms(2)])
  from d have m: "\<alpha> d (db_tree ?pd) = Some ?m" by simp
  have "get_id H ?pd d = Ok r" "get_name H ?pd d = Ok name"
    using m assms(3) by (simp_all add: pd_getter_defs store.get_u32_ok [OF assms(1)]
        store.get_string_ok [OF assms(1)] new_program_map_reads)
  moreover have "get_map_owner_id H ?pd d = Ok owner"
    using m by (cases owner) (simp_all add: pd_getter_defs store.get_opt_ok [OF assms(1)]
        new_program_map_reads)
  moreover have "get_location H ?pd d = Ok loc"
    by (rule store.get_location_ok [OF assms(1), OF m assms(4), of "[ID \<mapsto> ne4 H r]"])
      (auto simp: new_program_map_location)
  moreover have "\<exists>md'. get_metadata H ?pd d = Ok md' \<and> map_of md' = map_of md"
    unfolding get_metadata_def
    by (rule store.read_hashmap [OF assms(1), OF m, where enc = as_bytes])
      (use assms(5, 6) in \<open>auto simp: new_program_map_reads dest: map_of_SomeD\<close>)
  moreover have "\<exists>gd'. get_global_data H ?pd d = Ok gd' \<and> map_of gd' = map_of gd"
    unfolding get_global_data_def
    by (rule store.read_hashmap [OF assms(1), OF m, where enc = "\<lambda>b. b"])
      (use assms(7, 8) in \<open>auto simp: new_program_map_reads option.map_ident dest: map_of_SomeD\<close>)
  ultimately show ?thesis using run by (auto simp: program_data_new_def)
qed

lemma program_data_new_fields_witness:
  "\<exists>pd d md' gd'. program_data_new ref_host (Inr []) 7 (Location_File ''/x.o'') ''pass''
      [(''owner'', ''me'')] [(''cfg'', [1, 2])] (Some 3) = (Ok pd, Some d)
    \<and> get_id ref_host pd d = Ok 7 \<and> get_name ref_host pd d = Ok ''pass''
    \<and> get_location ref_host pd d = Ok (Location_File ''/x.o'')
    \<and> get_map_owner_id ref_host pd d = Ok (Some 3)
    \<and> get_metadata ref_host pd d = Ok md' \<and> map_of md' = map_of [(''owner'', ''me'')]
    \<and> get_global_data ref_host pd d = Ok gd' \<and> map_of gd' = map_of [(''cfg'', [1, 2])]"
  by (rule program_data_new_fields [OF ref_store]) (simp_all add: ref_abs_def)

text \<open>
  \<open>set_maps_used_by\<close> replaces the list of users, whatever was stored before: up to ten
  ids are read back in the order given, more as a multiset, and every other key of the
  tree and every other tree keeps its value.
\<close>

lemma set_maps_used_by_replaces:
  assumes "store H \<alpha>" and "\<alpha> d (db_tree pd) = Some m"
  shows "\<exists>d' us. set_maps_used_by H pd ids d = (Ok (), d')
    \<and> get_maps_used_by H pd d' = Ok us \<and> mset us = mset ids \<and> (length ids \<le> 10 \<longrightarrow> us = ids)
    \<and> (\<forall>k. \<not> prefix PREFIX_MAPS_USED_BY k \<longrightarrow> db_get H (db_tree pd) k d' = Inr (m k))
    \<and> (\<forall>t. t \<noteq> db_tree pd \<longrightarrow> \<alpha> d' t = \<alpha> d t)"
proof -
  obtain d' where run: "set_maps_used_by H pd ids d = (Ok (), d')"
    by (rule store.set_maps_used_by_run [OF assms(1), OF assms(2)])
  note reads = store.set_maps_used_by_reads [OF assms(1), OF assms(2) run]
  from reads(1) obtain us where us: "get_maps_used_by H pd d' = Ok us" "mset us = mset ids"
    by blast
  with reads(2) have "length ids \<le> 10 \<longrightarrow> us = ids" by auto
  with run us reads(3, 4) show ?thesis by blast
qed

lemma set_maps_used_by_replaces_witness:
  "\<exists>d' us. set_maps_used_by ref_host \<lparr>db_tree = ''t''\<rparr> [4, 2] [(''t'', [(''maps_used_by_7'', [1])])] = (Ok (), d')
    \<and> get_maps_used_by ref_host \<lparr>db_tree = ''t''\<rparr> d' = Ok us \<and> mset us = mset [4, 2]
    \<and> (length [4 :: u32, 2] \<le> 10 \<longrightarrow> us = [4, 2])
    \<and> (\<forall>k. \<not> prefix PREFIX_MAPS_USED_BY k \<longrightarrow> db_get ref_host (db_tree \<lparr>db_tree = ''t''\<rparr>) k d' =
          Inr ([''maps_used_by_7'' \<mapsto> [1]] k))
    \<and> (\<forall>t. t \<noteq> db_tree \<lparr>db_tree = ''t''\<rparr> \<longrightarrow>
          ref_abs d' t = ref_abs [(''t'', [(''maps_used_by_7'', [1])])] t)"
  by (rule set_maps_used_by_replaces [OF ref_store, where m = "[''maps_used_by_7'' \<mapsto> [1]]"])
    (simp add: ref_abs_def)

text \<open>
  C18: the tree of a program is moved, not copied twice: \<open>load\<close> merges the temporary tree
  into the root database under its name, and \<open>swap_tree\<close> then leaves the same entries
  under the name of the kernel id, with the id entry set to it, and drops the old tree.
\<close>

theorem load_then_swap_moves_tree:
  assumes "store H \<alpha>" and "\<alpha> tmp (db_tree pd) = Some m"
    and "db_tree pd = pre_load_tree r"
    and "\<alpha> d (db_tree pd) = None" and "\<alpha> d (prog_tree i) = None"
  shows "\<exists>d1 d2. program_data_load H tmp pd d = (Ok pd, d1)
    \<and> swap_tree H pd i d1 = (Ok \<lparr>db_tree = prog_tree i\<rparr>, d2)
    \<and> \<alpha> d2 = (\<alpha> d)(prog_tree i \<mapsto> m(ID \<mapsto> ne4 H i))
    \<and> get_id H \<lparr>db_tree = prog_tree i\<rparr> d2 = Ok i"
proof -
  have ne: "db_tree pd \<noteq> default_tree" "db_tree pd \<noteq> prog_tree i"
    using assms(3) by simp_all
  obtain d1 where d1: "program_data_load H tmp pd d = (Ok pd, d1)" "\<alpha> d1 = (\<alpha> d)(db_tree pd \<mapsto> m)"
    using store.load_ok [OF assms(1), OF assms(2), of d] assms(4) by auto
  then have m1: "\<alpha> d1 (db_tree pd) = Some m" by simp
  have n1: "\<alpha> d1 (prog_tree i) = None"
    using d1(2) ne(2) assms(5) by (metis fun_upd_other)
  obtain d2 where d2: "swap_tree H pd i d1 = (Ok \<lparr>db_tree = prog_tree i\<rparr>, d2)"
    "\<alpha> d2 = (\<alpha> d1)(db_tree pd := None, prog_tree i \<mapsto> m(ID \<mapsto> ne4 H i))"
    using store.swap_ok [OF assms(1), OF m1 ne] n1 by auto
  have a2: "\<alpha> d2 = (\<alpha> d)(prog_tree i \<mapsto> m(ID \<mapsto> ne4 H i))"
    unfolding d2(2) d1(2) using assms(4) by (simp add: fun_upd_idem)
  then have "get_id H \<lparr>db_tree = prog_tree i\<rparr> d2 = Ok i"
    using store.get_u32_ok [OF assms(1), of d2 "\<lparr>db_tree = prog_tree i\<rparr>"
        "m(ID \<mapsto> ne4 H i)" ID i] by (simp add: get_id_def)
  with d1(1) d2(1) a2 show ?thesis by blast
qed

lemma demo_pre_load: "db_tree \<lparr>db_tree = ''pre_load_program_7''\<rparr> = pre_load_tree 7"
  by code_simp

theorem load_then_swap_moves_tree_witness:
  "\<exists>d1 d2. program_data_load ref_host [(''pre_load_program_7'', [(''name'', [120])])]
      \<lparr>db_tree = ''pre_load_program_7''\<rparr> [] = (Ok \<lparr>db_tree = ''pre_load_program_7''\<rparr>, d1)
    \<and> swap_tree ref_host \<lparr>db_tree = ''pre_load_program_7''\<rparr> 9 d1 =
        (Ok \<lparr>db_tree = prog_tree 9\<rparr>, d2)
    \<and> ref_abs d2 = (ref_abs [])(prog_tree 9 \<mapsto>
        (map_of [(''name'', [120])])(ID \<mapsto> ne4 ref_host 9))
    \<and> get_id ref_host \<lparr>db_tree = prog_tree 9\<rparr> d2 = Ok 9"
  by (rule load_then_swap_moves_tree [OF ref_store _ demo_pre_load])
    (simp_all add: ref_abs_def)

text \<open>
  The kernel information a program is given is what its getters return afterwards: id,
  name, type, load time, the tag in hexadecimal, the sizes, the BTF id (zero when there
  is none), and whether it is compiled, which is whether its compiled size is not zero.
\<close>

lemma set_kernel_info_fields:
  assumes "store H \<alpha>" and "\<alpha> d (db_tree pd) = Some m"
    and "api_name prog = Some nm" and "is_str nm" and "is_str (api_loaded_at prog)"
  shows "\<exists>d'. set_kernel_info H pd prog d = (Ok (), d')
    \<and> get_id H pd d' = Ok (api_id prog) \<and> get_kernel_name H pd d' = Ok nm
    \<and> get_kernel_program_type H pd d' = Ok (api_program_type prog)
    \<and> get_kernel_loaded_at H pd d' = Ok (api_loaded_at prog)
    \<and> get_kernel_tag H pd d' = Ok (show_hex (unat (api_tag prog)))
    \<and> get_kernel_gpl_compatible H pd d' = Ok (api_gpl_compatible prog)
    \<and> get_kernel_btf_id H pd d' = Ok (case api_btf_id prog of None \<Rightarrow> 0 | Some n \<Rightarrow> n)
    \<and> get_kernel_bytes_xlated H pd d' = Ok (api_size_translated prog)
    \<and> get_kernel_jited H pd d' = Ok (api_size_jitted prog \<noteq> 0)
    \<and> get_kernel_bytes_jited H pd d' = Ok (api_size_jitted prog)
    \<and> get_kernel_verified_insns H pd d' = Ok (api_verified_insns prog)
    \<and> (\<forall>n. api_memory_locked prog = Inr n \<longrightarrow> get_kernel_bytes_memlock H pd d' = Ok n)"
proof -
  let ?d = "store.wrote_list H (db_tree pd) (kernel_info_kvs H prog nm) d"
  let ?m = "upd_list (kernel_info_kvs H prog nm) m"
  have run: "set_kernel_info H pd prog d = (Ok (), ?d)"
    using store.insert_list_run [OF assms(1), OF assms(2)] assms(3)
    by (simp add: set_kernel_info_list)
  have m: "\<alpha> ?d (db_tree pd) = Some ?m"
    using store.abs_wrote_list [OF assms(1), OF assms(2)] by simp
  note gets = store.get_u32_ok [OF assms(1), OF m] store.get_bool_ok [OF assms(1), OF m]
    store.get_string_ok [OF assms(1), OF m]
  show ?thesis
    by (intro exI [of _ ?d] conjI run allI impI; unfold pd_getter_defs; intro gets)
      (simp_all add: kernel_info_reads assms(4, 5))
qed

definition demo_info :: aya_prog_info where
  "demo_info = \<lparr>api_id = 9, api_name = Some ''pass'', api_program_type = 28,
     api_loaded_at = ''2024-01-01T00:00:00+0000'', api_tag = 0xAB, api_gpl_compatible = True,
     api_btf_id = None, api_size_translated = 96, api_size_jitted = 0, api_verified_insns = 9,
     api_map_ids = Inr [4], api_memory_locked = Inr 4096\<rparr>"

lemma set_kernel_info_fields_witness:
  "\<exists>d'. set_kernel_info ref_host \<lparr>db_tree = ''t''\<rparr> demo_info [(''t'', [])] = (Ok (), d')
    \<and> get_kernel_jited ref_host \<lparr>db_tree = ''t''\<rparr> d' = Ok False
    \<and> get_kernel_btf_id ref_host \<lparr>db_tree = ''t''\<rparr> d' = Ok 0
    \<and> get_kernel_bytes_memlock ref_host \<lparr>db_tree = ''t''\<rparr> d' = Ok 4096"
  using set_kernel_info_fields [OF ref_store, of "[(''t'', [])]" "\<lparr>db_tree = ''t''\<rparr>" "Map.empty"
      demo_info "''pass''"]
  by (auto simp: ref_abs_def demo_info_def)

end
