(* ===== verification/Program_Kinds.thy ===== *)
theory Program_Kinds
  imports Program_Data
begin

text \<open>
  The program kinds of \<open>bpfman/src/types.rs\<close>: the structs that wrap a \<open>ProgramData\<close> with
  the getters and setters of their own keys, the enum \<open>Program\<close> that dispatches on them,
  its reconstruction from a database tree, and the list filter. A method \<open>f\<close> of
  \<open>XdpProgram\<close> is the definition \<open>xdp_f\<close>, and so on for the other kinds.
\<close>


subsection \<open>Programs\<close>

record xdp_program =
  xdp_data :: program_data

record tc_program =
  tc_data :: program_data

record tracepoint_program =
  tracepoint_data :: program_data

record kprobe_program =
  kprobe_data :: program_data

record uprobe_program =
  uprobe_data :: program_data

record fentry_program =
  fentry_data :: program_data

record fexit_program =
  fexit_data :: program_data

datatype program =
    Program_Xdp xdp_program
  | Program_Tc tc_program
  | Program_Tracepoint tracepoint_program
  | Program_Kprobe kprobe_program
  | Program_Uprobe uprobe_program
  | Program_Fentry fentry_program
  | Program_Fexit fexit_program
  | Program_Unsupported program_data

datatype dispatcher_info = DispatcherInfo u32 "direction option"

datatype dispatcher_id = DispatcherId_Xdp dispatcher_info | DispatcherId_Tc dispatcher_info


subsection \<open>XdpProgram\<close>

definition xdp_set_priority :: "'d host \<Rightarrow> xdp_program \<Rightarrow> i32 \<Rightarrow> ('d, bpfman_error, unit) st" where
  "xdp_set_priority H p v = sled_insert H (db_tree (xdp_data p)) XDP_PRIORITY (ne4 H v)"

definition xdp_get_priority :: "'d host \<Rightarrow> xdp_program \<Rightarrow> 'd \<Rightarrow> (bpfman_error, i32) res" where
  "xdp_get_priority H p = (\<lambda>d. bind_res (sled_get H (db_tree (xdp_data p)) XDP_PRIORITY d) (bytes_to_i32 H))"

definition xdp_set_iface :: "'d host \<Rightarrow> xdp_program \<Rightarrow> string \<Rightarrow> ('d, bpfman_error, unit) st" where
  "xdp_set_iface H p v = sled_insert H (db_tree (xdp_data p)) XDP_IFACE (as_bytes v)"

definition xdp_get_iface :: "'d host \<Rightarrow> xdp_program \<Rightarrow> 'd \<Rightarrow> (bpfman_error, string) res" where
  "xdp_get_iface H p = get_string H XDP_IFACE (xdp_data p)"

definition xdp_set_proceed_on ::
  "'d host \<Rightarrow> xdp_program \<Rightarrow> xdp_proceed_on \<Rightarrow> ('d, bpfman_error, unit) st" where
  "xdp_set_proceed_on H p proceed_on = insert_numbered H (db_tree (xdp_data p)) PREFIX_XDP_PROCEED_ON
     (map (ne4 H) (xdp_as_action_vec proceed_on))"

text \<open>A failing item of the scan panics here; an unknown action is a \<open>DatabaseError\<close>.\<close>

definition xdp_entry_of_bytes :: "'d host \<Rightarrow> bytes \<Rightarrow> (bpfman_error, xdp_proceed_on_entry) res" where
  "xdp_entry_of_bytes H v = bind_res (bytes_to_i32 H v) (\<lambda>i.
     map_err (\<lambda>e. DatabaseError ''Failed to get proceed on'' (show_parse_error e)) (xdp_entry_from_i32 i))"

definition xdp_get_proceed_on ::
  "'d host \<Rightarrow> xdp_program \<Rightarrow> 'd \<Rightarrow> (bpfman_error, xdp_proceed_on) res" where
  "xdp_get_proceed_on H p d = ok_map xdp_proceed_on_from_iter (collect_res (map (\<lambda>n. case n of
       Inl e \<Rightarrow> Panic ''unwrap'' | Inr (k, v) \<Rightarrow> xdp_entry_of_bytes H v)
     (db_scan_prefix H (db_tree (xdp_data p)) PREFIX_XDP_PROCEED_ON d)))"

definition xdp_set_current_position :: "'d host \<Rightarrow> xdp_program \<Rightarrow> usize \<Rightarrow> ('d, bpfman_error, unit) st" where
  "xdp_set_current_position H p v = sled_insert H (db_tree (xdp_data p)) XDP_CURRENT_POSITION (ne8 H v)"

definition xdp_get_current_position :: "'d host \<Rightarrow> xdp_program \<Rightarrow> 'd \<Rightarrow> (bpfman_error, usize option) res" where
  "xdp_get_current_position H p = get_opt H (bytes_to_usize H) XDP_CURRENT_POSITION (xdp_data p)"

definition xdp_set_if_index :: "'d host \<Rightarrow> xdp_program \<Rightarrow> u32 \<Rightarrow> ('d, bpfman_error, unit) st" where
  "xdp_set_if_index H p v = sled_insert H (db_tree (xdp_data p)) XDP_IF_INDEX (ne4 H v)"

definition xdp_get_if_index :: "'d host \<Rightarrow> xdp_program \<Rightarrow> 'd \<Rightarrow> (bpfman_error, u32 option) res" where
  "xdp_get_if_index H p = get_opt H (bytes_to_u32 H) XDP_IF_INDEX (xdp_data p)"

definition xdp_set_attached :: "'d host \<Rightarrow> xdp_program \<Rightarrow> bool \<Rightarrow> ('d, bpfman_error, unit) st" where
  "xdp_set_attached H p v = sled_insert H (db_tree (xdp_data p)) XDP_ATTACHED (ne_bool H v)"

definition xdp_get_attached :: "'d host \<Rightarrow> xdp_program \<Rightarrow> 'd \<Rightarrow> (bpfman_error, bool) res" where
  "xdp_get_attached H p = (\<lambda>d. ok_map (\<lambda>b. case b of None \<Rightarrow> False | Some a \<Rightarrow> a)
     (get_opt H (bytes_to_bool H) XDP_ATTACHED (xdp_data p) d))"

definition xdp_new ::
  "'d host \<Rightarrow> program_data \<Rightarrow> i32 \<Rightarrow> string \<Rightarrow> xdp_proceed_on \<Rightarrow> ('d, bpfman_error, xdp_program) st" where
  "xdp_new H data priority iface proceed_on =
     (let p = \<lparr>xdp_data = data\<rparr> in
      then_st (xdp_set_priority H p priority) (
      then_st (xdp_set_iface H p iface) (
      then_st (xdp_set_proceed_on H p proceed_on) (
      then_st (set_kind H (xdp_data p) ProgramType_Xdp) (ret p)))))"


subsection \<open>TcProgram\<close>

definition tc_set_priority :: "'d host \<Rightarrow> tc_program \<Rightarrow> i32 \<Rightarrow> ('d, bpfman_error, unit) st" where
  "tc_set_priority H p v = sled_insert H (db_tree (tc_data p)) TC_PRIORITY (ne4 H v)"

definition tc_get_priority :: "'d host \<Rightarrow> tc_program \<Rightarrow> 'd \<Rightarrow> (bpfman_error, i32) res" where
  "tc_get_priority H p = (\<lambda>d. bind_res (sled_get H (db_tree (tc_data p)) TC_PRIORITY d) (bytes_to_i32 H))"

definition tc_set_iface :: "'d host \<Rightarrow> tc_program \<Rightarrow> string \<Rightarrow> ('d, bpfman_error, unit) st" where
  "tc_set_iface H p v = sled_insert H (db_tree (tc_data p)) TC_IFACE (as_bytes v)"

definition tc_get_iface :: "'d host \<Rightarrow> tc_program \<Rightarrow> 'd \<Rightarrow> (bpfman_error, string) res" where
  "tc_get_iface H p = get_string H TC_IFACE (tc_data p)"

definition tc_set_proceed_on ::
  "'d host \<Rightarrow> tc_program \<Rightarrow> tc_proceed_on \<Rightarrow> ('d, bpfman_error, unit) st" where
  "tc_set_proceed_on H p proceed_on = insert_numbered H (db_tree (tc_data p)) PREFIX_TC_PROCEED_ON
     (map (ne4 H) (tc_as_action_vec proceed_on))"

text \<open>Here an unknown action panics; a failing item of the scan is a \<open>DatabaseError\<close>.\<close>

definition tc_entry_of_bytes :: "'d host \<Rightarrow> bytes \<Rightarrow> (bpfman_error, tc_proceed_on_entry) res" where
  "tc_entry_of_bytes H v = bind_res (bytes_to_i32 H v) (\<lambda>i.
     expect_res ''unwrap'' (tc_entry_from_i32 i))"

definition tc_get_proceed_on ::
  "'d host \<Rightarrow> tc_program \<Rightarrow> 'd \<Rightarrow> (bpfman_error, tc_proceed_on) res" where
  "tc_get_proceed_on H p d = ok_map tc_proceed_on_from_iter
     (scan_values H (db_tree (tc_data p)) PREFIX_TC_PROCEED_ON ''Failed to get proceed on''
       (tc_entry_of_bytes H) d)"

definition tc_set_current_position :: "'d host \<Rightarrow> tc_program \<Rightarrow> usize \<Rightarrow> ('d, bpfman_error, unit) st" where
  "tc_set_current_position H p v = sled_insert H (db_tree (tc_data p)) TC_CURRENT_POSITION (ne8 H v)"

definition tc_get_current_position :: "'d host \<Rightarrow> tc_program \<Rightarrow> 'd \<Rightarrow> (bpfman_error, usize option) res" where
  "tc_get_current_position H p = get_opt H (bytes_to_usize H) TC_CURRENT_POSITION (tc_data p)"

definition tc_set_if_index :: "'d host \<Rightarrow> tc_program \<Rightarrow> u32 \<Rightarrow> ('d, bpfman_error, unit) st" where
  "tc_set_if_index H p v = sled_insert H (db_tree (tc_data p)) TC_IF_INDEX (ne4 H v)"

definition tc_get_if_index :: "'d host \<Rightarrow> tc_program \<Rightarrow> 'd \<Rightarrow> (bpfman_error, u32 option) res" where
  "tc_get_if_index H p = get_opt H (bytes_to_u32 H) TC_IF_INDEX (tc_data p)"

definition tc_set_attached :: "'d host \<Rightarrow> tc_program \<Rightarrow> bool \<Rightarrow> ('d, bpfman_error, unit) st" where
  "tc_set_attached H p v = sled_insert H (db_tree (tc_data p)) TC_ATTACHED (ne_bool H v)"

definition tc_get_attached :: "'d host \<Rightarrow> tc_program \<Rightarrow> 'd \<Rightarrow> (bpfman_error, bool) res" where
  "tc_get_attached H p = (\<lambda>d. ok_map (\<lambda>b. case b of None \<Rightarrow> False | Some a \<Rightarrow> a)
     (get_opt H (bytes_to_bool H) TC_ATTACHED (tc_data p) d))"

definition tc_set_direction :: "'d host \<Rightarrow> tc_program \<Rightarrow> direction \<Rightarrow> ('d, bpfman_error, unit) st" where
  "tc_set_direction H p v = sled_insert H (db_tree (tc_data p)) TC_DIRECTION (as_bytes (show_direction v))"

definition tc_get_direction :: "'d host \<Rightarrow> tc_program \<Rightarrow> 'd \<Rightarrow> (bpfman_error, direction) res" where
  "tc_get_direction H p d = bind_res (get_string H TC_DIRECTION (tc_data p) d)
     (\<lambda>s. expect_res ''unwrap'' (direction_from_string s))"

definition tc_new ::
  "'d host \<Rightarrow> program_data \<Rightarrow> i32 \<Rightarrow> string \<Rightarrow> tc_proceed_on \<Rightarrow> direction \<Rightarrow>
   ('d, bpfman_error, tc_program) st" where
  "tc_new H data priority iface proceed_on direction =
     (let p = \<lparr>tc_data = data\<rparr> in
      then_st (tc_set_priority H p priority) (
      then_st (tc_set_iface H p iface) (
      then_st (tc_set_proceed_on H p proceed_on) (
      then_st (tc_set_direction H p direction) (
      then_st (set_kind H (tc_data p) ProgramType_Tc) (ret p))))))"


subsection \<open>TracepointProgram\<close>

definition tracepoint_set_tracepoint :: "'d host \<Rightarrow> tracepoint_program \<Rightarrow> string \<Rightarrow> ('d, bpfman_error, unit) st" where
  "tracepoint_set_tracepoint H p v = sled_insert H (db_tree (tracepoint_data p)) TRACEPOINT_NAME (as_bytes v)"

definition tracepoint_get_tracepoint :: "'d host \<Rightarrow> tracepoint_program \<Rightarrow> 'd \<Rightarrow> (bpfman_error, string) res" where
  "tracepoint_get_tracepoint H p = get_string H TRACEPOINT_NAME (tracepoint_data p)"

definition tracepoint_new ::
  "'d host \<Rightarrow> program_data \<Rightarrow> string \<Rightarrow> ('d, bpfman_error, tracepoint_program) st" where
  "tracepoint_new H data tracepoint =
     (let p = \<lparr>tracepoint_data = data\<rparr> in
      then_st (tracepoint_set_tracepoint H p tracepoint) (
      then_st (set_kind H (tracepoint_data p) ProgramType_Tracepoint) (ret p)))"


subsection \<open>KprobeProgram\<close>

definition kprobe_set_fn_name :: "'d host \<Rightarrow> kprobe_program \<Rightarrow> string \<Rightarrow> ('d, bpfman_error, unit) st" where
  "kprobe_set_fn_name H p v = sled_insert H (db_tree (kprobe_data p)) KPROBE_FN_NAME (as_bytes v)"

definition kprobe_get_fn_name :: "'d host \<Rightarrow> kprobe_program \<Rightarrow> 'd \<Rightarrow> (bpfman_error, string) res" where
  "kprobe_get_fn_name H p = get_string H KPROBE_FN_NAME (kprobe_data p)"

definition kprobe_set_offset :: "'d host \<Rightarrow> kprobe_program \<Rightarrow> u64 \<Rightarrow> ('d, bpfman_error, unit) st" where
  "kprobe_set_offset H p v = sled_insert H (db_tree (kprobe_data p)) KPROBE_OFFSET (ne8 H v)"

definition kprobe_get_offset :: "'d host \<Rightarrow> kprobe_program \<Rightarrow> 'd \<Rightarrow> (bpfman_error, u64) res" where
  "kprobe_get_offset H p = (\<lambda>d. bind_res (sled_get H (db_tree (kprobe_data p)) KPROBE_OFFSET d) (bytes_to_u64 H))"

definition kprobe_set_retprobe :: "'d host \<Rightarrow> kprobe_program \<Rightarrow> bool \<Rightarrow> ('d, bpfman_error, unit) st" where
  "kprobe_set_retprobe H p v = sled_insert H (db_tree (kprobe_data p)) KPROBE_RETPROBE (ne_bool H v)"

definition kprobe_get_retprobe :: "'d host \<Rightarrow> kprobe_program \<Rightarrow> 'd \<Rightarrow> (bpfman_error, bool) res" where
  "kprobe_get_retprobe H p = (\<lambda>d. ok_map (\<lambda>b. case b of None \<Rightarrow> False | Some a \<Rightarrow> a)
     (get_opt H (bytes_to_bool H) KPROBE_RETPROBE (kprobe_data p) d))"

definition kprobe_set_container_pid :: "'d host \<Rightarrow> kprobe_program \<Rightarrow> i32 \<Rightarrow> ('d, bpfman_error, unit) st" where
  "kprobe_set_container_pid H p v = sled_insert H (db_tree (kprobe_data p)) KPROBE_CONTAINER_PID (ne4 H v)"

definition kprobe_get_container_pid :: "'d host \<Rightarrow> kprobe_program \<Rightarrow> 'd \<Rightarrow> (bpfman_error, i32 option) res" where
  "kprobe_get_container_pid H p = get_opt H (bytes_to_i32 H) KPROBE_CONTAINER_PID (kprobe_data p)"

definition kprobe_new ::
  "'d host \<Rightarrow> program_data \<Rightarrow> string \<Rightarrow> u64 \<Rightarrow> bool \<Rightarrow> i32 option \<Rightarrow>
   ('d, bpfman_error, kprobe_program) st" where
  "kprobe_new H data fn_name offset retprobe container_pid =
     (let p = \<lparr>kprobe_data = data\<rparr> in
      then_st (kprobe_set_fn_name H p fn_name) (
      then_st (kprobe_set_offset H p offset) (
      then_st (kprobe_set_retprobe H p retprobe) (
      then_st (set_kind H (kprobe_data p) ProgramType_Probe) (
      then_st (case container_pid of None \<Rightarrow> ret () | Some c \<Rightarrow> kprobe_set_container_pid H p c)
        (ret p))))))"


subsection \<open>UprobeProgram\<close>

definition uprobe_set_fn_name :: "'d host \<Rightarrow> uprobe_program \<Rightarrow> string \<Rightarrow> ('d, bpfman_error, unit) st" where
  "uprobe_set_fn_name H p v = sled_insert H (db_tree (uprobe_data p)) UPROBE_FN_NAME (as_bytes v)"

definition uprobe_get_fn_name :: "'d host \<Rightarrow> uprobe_program \<Rightarrow> 'd \<Rightarrow> (bpfman_error, string option) res" where
  "uprobe_get_fn_name H p = get_opt H bytes_to_string UPROBE_FN_NAME (uprobe_data p)"

definition uprobe_set_offset :: "'d host \<Rightarrow> uprobe_program \<Rightarrow> u64 \<Rightarrow> ('d, bpfman_error, unit) st" where
  "uprobe_set_offset H p v = sled_insert H (db_tree (uprobe_data p)) UPROBE_OFFSET (ne8 H v)"

definition uprobe_get_offset :: "'d host \<Rightarrow> uprobe_program \<Rightarrow> 'd \<Rightarrow> (bpfman_error, u64) res" where
  "uprobe_get_offset H p = (\<lambda>d. bind_res (sled_get H (db_tree (uprobe_data p)) UPROBE_OFFSET d) (bytes_to_u64 H))"

definition uprobe_set_retprobe :: "'d host \<Rightarrow> uprobe_program \<Rightarrow> bool \<Rightarrow> ('d, bpfman_error, unit) st" where
  "uprobe_set_retprobe H p v = sled_insert H (db_tree (uprobe_data p)) UPROBE_RETPROBE (ne_bool H v)"

definition uprobe_get_retprobe :: "'d host \<Rightarrow> uprobe_program \<Rightarrow> 'd \<Rightarrow> (bpfman_error, bool) res" where
  "uprobe_get_retprobe H p = (\<lambda>d. ok_map (\<lambda>b. case b of None \<Rightarrow> False | Some a \<Rightarrow> a)
     (get_opt H (bytes_to_bool H) UPROBE_RETPROBE (uprobe_data p) d))"

definition uprobe_set_container_pid :: "'d host \<Rightarrow> uprobe_program \<Rightarrow> i32 \<Rightarrow> ('d, bpfman_error, unit) st" where
  "uprobe_set_container_pid H p v = sled_insert H (db_tree (uprobe_data p)) UPROBE_CONTAINER_PID (ne4 H v)"

definition uprobe_get_container_pid :: "'d host \<Rightarrow> uprobe_program \<Rightarrow> 'd \<Rightarrow> (bpfman_error, i32 option) res" where
  "uprobe_get_container_pid H p = get_opt H (bytes_to_i32 H) UPROBE_CONTAINER_PID (uprobe_data p)"

definition uprobe_set_pid :: "'d host \<Rightarrow> uprobe_program \<Rightarrow> i32 \<Rightarrow> ('d, bpfman_error, unit) st" where
  "uprobe_set_pid H p v = sled_insert H (db_tree (uprobe_data p)) UPROBE_PID (ne4 H v)"

definition uprobe_get_pid :: "'d host \<Rightarrow> uprobe_program \<Rightarrow> 'd \<Rightarrow> (bpfman_error, i32 option) res" where
  "uprobe_get_pid H p = get_opt H (bytes_to_i32 H) UPROBE_PID (uprobe_data p)"

definition uprobe_set_target :: "'d host \<Rightarrow> uprobe_program \<Rightarrow> string \<Rightarrow> ('d, bpfman_error, unit) st" where
  "uprobe_set_target H p v = sled_insert H (db_tree (uprobe_data p)) UPROBE_TARGET (as_bytes v)"

definition uprobe_get_target :: "'d host \<Rightarrow> uprobe_program \<Rightarrow> 'd \<Rightarrow> (bpfman_error, string) res" where
  "uprobe_get_target H p = get_string H UPROBE_TARGET (uprobe_data p)"

definition uprobe_new ::
  "'d host \<Rightarrow> program_data \<Rightarrow> string option \<Rightarrow> u64 \<Rightarrow> string \<Rightarrow> bool \<Rightarrow> i32 option \<Rightarrow> i32 option \<Rightarrow>
   ('d, bpfman_error, uprobe_program) st" where
  "uprobe_new H data fn_name offset target retprobe pid container_pid =
     (let p = \<lparr>uprobe_data = data\<rparr> in
      then_st (case fn_name of None \<Rightarrow> ret () | Some f \<Rightarrow> uprobe_set_fn_name H p f) (
      then_st (uprobe_set_offset H p offset) (
      then_st (uprobe_set_retprobe H p retprobe) (
      then_st (case container_pid of None \<Rightarrow> ret () | Some c \<Rightarrow> uprobe_set_container_pid H p c) (
      then_st (case pid of None \<Rightarrow> ret () | Some i \<Rightarrow> uprobe_set_pid H p i) (
      then_st (uprobe_set_target H p target) (
      then_st (set_kind H (uprobe_data p) ProgramType_Probe) (ret p))))))))"


subsection \<open>FentryProgram\<close>

definition fentry_set_fn_name :: "'d host \<Rightarrow> fentry_program \<Rightarrow> string \<Rightarrow> ('d, bpfman_error, unit) st" where
  "fentry_set_fn_name H p v = sled_insert H (db_tree (fentry_data p)) FENTRY_FN_NAME (as_bytes v)"

definition fentry_get_fn_name :: "'d host \<Rightarrow> fentry_program \<Rightarrow> 'd \<Rightarrow> (bpfman_error, string) res" where
  "fentry_get_fn_name H p = get_string H FENTRY_FN_NAME (fentry_data p)"

definition fentry_new ::
  "'d host \<Rightarrow> program_data \<Rightarrow> string \<Rightarrow> ('d, bpfman_error, fentry_program) st" where
  "fentry_new H data fn_name =
     (let p = \<lparr>fentry_data = data\<rparr> in
      then_st (fentry_set_fn_name H p fn_name) (
      then_st (set_kind H (fentry_data p) ProgramType_Tracing) (ret p)))"


subsection \<open>FexitProgram\<close>

definition fexit_set_fn_name :: "'d host \<Rightarrow> fexit_program \<Rightarrow> string \<Rightarrow> ('d, bpfman_error, unit) st" where
  "fexit_set_fn_name H p v = sled_insert H (db_tree (fexit_data p)) FEXIT_FN_NAME (as_bytes v)"

definition fexit_get_fn_name :: "'d host \<Rightarrow> fexit_program \<Rightarrow> 'd \<Rightarrow> (bpfman_error, string) res" where
  "fexit_get_fn_name H p = get_string H FEXIT_FN_NAME (fexit_data p)"

definition fexit_new ::
  "'d host \<Rightarrow> program_data \<Rightarrow> string \<Rightarrow> ('d, bpfman_error, fexit_program) st" where
  "fexit_new H data fn_name =
     (let p = \<lparr>fexit_data = data\<rparr> in
      then_st (fexit_set_fn_name H p fn_name) (
      then_st (set_kind H (fexit_data p) ProgramType_Tracing) (ret p)))"


subsection \<open>Program\<close>

fun program_get_data :: "program \<Rightarrow> program_data" where
  "program_get_data (Program_Xdp p) = xdp_data p"
| "program_get_data (Program_Tc p) = tc_data p"
| "program_get_data (Program_Tracepoint p) = tracepoint_data p"
| "program_get_data (Program_Kprobe p) = kprobe_data p"
| "program_get_data (Program_Uprobe p) = uprobe_data p"
| "program_get_data (Program_Fentry p) = fentry_data p"
| "program_get_data (Program_Fexit p) = fexit_data p"
| "program_get_data (Program_Unsupported p) = p"

text \<open>\<open>get_data_mut\<close> gives a reference; assigning through it is this update.\<close>

fun program_set_data :: "program_data \<Rightarrow> program \<Rightarrow> program" where
  "program_set_data d (Program_Xdp p) = Program_Xdp \<lparr>xdp_data = d\<rparr>"
| "program_set_data d (Program_Tc p) = Program_Tc \<lparr>tc_data = d\<rparr>"
| "program_set_data d (Program_Tracepoint p) = Program_Tracepoint \<lparr>tracepoint_data = d\<rparr>"
| "program_set_data d (Program_Kprobe p) = Program_Kprobe \<lparr>kprobe_data = d\<rparr>"
| "program_set_data d (Program_Uprobe p) = Program_Uprobe \<lparr>uprobe_data = d\<rparr>"
| "program_set_data d (Program_Fentry p) = Program_Fentry \<lparr>fentry_data = d\<rparr>"
| "program_set_data d (Program_Fexit p) = Program_Fexit \<lparr>fexit_data = d\<rparr>"
| "program_set_data d (Program_Unsupported p) = Program_Unsupported d"

fun program_kind :: "'d host \<Rightarrow> program \<Rightarrow> 'd \<Rightarrow> ('e, program_type) res" where
  "program_kind H (Program_Xdp p) d = Ok ProgramType_Xdp"
| "program_kind H (Program_Tc p) d = Ok ProgramType_Tc"
| "program_kind H (Program_Tracepoint p) d = Ok ProgramType_Tracepoint"
| "program_kind H (Program_Kprobe p) d = Ok ProgramType_Probe"
| "program_kind H (Program_Uprobe p) d = Ok ProgramType_Probe"
| "program_kind H (Program_Fentry p) d = Ok ProgramType_Tracing"
| "program_kind H (Program_Fexit p) d = Ok ProgramType_Tracing"
| "program_kind H (Program_Unsupported i) d =
     bind_res (expect_res ''unwrap'' (get_kernel_program_type H i d))
       (\<lambda>t. expect_res ''unwrap'' (program_type_from_u32 t))"

fun program_dispatcher_id ::
  "'d host \<Rightarrow> program \<Rightarrow> 'd \<Rightarrow> (bpfman_error, dispatcher_id option) res" where
  "program_dispatcher_id H (Program_Xdp p) d =
     bind_res (xdp_get_if_index H p d) (\<lambda>i.
     bind_res (expect_opt ''if_index should be known at this point'' i) (\<lambda>n.
     Ok (Some (DispatcherId_Xdp (DispatcherInfo n None)))))"
| "program_dispatcher_id H (Program_Tc p) d =
     bind_res (tc_get_if_index H p d) (\<lambda>i.
     bind_res (expect_opt ''if_index should be known at this point'' i) (\<lambda>n.
     bind_res (tc_get_direction H p d) (\<lambda>dir.
     Ok (Some (DispatcherId_Tc (DispatcherInfo n (Some dir)))))))"
| "program_dispatcher_id H _ d = Ok None"

fun program_attached :: "'d host \<Rightarrow> program \<Rightarrow> 'd \<Rightarrow> ('e, bool) res" where
  "program_attached H (Program_Xdp p) d = expect_res ''unwrap'' (xdp_get_attached H p d)"
| "program_attached H (Program_Tc p) d = expect_res ''unwrap'' (tc_get_attached H p d)"
| "program_attached H _ d = Ok False"

fun program_set_attached :: "'d host \<Rightarrow> program \<Rightarrow> ('d, 'e, unit) st" where
  "program_set_attached H (Program_Xdp p) = expect_st ''unwrap'' (xdp_set_attached H p True)"
| "program_set_attached H (Program_Tc p) = expect_st ''unwrap'' (tc_set_attached H p True)"
| "program_set_attached H _ = ret ()"

fun program_set_position :: "'d host \<Rightarrow> program \<Rightarrow> usize \<Rightarrow> ('d, bpfman_error, unit) st" where
  "program_set_position H (Program_Xdp p) pos = xdp_set_current_position H p pos"
| "program_set_position H (Program_Tc p) pos = tc_set_current_position H p pos"
| "program_set_position H _ pos =
     throw (Error ''cannot set position on programs other than TC or XDP'')"

fun program_if_index :: "'d host \<Rightarrow> program \<Rightarrow> 'd \<Rightarrow> (bpfman_error, u32 option) res" where
  "program_if_index H (Program_Xdp p) d = xdp_get_if_index H p d"
| "program_if_index H (Program_Tc p) d = tc_get_if_index H p d"
| "program_if_index H _ d = Err (Error ''cannot get if_index on programs other than TC or XDP'')"

fun program_set_if_index :: "'d host \<Rightarrow> program \<Rightarrow> u32 \<Rightarrow> ('d, bpfman_error, unit) st" where
  "program_set_if_index H (Program_Xdp p) i = xdp_set_if_index H p i"
| "program_set_if_index H (Program_Tc p) i = tc_set_if_index H p i"
| "program_set_if_index H _ i =
     throw (Error ''cannot set if_index on programs other than TC or XDP'')"

fun program_if_name :: "'d host \<Rightarrow> program \<Rightarrow> 'd \<Rightarrow> (bpfman_error, string) res" where
  "program_if_name H (Program_Xdp p) d = xdp_get_iface H p d"
| "program_if_name H (Program_Tc p) d = tc_get_iface H p d"
| "program_if_name H _ d = Err (Error ''cannot get interface on programs other than TC or XDP'')"

fun program_priority :: "'d host \<Rightarrow> program \<Rightarrow> 'd \<Rightarrow> (bpfman_error, i32) res" where
  "program_priority H (Program_Xdp p) d = xdp_get_priority H p d"
| "program_priority H (Program_Tc p) d = tc_get_priority H p d"
| "program_priority H _ d = Err (Error ''cannot get priority on programs other than TC or XDP'')"

fun program_direction :: "'d host \<Rightarrow> program \<Rightarrow> 'd \<Rightarrow> (bpfman_error, direction option) res" where
  "program_direction H (Program_Tc p) d = ok_map Some (tc_get_direction H p d)"
| "program_direction H _ d = Ok None"

text \<open>\<open>db_tree.get(key).unwrap().is_some()\<close>.\<close>

definition has_key :: "'d host \<Rightarrow> string \<Rightarrow> program_data \<Rightarrow> 'd \<Rightarrow> ('e, bool) res" where
  "has_key H key data d = (case db_get H (db_tree data) key d of
     Inl e \<Rightarrow> Panic ''unwrap'' | Inr v \<Rightarrow> Ok (v \<noteq> None))"

definition new_from_db :: "'d host \<Rightarrow> u32 \<Rightarrow> string \<Rightarrow> 'd \<Rightarrow> (bpfman_error, program) res" where
  "new_from_db H i t d =
     (let data = new_empty t in
      bind_res (get_id H data d) (\<lambda>i'.
      if i' \<noteq> i
      then Err (Error ''Program id does not match database id program isn't fully loaded'')
      else bind_res (get_kind H data d) (\<lambda>kind.
        case kind of
          Some ProgramType_Xdp \<Rightarrow> Ok (Program_Xdp \<lparr>xdp_data = data\<rparr>)
        | Some ProgramType_Tc \<Rightarrow> Ok (Program_Tc \<lparr>tc_data = data\<rparr>)
        | Some ProgramType_Tracepoint \<Rightarrow> Ok (Program_Tracepoint \<lparr>tracepoint_data = data\<rparr>)
        | Some ProgramType_Probe \<Rightarrow> bind_res (has_key H UPROBE_OFFSET data d) (\<lambda>u.
            if u then Ok (Program_Uprobe \<lparr>uprobe_data = data\<rparr>)
            else Ok (Program_Kprobe \<lparr>kprobe_data = data\<rparr>))
        | Some ProgramType_Tracing \<Rightarrow> bind_res (has_key H FENTRY_FN_NAME data d) (\<lambda>f.
            if f then Ok (Program_Fentry \<lparr>fentry_data = data\<rparr>)
            else Ok (Program_Fexit \<lparr>fexit_data = data\<rparr>))
        | _ \<Rightarrow> Err (Error ''Unsupported program type''))))"


subsection \<open>ListFilter\<close>

record list_filter =
  lf_program_type :: "u32 option"
  metadata_selector :: "(string, string) hashmap"
  bpfman_programs_only :: bool

fun selector_matches ::
  "'d host \<Rightarrow> program_data \<Rightarrow> 'd \<Rightarrow> (string, string) hashmap \<Rightarrow> ('e, bool) res" where
  "selector_matches H data d [] = Ok True"
| "selector_matches H data d ((key, v) # rest) = (case get_metadata H data d of
     Panic p \<Rightarrow> Panic p
   | Err e \<Rightarrow> Ok False
   | Ok metadata \<Rightarrow> (case map_of metadata key of
       None \<Rightarrow> Ok False
     | Some v' \<Rightarrow> if v \<noteq> v' then Ok False else selector_matches H data d rest))"

definition list_filter_matches ::
  "'d host \<Rightarrow> list_filter \<Rightarrow> program \<Rightarrow> 'd \<Rightarrow> ('e, bool) res" where
  "list_filter_matches H lf program d = (case program of
     Program_Unsupported data \<Rightarrow>
       if bpfman_programs_only lf then Ok False
       else (case lf_program_type lf of
           None \<Rightarrow> Ok (metadata_selector lf = [])
         | Some prog_type \<Rightarrow> (case get_kernel_program_type H data d of
             Panic p \<Rightarrow> Panic p
           | Err e \<Rightarrow> Ok False
           | Ok kernel_prog_type \<Rightarrow>
               if kernel_prog_type \<noteq> prog_type then Ok False else Ok (metadata_selector lf = [])))
   | _ \<Rightarrow> bind_res (program_kind H program d) (\<lambda>kind.
       case lf_program_type lf of
         None \<Rightarrow> selector_matches H (program_get_data program) d (metadata_selector lf)
       | Some prog_type \<Rightarrow>
           if program_type_to_u32 kind \<noteq> prog_type then Ok False
           else selector_matches H (program_get_data program) d (metadata_selector lf)))"


subsection \<open>What a constructor writes\<close>

definition proceed_kvs :: "'d host \<Rightarrow> string \<Rightarrow> i32 list \<Rightarrow> (string \<times> bytes) list" where
  "proceed_kvs H p xs =
     map (\<lambda>iv. (p @ show_nat (fst iv), snd iv)) (List.enumerate 0 (map (ne4 H) xs))"

definition xdp_kvs :: "'d host \<Rightarrow> i32 \<Rightarrow> string \<Rightarrow> xdp_proceed_on \<Rightarrow> (string \<times> bytes) list" where
  "xdp_kvs H pr ifc po = [(XDP_PRIORITY, ne4 H pr), (XDP_IFACE, as_bytes ifc)]
     @ proceed_kvs H PREFIX_XDP_PROCEED_ON (xdp_as_action_vec po)
     @ [(KIND, ne4 H (program_type_to_u32 ProgramType_Xdp))]"

definition tc_kvs ::
  "'d host \<Rightarrow> i32 \<Rightarrow> string \<Rightarrow> tc_proceed_on \<Rightarrow> direction \<Rightarrow> (string \<times> bytes) list" where
  "tc_kvs H pr ifc po dir = [(TC_PRIORITY, ne4 H pr), (TC_IFACE, as_bytes ifc)]
     @ proceed_kvs H PREFIX_TC_PROCEED_ON (tc_as_action_vec po)
     @ [(TC_DIRECTION, as_bytes (show_direction dir)),
        (KIND, ne4 H (program_type_to_u32 ProgramType_Tc))]"

definition kprobe_kvs ::
  "'d host \<Rightarrow> string \<Rightarrow> u64 \<Rightarrow> bool \<Rightarrow> i32 option \<Rightarrow> (string \<times> bytes) list" where
  "kprobe_kvs H fn off rp cpid = [(KPROBE_FN_NAME, as_bytes fn), (KPROBE_OFFSET, ne8 H off),
      (KPROBE_RETPROBE, ne_bool H rp), (KIND, ne4 H (program_type_to_u32 ProgramType_Probe))]
     @ (case cpid of None \<Rightarrow> [] | Some c \<Rightarrow> [(KPROBE_CONTAINER_PID, ne4 H c)])"

definition uprobe_kvs ::
  "'d host \<Rightarrow> string option \<Rightarrow> u64 \<Rightarrow> string \<Rightarrow> bool \<Rightarrow> i32 option \<Rightarrow> i32 option \<Rightarrow>
   (string \<times> bytes) list" where
  "uprobe_kvs H fn off target rp pid cpid =
     (case fn of None \<Rightarrow> [] | Some f \<Rightarrow> [(UPROBE_FN_NAME, as_bytes f)])
     @ [(UPROBE_OFFSET, ne8 H off), (UPROBE_RETPROBE, ne_bool H rp)]
     @ (case cpid of None \<Rightarrow> [] | Some c \<Rightarrow> [(UPROBE_CONTAINER_PID, ne4 H c)])
     @ (case pid of None \<Rightarrow> [] | Some i \<Rightarrow> [(UPROBE_PID, ne4 H i)])
     @ [(UPROBE_TARGET, as_bytes target), (KIND, ne4 H (program_type_to_u32 ProgramType_Probe))]"

definition one_string_kvs :: "'d host \<Rightarrow> string \<Rightarrow> string \<Rightarrow> program_type \<Rightarrow> (string \<times> bytes) list" where
  "one_string_kvs H key v kind = [(key, as_bytes v), (KIND, ne4 H (program_type_to_u32 kind))]"

lemmas kvs_defs = xdp_kvs_def tc_kvs_def kprobe_kvs_def uprobe_kvs_def one_string_kvs_def

lemma xdp_new_list: "xdp_new H data pr ifc po =
    then_st (insert_list H (db_tree data) (xdp_kvs H pr ifc po)) (ret \<lparr>xdp_data = data\<rparr>)"
  by (simp add: xdp_new_def Let_def xdp_set_priority_def xdp_set_iface_def xdp_set_proceed_on_def
      set_kind_def insert_numbered_list to_insert_list xdp_kvs_def proceed_kvs_def)

lemma tc_new_list: "tc_new H data pr ifc po dir =
    then_st (insert_list H (db_tree data) (tc_kvs H pr ifc po dir)) (ret \<lparr>tc_data = data\<rparr>)"
  by (simp add: tc_new_def Let_def tc_set_priority_def tc_set_iface_def tc_set_proceed_on_def
      tc_set_direction_def set_kind_def insert_numbered_list to_insert_list tc_kvs_def proceed_kvs_def)

lemma kprobe_new_list: "kprobe_new H data fn off rp cpid =
    then_st (insert_list H (db_tree data) (kprobe_kvs H fn off rp cpid)) (ret \<lparr>kprobe_data = data\<rparr>)"
  by (cases cpid) (simp_all add: kprobe_new_def Let_def kprobe_set_fn_name_def kprobe_set_offset_def
      kprobe_set_retprobe_def kprobe_set_container_pid_def set_kind_def to_insert_list kprobe_kvs_def)

lemma uprobe_new_list: "uprobe_new H data fn off target rp pid cpid =
    then_st (insert_list H (db_tree data) (uprobe_kvs H fn off target rp pid cpid))
      (ret \<lparr>uprobe_data = data\<rparr>)"
  by (cases fn; cases pid; cases cpid)
    (simp_all add: uprobe_new_def Let_def uprobe_set_fn_name_def uprobe_set_offset_def
      uprobe_set_retprobe_def uprobe_set_container_pid_def uprobe_set_pid_def uprobe_set_target_def
      set_kind_def to_insert_list uprobe_kvs_def)

lemma one_string_new_list:
  "tracepoint_new H data v = then_st (insert_list H (db_tree data)
     (one_string_kvs H TRACEPOINT_NAME v ProgramType_Tracepoint)) (ret \<lparr>tracepoint_data = data\<rparr>)"
  "fentry_new H data v = then_st (insert_list H (db_tree data)
     (one_string_kvs H FENTRY_FN_NAME v ProgramType_Tracing)) (ret \<lparr>fentry_data = data\<rparr>)"
  "fexit_new H data v = then_st (insert_list H (db_tree data)
     (one_string_kvs H FEXIT_FN_NAME v ProgramType_Tracing)) (ret \<lparr>fexit_data = data\<rparr>)"
  by (simp_all add: tracepoint_new_def fentry_new_def fexit_new_def Let_def fentry_set_fn_name_def
      tracepoint_set_tracepoint_def fexit_set_fn_name_def set_kind_def to_insert_list one_string_kvs_def)

lemma upd_proceed [simp]: "\<not> prefix p k \<Longrightarrow> upd_list (proceed_kvs H p xs) m k = m k"
  by (simp add: proceed_kvs_def upd_list_numbered map_add_def numbered_None)

lemma upd_opt [simp]:
  "upd_list (case x of None \<Rightarrow> [] | Some a \<Rightarrow> [(k, f a)]) m = opt_upd k (map_option f x) m"
  by (cases x) auto

lemma program_type_bytes [simp]:
  "opt_res (\<lambda>v. bind_res (bytes_to_u32 H v) (\<lambda>n. expect_res ''unwrap'' (program_type_from_u32 n)))
     (Some (ne4 H (program_type_to_u32 t))) = Ok (Some t)"
  by (simp add: program_type_u32_roundtrip)

text \<open>What \<open>new_from_db\<close> makes of a tree with a given kind entry.\<close>

definition program_of_kind :: "program_type \<Rightarrow> string \<Rightarrow> tree \<Rightarrow> (bpfman_error, program) res" where
  "program_of_kind kind t m = (case kind of
      ProgramType_Xdp \<Rightarrow> Ok (Program_Xdp \<lparr>xdp_data = \<lparr>db_tree = t\<rparr>\<rparr>)
    | ProgramType_Tc \<Rightarrow> Ok (Program_Tc \<lparr>tc_data = \<lparr>db_tree = t\<rparr>\<rparr>)
    | ProgramType_Tracepoint \<Rightarrow> Ok (Program_Tracepoint \<lparr>tracepoint_data = \<lparr>db_tree = t\<rparr>\<rparr>)
    | ProgramType_Probe \<Rightarrow> (if m UPROBE_OFFSET \<noteq> None
        then Ok (Program_Uprobe \<lparr>uprobe_data = \<lparr>db_tree = t\<rparr>\<rparr>)
        else Ok (Program_Kprobe \<lparr>kprobe_data = \<lparr>db_tree = t\<rparr>\<rparr>))
    | ProgramType_Tracing \<Rightarrow> (if m FENTRY_FN_NAME \<noteq> None
        then Ok (Program_Fentry \<lparr>fentry_data = \<lparr>db_tree = t\<rparr>\<rparr>)
        else Ok (Program_Fexit \<lparr>fexit_data = \<lparr>db_tree = t\<rparr>\<rparr>))
    | _ \<Rightarrow> Err (Error ''Unsupported program type''))"

context store
begin

lemma new_list_run:
  "\<alpha> d t = Some m \<Longrightarrow> then_st (insert_list H t kvs) (ret p) d = (Ok p, wrote_list t kvs d)"
  by (simp add: then_st_def bind_st_def)

lemma has_key_ok [simp]:
  "\<alpha> d (db_tree data) = Some m \<Longrightarrow> has_key H k data d = Ok (m k \<noteq> None)"
  by (simp add: has_key_def)

lemma new_from_db_kind:
  assumes "\<alpha> d t = Some m" and "m ID = Some (ne4 H i)"
    and "m KIND = Some (ne4 H (program_type_to_u32 kind))"
  shows "new_from_db H i t d = program_of_kind kind t m"
proof -
  have "get_id H (new_empty t) d = Ok i" and "get_kind H (new_empty t) d = Ok (Some kind)"
    using assms by (simp_all add: get_id_def get_kind_def new_empty_def del: opt_res.simps)
  then show ?thesis
    using assms by (cases kind) (simp_all add: new_from_db_def new_empty_def program_of_kind_def)
qed

end


subsection \<open>Reading a proceed-on list back\<close>

sublocale store \<subseteq> xdp_po: db_vector H \<alpha> PREFIX_XDP_PROCEED_ON
  "\<lambda>e. ne4 H (xdp_entry_to_i32 e)" "xdp_entry_of_bytes H"
  by unfold_locales (simp add: xdp_entry_of_bytes_def)

sublocale store \<subseteq> tc_po: db_vector H \<alpha> PREFIX_TC_PROCEED_ON
  "\<lambda>e. ne4 H (tc_entry_to_i32 e)" "tc_entry_of_bytes H"
  by unfold_locales (simp add: tc_entry_of_bytes_def)

lemma xdp_from_iter_set:
  assumes "mset xs = mset ys"
  shows "set (xdp_proceed_on_from_iter xs) = set (xdp_proceed_on_from_iter ys)"
proof -
  have "xs = [] \<longleftrightarrow> ys = []" using assms by (metis mset_zero_iff)
  then show ?thesis using mset_eq_setD [OF assms] by (simp add: xdp_proceed_on_from_iter_def)
qed

lemma tc_from_iter_set:
  assumes "mset xs = mset ys"
  shows "set (tc_proceed_on_from_iter xs) = set (tc_proceed_on_from_iter ys)"
proof -
  have "xs = [] \<longleftrightarrow> ys = []" using assms by (metis mset_zero_iff)
  then show ?thesis using mset_eq_setD [OF assms] by (simp add: tc_proceed_on_from_iter_def)
qed

text \<open>
  The mask depends on the set of entries only, so the order in which a list is read back
  does not matter to the dispatcher.
\<close>

lemma xdp_mask_set: "set xs = set ys \<Longrightarrow> xdp_mask xs = xdp_mask ys"
  by (rule bit_word_eqI) (simp add: xdp_mask_bit)

lemma tc_mask_set: "set xs = set ys \<Longrightarrow> tc_mask xs = tc_mask ys"
  by (rule bit_word_eqI) (simp add: tc_mask_bit)

context store
begin

lemma xdp_get_proceed_on_scan:
  "\<alpha> d (db_tree (xdp_data p)) = Some m \<Longrightarrow> xdp_get_proceed_on H p d =
     ok_map xdp_proceed_on_from_iter (scan_values H (db_tree (xdp_data p)) PREFIX_XDP_PROCEED_ON
       msg (xdp_entry_of_bytes H) d)"
  by (simp add: xdp_get_proceed_on_def scan_values_ok comp_def case_prod_beta)

lemma xdp_proceed_on_read:
  assumes "\<alpha> d (db_tree (xdp_data p)) = Some (m ++ numbered PREFIX_XDP_PROCEED_ON
      (map (ne4 H) (xdp_as_action_vec po)))"
    and "\<And>k. prefix PREFIX_XDP_PROCEED_ON k \<Longrightarrow> m k = None"
  shows "\<exists>po'. xdp_get_proceed_on H p d = Ok po' \<and> set po' = set (xdp_proceed_on_from_iter po)
    \<and> (length po \<le> 10 \<longrightarrow> po' = xdp_proceed_on_from_iter po)"
proof -
  have vs: "map (ne4 H) (xdp_as_action_vec po) = map (\<lambda>e. ne4 H (xdp_entry_to_i32 e)) po"
    by (simp add: xdp_as_action_vec_def)
  note m = assms(1) [unfolded vs]
  have "\<exists>po'. scan_values H (db_tree (xdp_data p)) PREFIX_XDP_PROCEED_ON [] (xdp_entry_of_bytes H) d =
      Ok po' \<and> mset po' = mset po"
    by (rule xdp_po.read_mset [OF m]) (rule mset_entries_numbered [OF assms(2)])
  then obtain po' where po': "scan_values H (db_tree (xdp_data p)) PREFIX_XDP_PROCEED_ON []
      (xdp_entry_of_bytes H) d = Ok po'" and mset: "mset po' = mset po" by blast
  have exact: "po' = po" if "length po \<le> 10"
  proof -
    have "scan_values H (db_tree (xdp_data p)) PREFIX_XDP_PROCEED_ON [] (xdp_entry_of_bytes H) d = Ok po"
      by (rule xdp_po.read_list [OF m], rule entries_numbered [OF _ assms(2)]) (use that in simp)
    with po' show ?thesis by simp
  qed
  have "set (xdp_proceed_on_from_iter po') = set (xdp_proceed_on_from_iter po)"
    by (rule xdp_from_iter_set [OF mset])
  with po' exact show ?thesis by (simp add: xdp_get_proceed_on_scan [OF assms(1), of "[]"])
qed

lemma tc_proceed_on_read:
  assumes "\<alpha> d (db_tree (tc_data p)) = Some (m ++ numbered PREFIX_TC_PROCEED_ON
      (map (ne4 H) (tc_as_action_vec po)))"
    and "\<And>k. prefix PREFIX_TC_PROCEED_ON k \<Longrightarrow> m k = None"
  shows "\<exists>po'. tc_get_proceed_on H p d = Ok po' \<and> set po' = set (tc_proceed_on_from_iter po)
    \<and> (length po \<le> 10 \<longrightarrow> po' = tc_proceed_on_from_iter po)"
proof -
  have vs: "map (ne4 H) (tc_as_action_vec po) = map (\<lambda>e. ne4 H (tc_entry_to_i32 e)) po"
    by (simp add: tc_as_action_vec_def)
  note m = assms(1) [unfolded vs]
  let ?msg = "''Failed to get proceed on''"
  have "\<exists>po'. scan_values H (db_tree (tc_data p)) PREFIX_TC_PROCEED_ON ?msg (tc_entry_of_bytes H) d =
      Ok po' \<and> mset po' = mset po"
    by (rule tc_po.read_mset [OF m]) (rule mset_entries_numbered [OF assms(2)])
  then obtain po' where po': "scan_values H (db_tree (tc_data p)) PREFIX_TC_PROCEED_ON ?msg
      (tc_entry_of_bytes H) d = Ok po'" and mset: "mset po' = mset po" by blast
  have exact: "po' = po" if "length po \<le> 10"
  proof -
    have "scan_values H (db_tree (tc_data p)) PREFIX_TC_PROCEED_ON ?msg (tc_entry_of_bytes H) d = Ok po"
      by (rule tc_po.read_list [OF m], rule entries_numbered [OF _ assms(2)]) (use that in simp)
    with po' show ?thesis by simp
  qed
  have "set (tc_proceed_on_from_iter po') = set (tc_proceed_on_from_iter po)"
    by (rule tc_from_iter_set [OF mset])
  with po' exact show ?thesis by (simp add: tc_get_proceed_on_def)
qed

lemma recovered:
  assumes "\<alpha> d (db_tree pd) = Some m" and "m ID = Some (ne4 H i)"
    and "upd_list kvs m ID = m ID" and "upd_list kvs m KIND = Some (ne4 H (program_type_to_u32 kind))"
    and "program_of_kind kind (db_tree pd) (upd_list kvs m) = Ok (C p)"
  shows "\<exists>p' d'. then_st (insert_list H (db_tree pd) kvs) (ret p) d = (Ok p', d')
    \<and> new_from_db H i (db_tree pd) d' = Ok (C p')"
proof -
  have "new_from_db H i (db_tree pd) (wrote_list (db_tree pd) kvs d) =
      program_of_kind kind (db_tree pd) (upd_list kvs m)"
    by (rule new_from_db_kind) (use assms(1-4) in simp_all)
  with new_list_run [OF assms(1), of kvs p] assms(5) show ?thesis by simp
qed

end


subsection \<open>Properties of the program kinds\<close>

text \<open>
  C19: the kind of a program survives the database: for each of the seven kinds, the program
  that \<open>new_from_db\<close> rebuilds from the tree its constructor filled is the program the
  constructor returned. Kprobe and uprobe, and fentry and fexit, are told apart by
  the keys they do not share.
\<close>

theorem new_from_db_recovers_kind:
  assumes st: "store H \<alpha>" and m: "\<alpha> d (db_tree pd) = Some m" and i: "m ID = Some (ne4 H i)"
    and none: "m UPROBE_OFFSET = None" "m FENTRY_FN_NAME = None"
  shows "(\<exists>p d'. xdp_new H pd pr ifc xpo d = (Ok p, d')
        \<and> new_from_db H i (db_tree pd) d' = Ok (Program_Xdp p))
    \<and> (\<exists>p d'. tc_new H pd pr ifc tpo dir d = (Ok p, d')
        \<and> new_from_db H i (db_tree pd) d' = Ok (Program_Tc p))
    \<and> (\<exists>p d'. tracepoint_new H pd name d = (Ok p, d')
        \<and> new_from_db H i (db_tree pd) d' = Ok (Program_Tracepoint p))
    \<and> (\<exists>p d'. kprobe_new H pd name off rp cpid d = (Ok p, d')
        \<and> new_from_db H i (db_tree pd) d' = Ok (Program_Kprobe p))
    \<and> (\<exists>p d'. uprobe_new H pd fn off target rp pid cpid d = (Ok p, d')
        \<and> new_from_db H i (db_tree pd) d' = Ok (Program_Uprobe p))
    \<and> (\<exists>p d'. fentry_new H pd name d = (Ok p, d')
        \<and> new_from_db H i (db_tree pd) d' = Ok (Program_Fentry p))
    \<and> (\<exists>p d'. fexit_new H pd name d = (Ok p, d')
        \<and> new_from_db H i (db_tree pd) d' = Ok (Program_Fexit p))"
  unfolding xdp_new_list tc_new_list kprobe_new_list uprobe_new_list one_string_new_list
proof (intro conjI, goal_cases)
  case 1
  show ?case
    by (rule store.recovered [OF st, OF m i, where kind = ProgramType_Xdp and C = Program_Xdp])
      (simp_all add: kvs_defs none program_of_kind_def)
next
  case 2
  show ?case
    by (rule store.recovered [OF st, OF m i, where kind = ProgramType_Tc and C = Program_Tc])
      (simp_all add: kvs_defs none program_of_kind_def)
next
  case 3
  show ?case
    by (rule store.recovered [OF st, OF m i, where kind = ProgramType_Tracepoint and C = Program_Tracepoint])
      (simp_all add: kvs_defs none program_of_kind_def)
next
  case 4
  show ?case
    by (rule store.recovered [OF st, OF m i, where kind = ProgramType_Probe and C = Program_Kprobe])
      (simp_all add: kvs_defs none program_of_kind_def)
next
  case 5
  show ?case
    by (rule store.recovered [OF st, OF m i, where kind = ProgramType_Probe and C = Program_Uprobe])
      (simp_all add: kvs_defs none program_of_kind_def)
next
  case 6
  show ?case
    by (rule store.recovered [OF st, OF m i, where kind = ProgramType_Tracing and C = Program_Fentry])
      (simp_all add: kvs_defs none program_of_kind_def)
next
  case 7
  show ?case
    by (rule store.recovered [OF st, OF m i, where kind = ProgramType_Tracing and C = Program_Fexit])
      (simp_all add: kvs_defs none program_of_kind_def)
qed

theorem new_from_db_recovers_kind_witness:
  "\<exists>p d'. fexit_new ref_host \<lparr>db_tree = ''t''\<rparr> ''do_unlinkat'' [(''t'', [(ID, ne4 ref_host 5)])] = (Ok p, d')
    \<and> new_from_db ref_host 5 (db_tree \<lparr>db_tree = ''t''\<rparr>) d' = Ok (Program_Fexit p)"
  using new_from_db_recovers_kind [OF ref_store, of "[(''t'', [(ID, ne4 ref_host 5)])]"
      "\<lparr>db_tree = ''t''\<rparr>" "[ID \<mapsto> ne4 ref_host 5]" 5]
  by (simp add: ref_abs_def)

text \<open>
  An XDP program keeps what it was created with: priority, interface, and its
  proceed-on actions, the default ones when the list is empty. Up to ten actions are read
  back in order; the mask the dispatcher gets is that of the list in every case.
\<close>

lemma xdp_new_fields:
  assumes "store H \<alpha>" and "\<alpha> d (db_tree pd) = Some m" and "is_str ifc"
    and "\<forall>k. prefix PREFIX_XDP_PROCEED_ON k \<longrightarrow> m k = None"
  shows "\<exists>p d' po'. xdp_new H pd pr ifc po d = (Ok p, d') \<and> xdp_data p = pd
    \<and> xdp_get_priority H p d' = Ok pr \<and> xdp_get_iface H p d' = Ok ifc
    \<and> xdp_get_attached H p d' = xdp_get_attached H p d
    \<and> xdp_get_proceed_on H p d' = Ok po' \<and> xdp_mask po' = xdp_mask (xdp_proceed_on_from_iter po)
    \<and> (length po \<le> 10 \<longrightarrow> po' = xdp_proceed_on_from_iter po)"
proof -
  let ?p = "\<lparr>xdp_data = pd\<rparr>" and ?kvs = "xdp_kvs H pr ifc po"
  let ?d = "store.wrote_list H (db_tree pd) ?kvs d"
  let ?base = "m(XDP_PRIORITY \<mapsto> ne4 H pr, XDP_IFACE \<mapsto> as_bytes ifc,
    KIND \<mapsto> ne4 H (program_type_to_u32 ProgramType_Xdp))"
  have run: "xdp_new H pd pr ifc po d = (Ok ?p, ?d)"
    by (simp add: xdp_new_list store.new_list_run [OF assms(1), OF assms(2)])
  have upd: "upd_list ?kvs m =
      ?base ++ numbered PREFIX_XDP_PROCEED_ON (map (ne4 H) (xdp_as_action_vec po))"
    by (simp add: xdp_kvs_def proceed_kvs_def upd_list_numbered numbered_None map_add_upd_left domIff
        del: program_type_to_u32.simps)
  have m: "\<alpha> ?d (db_tree (xdp_data ?p)) = Some (?base ++
      numbered PREFIX_XDP_PROCEED_ON (map (ne4 H) (xdp_as_action_vec po)))"
    using store.abs_wrote_list [OF assms(1), OF assms(2), of ?kvs] upd by simp
  have "\<exists>po'. xdp_get_proceed_on H ?p ?d = Ok po' \<and> set po' = set (xdp_proceed_on_from_iter po)
      \<and> (length po \<le> 10 \<longrightarrow> po' = xdp_proceed_on_from_iter po)"
    by (rule store.xdp_proceed_on_read [OF assms(1), OF m]) (use assms(4) in auto)
  then obtain po' where po': "xdp_get_proceed_on H ?p ?d = Ok po'"
    "xdp_mask po' = xdp_mask (xdp_proceed_on_from_iter po)"
    "length po \<le> 10 \<longrightarrow> po' = xdp_proceed_on_from_iter po"
    using xdp_mask_set by metis
  have "xdp_get_priority H ?p ?d = Ok pr" "xdp_get_iface H ?p ?d = Ok ifc"
    "xdp_get_attached H ?p ?d = xdp_get_attached H ?p d"
    using m assms(2, 3)
    by (simp_all add: xdp_get_priority_def xdp_get_iface_def xdp_get_attached_def map_add_def
        numbered_None store.sled_get_ok [OF assms(1)] store.get_string_ok [OF assms(1)]
        store.get_opt_ok [OF assms(1)])
  with run po' show ?thesis by (intro exI [of _ ?p] exI [of _ ?d] exI [of _ po'] conjI) simp_all
qed

lemma xdp_new_fields_witness:
  "\<exists>p d' po'. xdp_new ref_host \<lparr>db_tree = ''t''\<rparr> 50 ''eth0'' [Xdp_Pass, Xdp_Drop] [(''t'', [])] = (Ok p, d')
    \<and> xdp_data p = \<lparr>db_tree = ''t''\<rparr>
    \<and> xdp_get_priority ref_host p d' = Ok 50 \<and> xdp_get_iface ref_host p d' = Ok ''eth0''
    \<and> xdp_get_attached ref_host p d' = xdp_get_attached ref_host p [(''t'', [])]
    \<and> xdp_get_proceed_on ref_host p d' = Ok po'
    \<and> xdp_mask po' = xdp_mask (xdp_proceed_on_from_iter [Xdp_Pass, Xdp_Drop])
    \<and> (length [Xdp_Pass, Xdp_Drop] \<le> 10 \<longrightarrow> po' = xdp_proceed_on_from_iter [Xdp_Pass, Xdp_Drop])"
  by (rule xdp_new_fields [OF ref_store, where m = Map.empty]) (simp_all add: ref_abs_def)

lemma selector_matches_spec:
  "get_metadata H data d = Ok md \<Longrightarrow> selector_matches H data d sel =
     Ok (\<forall>(k, v) \<in> set sel. map_of md k = Some v)"
  by (induction sel) (auto split: option.splits)

text \<open>
  A program bpfman does not own passes the list filter exactly when the filter is not
  restricted to bpfman's programs, has no metadata selector, and asks for no type or for
  the type the kernel reports; a type that cannot be read does not match.
\<close>

lemma list_filter_unsupported:
  assumes "\<forall>q. get_kernel_program_type H data d \<noteq> Panic q"
  shows "list_filter_matches H lf (Program_Unsupported data) d = Ok (
    \<not> bpfman_programs_only lf \<and> metadata_selector lf = [] \<and>
    (case lf_program_type lf of None \<Rightarrow> True | Some t \<Rightarrow> get_kernel_program_type H data d = Ok t))"
  using assms by (auto simp: list_filter_matches_def split: option.splits res.splits)

lemma list_filter_unsupported_witness:
  "list_filter_matches ref_host \<lparr>lf_program_type = Some 6, metadata_selector = [], bpfman_programs_only = False\<rparr>
     (Program_Unsupported \<lparr>db_tree = ''9''\<rparr>) [(''9'', [(KERNEL_PROGRAM_TYPE, ne4 ref_host 6)])] = Ok (
    \<not> False \<and> ([] :: (string \<times> string) list) = [] \<and>
    get_kernel_program_type ref_host \<lparr>db_tree = ''9''\<rparr>
      [(''9'', [(KERNEL_PROGRAM_TYPE, ne4 ref_host 6)])] = Ok 6)"
proof -
  have "get_kernel_program_type ref_host \<lparr>db_tree = ''9''\<rparr>
      [(''9'', [(KERNEL_PROGRAM_TYPE, ne4 ref_host 6)])] = Ok 6" by code_simp
  then show ?thesis
    using list_filter_unsupported [of ref_host "\<lparr>db_tree = ''9''\<rparr>"
        "[(''9'', [(KERNEL_PROGRAM_TYPE, ne4 ref_host 6)])]"
        "\<lparr>lf_program_type = Some 6, metadata_selector = [], bpfman_programs_only = False\<rparr>"] by simp
qed

text \<open>
  A program bpfman owns passes the list filter exactly when the filter asks for no type
  or for its kind, whatever type the kernel reports for it, and its metadata holds every
  pair of the selector.
\<close>

lemma list_filter_owned:
  assumes "\<forall>x. program \<noteq> Program_Unsupported x"
    and "program_kind H program d = (Ok kind :: ('e, program_type) res)"
    and "get_metadata H (program_get_data program) d = Ok md"
  shows "list_filter_matches H lf program d = (Ok (
    lf_program_type lf \<in> {None, Some (program_type_to_u32 kind)} \<and>
    (\<forall>(k, v) \<in> set (metadata_selector lf). map_of md k = Some v)) :: ('e, bool) res)"
proof -
  have "list_filter_matches H lf program d = (bind_res (program_kind H program d) (\<lambda>kind.
       case lf_program_type lf of
         None \<Rightarrow> selector_matches H (program_get_data program) d (metadata_selector lf)
       | Some t \<Rightarrow> if program_type_to_u32 kind \<noteq> t then Ok False
           else selector_matches H (program_get_data program) d (metadata_selector lf))
       :: ('e, bool) res)"
    using assms(1) by (cases program) (simp_all add: list_filter_matches_def split: option.splits)
  then show ?thesis
    using assms(2, 3) by (auto simp: selector_matches_spec split: option.splits)
qed

lemma list_filter_owned_witness:
  "list_filter_matches ref_host
     \<lparr>lf_program_type = Some 6, metadata_selector = [(''owner'', ''me'')], bpfman_programs_only = True\<rparr>
     (Program_Xdp \<lparr>xdp_data = \<lparr>db_tree = ''t''\<rparr>\<rparr>) [(''t'', [(''metadata_owner'', as_bytes ''me'')])] =
   (Ok (Some 6 \<in> {None, Some (program_type_to_u32 ProgramType_Xdp)} \<and>
     (\<forall>(k, v) \<in> set [(''owner'', ''me'')]. map_of [(''owner'', ''me'')] k = Some v)) :: (bpfman_error, bool) res)"
proof -
  have "get_metadata ref_host \<lparr>db_tree = ''t''\<rparr> [(''t'', [(''metadata_owner'', as_bytes ''me'')])] =
    Ok [(''owner'', ''me'')]" by code_simp
  then show ?thesis
    using list_filter_owned [of "Program_Xdp \<lparr>xdp_data = \<lparr>db_tree = ''t''\<rparr>\<rparr>" ref_host
        "[(''t'', [(''metadata_owner'', as_bytes ''me'')])]" ProgramType_Xdp "[(''owner'', ''me'')]"
        "\<lparr>lf_program_type = Some 6, metadata_selector = [(''owner'', ''me'')], bpfman_programs_only = True\<rparr>"]
    by simp
qed

end
