(* ===== verification/Os_World.thy ===== *)
theory Os_World
  imports Program_Kinds
begin

text \<open>
  The state the manager acts on: the root database, the file system and the kernel. The file
  system is modelled as far as the sources use it through \<open>std::fs\<close>: a path is absent, a
  directory or a file with its mode, and an operation may fail by the fault parameter
  \<open>io_fault\<close> of the host (operation and path to an error text). The lemmas are the laws of
  the operations on paths.
\<close>


subsection \<open>Files\<close>

datatype fs_node = Dir u32 | File u32

type_synonym fs = "string \<rightharpoonup> fs_node"
type_synonym io_fault = "string \<Rightarrow> string \<Rightarrow> string option"

definition below :: "string \<Rightarrow> string \<Rightarrow> bool" where
  "below dir p \<longleftrightarrow> prefix (dir @ ''/'') p"

definition child_of :: "string \<Rightarrow> string \<Rightarrow> bool" where
  "child_of dir p \<longleftrightarrow> below dir p \<and> CHR ''/'' \<notin> set (drop (length dir + 1) p)"

definition path_exists :: "fs \<Rightarrow> string \<Rightarrow> bool" where
  "path_exists fs p \<longleftrightarrow> fs p \<noteq> None"

definition remove_file :: "io_fault \<Rightarrow> string \<Rightarrow> (fs, string, unit) st" where
  "remove_file F p fs = (case F ''remove_file'' p of Some e \<Rightarrow> (Err e, fs) | None \<Rightarrow>
     (case fs p of
       None \<Rightarrow> (Err ''No such file or directory (os error 2)'', fs)
     | Some (Dir m) \<Rightarrow> (Err ''Is a directory (os error 21)'', fs)
     | Some (File m) \<Rightarrow> (Ok (), fs(p := None))))"

definition remove_dir_all :: "io_fault \<Rightarrow> string \<Rightarrow> (fs, string, unit) st" where
  "remove_dir_all F p fs = (case F ''remove_dir_all'' p of Some e \<Rightarrow> (Err e, fs) | None \<Rightarrow>
     (case fs p of
       None \<Rightarrow> (Err ''No such file or directory (os error 2)'', fs)
     | Some (File m) \<Rightarrow> (Err ''Not a directory (os error 20)'', fs)
     | Some (Dir m) \<Rightarrow> (Ok (), \<lambda>q. if q = p \<or> below p q then None else fs q)))"

definition ancestors :: "string \<Rightarrow> string list" where
  "ancestors p = map (\<lambda>i. take i p) (filter (\<lambda>i. 0 < i \<and> p ! i = CHR ''/'') [0..<length p])"

definition is_file :: "fs \<Rightarrow> string \<Rightarrow> bool" where
  "is_file fs p \<longleftrightarrow> (case fs p of Some (File m) \<Rightarrow> True | _ \<Rightarrow> False)"

definition create_dir_all :: "io_fault \<Rightarrow> string \<Rightarrow> (fs, string, unit) st" where
  "create_dir_all F p fs = (case F ''create_dir_all'' p of Some e \<Rightarrow> (Err e, fs) | None \<Rightarrow>
     if list_ex (is_file fs) (ancestors p @ [p]) then (Err ''Not a directory (os error 20)'', fs)
     else (Ok (), \<lambda>q. if fs q = None \<and> q \<in> set (ancestors p @ [p]) then Some (Dir 493) else fs q))"

fun with_mode :: "u32 \<Rightarrow> fs_node \<Rightarrow> fs_node" where
  "with_mode m (Dir _) = Dir m"
| "with_mode m (File _) = File m"

text \<open>\<open>utils.rs\<close>: failures on single files are logged and ignored, an unreadable directory panics.\<close>

definition set_dir_permissions :: "io_fault \<Rightarrow> string \<Rightarrow> u32 \<Rightarrow> (fs, 'e, unit) st" where
  "set_dir_permissions F dir mode fs = (case F ''read_dir'' dir of Some e \<Rightarrow> (Panic ''unwrap'', fs) | None \<Rightarrow>
     (case fs dir of
       Some (Dir m) \<Rightarrow> (Ok (), \<lambda>q. if child_of dir q \<and> F ''set_permissions'' q = None
         then map_option (with_mode mode) (fs q) else fs q)
     | _ \<Rightarrow> (Panic ''unwrap'', fs)))"


subsection \<open>The world\<close>

record ('d, 'k) world =
  wdb :: 'd
  wfs :: fs
  wkern :: 'k

definition on_db :: "('d, 'e, 'a) st \<Rightarrow> (('d, 'k) world, 'e, 'a) st" where
  "on_db m = zoom wdb (\<lambda>d w. w\<lparr>wdb := d\<rparr>) m"

definition on_fs :: "(fs, 'e, 'a) st \<Rightarrow> (('d, 'k) world, 'e, 'a) st" where
  "on_fs m = zoom wfs (\<lambda>f w. w\<lparr>wfs := f\<rparr>) m"

definition on_kern :: "('k, 'e, 'a) st \<Rightarrow> (('d, 'k) world, 'e, 'a) st" where
  "on_kern m = zoom wkern (\<lambda>k w. w\<lparr>wkern := k\<rparr>) m"

definition from_db :: "('d \<Rightarrow> ('e, 'a) res) \<Rightarrow> (('d, 'k) world, 'e, 'a) st" where
  "from_db f = reads (\<lambda>w. f (wdb w))"

lemma on_db_app [simp]: "on_db m w = (fst (m (wdb w)), w\<lparr>wdb := snd (m (wdb w))\<rparr>)"
  by (simp add: on_db_def zoom_def case_prod_beta)

lemma on_fs_app [simp]: "on_fs m w = (fst (m (wfs w)), w\<lparr>wfs := snd (m (wfs w))\<rparr>)"
  by (simp add: on_fs_def zoom_def case_prod_beta)

lemma on_kern_app [simp]: "on_kern m w = (fst (m (wkern w)), w\<lparr>wkern := snd (m (wkern w))\<rparr>)"
  by (simp add: on_kern_def zoom_def case_prod_beta)

lemma from_db_app [simp]: "from_db f w = (f (wdb w), w)"
  by (simp add: from_db_def)

record 'd os_host =
  os_db :: "'d host"
  io_fault :: io_fault


subsection \<open>Directories of \<open>lib.rs\<close>\<close>

abbreviation RTDIR_FS :: string where "RTDIR_FS \<equiv> ''/run/bpfman/fs''"
abbreviation RTDIR_FS_TC_INGRESS :: string where "RTDIR_FS_TC_INGRESS \<equiv> ''/run/bpfman/fs/tc-ingress''"
abbreviation RTDIR_FS_TC_EGRESS :: string where "RTDIR_FS_TC_EGRESS \<equiv> ''/run/bpfman/fs/tc-egress''"
abbreviation RTDIR_FS_XDP :: string where "RTDIR_FS_XDP \<equiv> ''/run/bpfman/fs/xdp''"
abbreviation RTDIR_FS_MAPS :: string where "RTDIR_FS_MAPS \<equiv> ''/run/bpfman/fs/maps''"

definition prog_pin :: "u32 \<Rightarrow> string" where
  "prog_pin i = RTDIR_FS @ ''/prog_'' @ show_u32 i"

definition prog_link_pin :: "u32 \<Rightarrow> string" where
  "prog_link_pin i = RTDIR_FS @ ''/prog_'' @ show_u32 i @ ''_link''"


subsection \<open>Program::delete\<close>

text \<open>
  The error is an \<open>anyhow::Error\<close>, that is its text. A pin is removed when it exists.
\<close>

definition remove_if_exists :: "io_fault \<Rightarrow> string \<Rightarrow> (fs, string, unit) st" where
  "remove_if_exists F p fs = (if path_exists fs p then remove_file F p fs else (Ok (), fs))"

definition program_delete ::
  "'d os_host \<Rightarrow> program \<Rightarrow> (('d, 'k) world, string, unit) st" where
  "program_delete E p =
     bind_st (from_db (\<lambda>d. map_err show_bpfman_error (get_id (os_db E) (program_get_data p) d))) (\<lambda>i.
     then_st (on_db (\<lambda>d. case db_drop_tree (os_db E) (db_tree (program_get_data p)) d of
       Inl e \<Rightarrow> (Err e, d) | Inr d' \<Rightarrow> (Ok (), d'))) (
     then_st (on_fs (remove_if_exists (io_fault E) (prog_pin i)))
       (on_fs (remove_if_exists (io_fault E) (prog_link_pin i)))))"


lemma prog_pin_ne: "prog_pin i \<noteq> prog_link_pin j"
proof
  assume "prog_pin i = prog_link_pin j"
  then have eq: "show_u32 i = show_u32 j @ ''_link''" by (simp add: prog_pin_def prog_link_pin_def)
  have "CHR ''_'' \<in> set (show_u32 i)" unfolding eq by simp
  then show False by simp
qed

lemma remove_if_exists_ok:
  "F ''remove_file'' p = None \<Longrightarrow> fs p \<in> {None} \<union> range (\<lambda>m. Some (File m)) \<Longrightarrow>
   remove_if_exists F p fs = (Ok (), fs(p := None))"
  by (auto simp: remove_if_exists_def path_exists_def remove_file_def)


subsection \<open>Properties of deletion\<close>

text \<open>
  Deleting a program drops its tree and its two pins, whether or not the pins exist,
  and touches no other tree and no other path.
\<close>

lemma program_delete_removes:
  assumes "store (os_db E) \<alpha>" and "\<alpha> (wdb w) (db_tree (program_get_data p)) = Some m"
    and "m ID = Some (ne4 (os_db E) i)" and "db_tree (program_get_data p) \<noteq> default_tree"
    and "\<forall>q. io_fault E ''remove_file'' q = None"
    and "wfs w (prog_pin i) \<in> {None} \<union> range (\<lambda>m. Some (File m))"
    and "wfs w (prog_link_pin i) \<in> {None} \<union> range (\<lambda>m. Some (File m))"
  shows "\<exists>d'. program_delete E p w =
      (Ok (), w\<lparr>wdb := d', wfs := (wfs w)(prog_pin i := None, prog_link_pin i := None)\<rparr>)
    \<and> \<alpha> d' = (\<alpha> (wdb w))(db_tree (program_get_data p) := None)"
proof -
  let ?H = "os_db E" and ?t = "db_tree (program_get_data p)"
  let ?d = "dropped ?H ?t (wdb w)"
  have i: "get_id ?H (program_get_data p) (wdb w) = Ok i"
    using store.get_u32_ok [OF assms(1), OF assms(2, 3)] by (simp add: get_id_def)
  have d: "db_drop_tree ?H ?t (wdb w) = Inr ?d" "\<alpha> ?d = (\<alpha> (wdb w))(?t := None)"
    using store.drop_Inr [OF assms(1), OF assms(4)] store.abs_dropped [OF assms(1), OF assms(4)]
    by simp_all
  have "program_delete E p w =
      (Ok (), w\<lparr>wdb := ?d, wfs := (wfs w)(prog_pin i := None, prog_link_pin i := None)\<rparr>)"
    using assms(5-7) prog_pin_ne [of i i] prog_pin_ne [of i i, symmetric]
    by (simp add: program_delete_def bind_st_def then_st_def i d remove_if_exists_ok)
  with d(2) show ?thesis by blast
qed

lemma program_delete_removes_witness:
  "\<exists>d'. program_delete \<lparr>os_db = ref_host, io_fault = \<lambda>_ _. None\<rparr> (Program_Xdp \<lparr>xdp_data = \<lparr>db_tree = ''program_5''\<rparr>\<rparr>)
      \<lparr>wdb = [(''program_5'', [(ID, ne4 ref_host 5)])], wfs = [prog_pin 5 \<mapsto> File 0], wkern = ()\<rparr> =
      (Ok (), \<lparr>wdb = d', wfs = [prog_pin 5 \<mapsto> File 0](prog_pin 5 := None, prog_link_pin 5 := None), wkern = ()\<rparr>)
    \<and> ref_abs d' = (ref_abs [(''program_5'', [(ID, ne4 ref_host 5)])])(''program_5'' := None)"
  using program_delete_removes [of "\<lparr>os_db = ref_host, io_fault = \<lambda>_ _. None\<rparr>" ref_abs
      "\<lparr>wdb = [(''program_5'', [(ID, ne4 ref_host 5)])], wfs = [prog_pin 5 \<mapsto> File 0], wkern = ()\<rparr>"
      "Program_Xdp \<lparr>xdp_data = \<lparr>db_tree = ''program_5''\<rparr>\<rparr>" "[ID \<mapsto> ne4 ref_host 5]" 5]
    ref_store prog_pin_ne [of 5 5] prog_pin_ne [of 5 5, symmetric]
  by (simp add: ref_abs_def default_tree_def)

end
