(* ===== verification/Program_Maps.thy ===== *)
theory Program_Maps
  imports Os_World
begin

text \<open>
  The maps of programs, the second half of \<open>bpfman/src/lib.rs\<close>: a program that loads its own
  maps owns a tree \<open>map_<id>\<close> that lists the programs using them and a directory of pins; a
  program that shares the maps of another is entered in that tree. The abstract state of a map
  is the multiset of its users; the lemmas say that reading, pushing, setting and clearing
  implement it, and that a push never overwrites an entry.
\<close>

abbreviation MAP_PREFIX :: string where "MAP_PREFIX \<equiv> ''map_''"
abbreviation MAPS_MODE :: u32 where "MAPS_MODE \<equiv> 432"

definition map_tree :: "u32 \<Rightarrow> string" where
  "map_tree i = MAP_PREFIX @ show_u32 i"

lemma map_tree_names [simp, key_simps]:
  "map_tree i = map_tree j \<longleftrightarrow> i = j" "map_tree i \<noteq> prog_tree j" "prog_tree j \<noteq> map_tree i"
  "map_tree i \<noteq> pre_load_tree j" "pre_load_tree j \<noteq> map_tree i"
  "map_tree i \<noteq> default_tree" "default_tree \<noteq> map_tree i" "is_str (map_tree i)"
  by (simp_all add: map_tree_def prog_tree_def pre_load_tree_def default_tree_def)

definition MAPS_USED_BY_PREFIX :: string where "MAPS_USED_BY_PREFIX = ''map_used_by_''"


subsection \<open>Looking trees up by name\<close>

text \<open>
  \<open>tree_names().into_iter().find(|n| pred(bytes_to_string(n)))\<close>: a name that is not UTF-8
  panics when it is reached.
\<close>

fun find_tree :: "(string \<Rightarrow> bool) \<Rightarrow> string list \<Rightarrow> ('e, string option) res" where
  "find_tree P [] = Ok None"
| "find_tree P (n # ns) = bind_res (bytes_to_string (as_bytes n)) (\<lambda>s.
     if P s then Ok (Some n) else find_tree P ns)"

definition get_map :: "'d host \<Rightarrow> u32 \<Rightarrow> ('d, 'e, string option) st" where
  "get_map H i =
     bind_st (reads (\<lambda>d. find_tree (\<lambda>s. s = map_tree i) (db_tree_names H d))) (\<lambda>n.
     case n of None \<Rightarrow> ret None
     | Some t \<Rightarrow> then_st (open_tree H ''unable to open map tree'' t) (ret (Some t)))"

text \<open>\<open>get\<close> of \<open>lib.rs\<close>.\<close>

definition get_by_id :: "'d host \<Rightarrow> u32 \<Rightarrow> ('d, 'e, program option) st" where
  "get_by_id H i d =
     (let t = prog_tree i in
      if t \<in> set (db_tree_names H d) then
        then_st (open_tree H ''unable to open database tree'' t)
          (reads (\<lambda>d. ok_map Some (expect_res ''Failed to build program from database''
            (new_from_db H i t d)))) d
      else (Ok None, d))"


subsection \<open>Pin paths\<close>

definition calc_map_pin_path :: "u32 \<Rightarrow> string" where
  "calc_map_pin_path i = RTDIR_FS_MAPS @ ''/'' @ show_u32 i"

definition create_map_pin_path :: "io_fault \<Rightarrow> string \<Rightarrow> (fs, bpfman_error, unit) st" where
  "create_map_pin_path F p = map_err_st (\<lambda>e. Error (''can't create map dir: '' @ e)) (create_dir_all F p)"

definition is_map_owner_id_valid :: "'d host \<Rightarrow> u32 \<Rightarrow> 'd \<Rightarrow> (bpfman_error, string) res" where
  "is_map_owner_id_valid H owner d =
     (if map_tree owner \<in> set (db_tree_names H d) then Ok (calc_map_pin_path owner)
      else Err (Error ''map_owner_id does not exists''))"

definition cleanup_map_pin_path ::
  "io_fault \<Rightarrow> string \<Rightarrow> u32 option \<Rightarrow> (fs, bpfman_error, unit) st" where
  "cleanup_map_pin_path F path owner fs =
     (if owner = None \<and> path_exists fs path then ignore_st (remove_dir_all F path) fs else (Ok (), fs))"


subsection \<open>The users of a map\<close>

definition map_set_used_by :: "'d host \<Rightarrow> string \<Rightarrow> u32 list \<Rightarrow> ('d, bpfman_error, unit) st" where
  "map_set_used_by H t ids = insert_numbered H t MAPS_USED_BY_PREFIX (map (ne4 H) ids)"

definition map_get_used_by :: "'d host \<Rightarrow> string \<Rightarrow> 'd \<Rightarrow> (bpfman_error, u32 list) res" where
  "map_get_used_by H t =
     scan_values H t MAPS_USED_BY_PREFIX ''Failed to get maps used by'' (bytes_to_u32 H)"

definition map_push_used_by :: "'d host \<Rightarrow> string \<Rightarrow> u32 \<Rightarrow> ('d, bpfman_error, unit) st" where
  "map_push_used_by H t i =
     bind_st (reads (map_get_used_by H t)) (\<lambda>existing.
     sled_insert H t (MAPS_USED_BY_PREFIX @ show_nat (length existing + 1)) (ne4 H i))"

definition map_clear_used_by :: "'d host \<Rightarrow> string \<Rightarrow> ('d, bpfman_error, unit) st" where
  "map_clear_used_by H t = clear_prefix H t MAPS_USED_BY_PREFIX"


subsection \<open>save_map and delete_map\<close>

text \<open>The loop of both: every user that is a program of the database gets the new list.\<close>

definition update_user :: "'d host \<Rightarrow> u32 list \<Rightarrow> u32 \<Rightarrow> ('d, bpfman_error, unit) st" where
  "update_user H used_by i =
     bind_st (get_by_id H i) (\<lambda>p. case p of
       None \<Rightarrow> ret ()
     | Some program \<Rightarrow> set_maps_used_by H (program_get_data program) used_by)"

definition save_map ::
  "'d os_host \<Rightarrow> program \<Rightarrow> u32 \<Rightarrow> u32 option \<Rightarrow> (('d, 'k) world, bpfman_error, unit) st" where
  "save_map E program i map_owner_id =
     (let H = os_db E; data = program_get_data program in
      case map_owner_id of
        Some m \<Rightarrow>
          bind_st (on_db (get_map H m)) (\<lambda>map. case map of
            Some t \<Rightarrow>
              then_st (on_db (map_push_used_by H t i)) (
              bind_st (from_db (map_get_used_by H t)) (\<lambda>used_by.
              then_st (on_db (set_maps_used_by H data used_by))
                (on_db (try_for_each (update_user H used_by) used_by))))
          | None \<Rightarrow> throw (Error ''map_owner_id does not exist''))
      | None \<Rightarrow>
          then_st (on_db (open_tree H ''Unable to open map db tree'' (map_tree i))) (
          then_st (on_db (map_set_used_by H (map_tree i) [i])) (
          then_st (on_db (set_maps_used_by H data [i])) (
          bind_st (from_db (get_map_pin_path H data)) (\<lambda>path. case path of
            Some p \<Rightarrow> on_fs (set_dir_permissions (io_fault E) p MAPS_MODE)
          | None \<Rightarrow> throw (Error (''map_pin_path should be set for '' @ show_u32 i)))))))"

definition delete_map ::
  "'d os_host \<Rightarrow> u32 \<Rightarrow> u32 option \<Rightarrow> (('d, 'k) world, bpfman_error, unit) st" where
  "delete_map E i map_owner_id =
     (let H = os_db E; index = (case map_owner_id of Some o' \<Rightarrow> o' | None \<Rightarrow> i) in
      bind_st (on_db (get_map H index)) (\<lambda>map. case map of
        Some t \<Rightarrow>
          bind_st (from_db (map_get_used_by H t)) (\<lambda>used_by0.
          let used_by = (case position (\<lambda>v. v = i) used_by0 of
            Some n \<Rightarrow> swap_remove n used_by0 | None \<Rightarrow> used_by0) in
          then_st (on_db (map_clear_used_by H t)) (
          then_st (on_db (map_set_used_by H t used_by)) (
          if used_by = [] then
            then_st (on_db (drop_tree H ''unable to drop maps tree'' (map_tree index)))
              (map_err_st (\<lambda>e. Error (''can't delete map dir: '' @ e))
                (on_fs (remove_dir_all (io_fault E) (calc_map_pin_path index))))
          else on_db (try_for_each (update_user H used_by) used_by))))
      | None \<Rightarrow> throw (Error ''map_pin_path does not exists'')))"


subsection \<open>The multiset of users\<close>

lemma used_by_prefix [simp, key_simps]:
  "prefix MAPS_USED_BY_PREFIX (c # cs) = prefix ''map_used_by_'' (c # cs)"
  "ascii MAPS_USED_BY_PREFIX"
  by (simp_all add: MAPS_USED_BY_PREFIX_def)

text \<open>
  \<open>users H m M\<close>: the tree \<open>m\<close> lists the users \<open>M\<close>, under distinct numbers that do not
  exceed how many there are.
\<close>

definition users :: "'d host \<Rightarrow> tree \<Rightarrow> u32 multiset \<Rightarrow> bool" where
  "users H m M \<longleftrightarrow> (\<exists>xs :: (nat \<times> u32) list. distinct (map fst xs) \<and> (\<forall>x \<in> set xs. fst x \<le> length xs) \<and>
     (\<forall>k. prefix MAPS_USED_BY_PREFIX k \<longrightarrow>
       m k = kv_map (\<lambda>x. MAPS_USED_BY_PREFIX @ show_nat (fst x)) (\<lambda>x. ne4 H (snd x)) xs k) \<and>
     mset (map snd xs) = M)"

lemma users_cong:
  "(\<And>k. prefix MAPS_USED_BY_PREFIX k \<Longrightarrow> m k = m' k) \<Longrightarrow> users H m M = users H m' M"
  by (simp add: users_def)

lemma enumerate_map: "List.enumerate n (map f xs) = map (\<lambda>x. (fst x, f (snd x))) (List.enumerate n xs)"
  by (induction xs arbitrary: n) auto

lemma kv_map_append_one:
  "kf x \<notin> kf ` set xs \<Longrightarrow> kv_map kf vf (xs @ [x]) = (kv_map kf vf xs)(kf x \<mapsto> vf x)"
  by (simp add: kv_map_def)

lemma users_numbered:
  assumes "\<And>k. prefix MAPS_USED_BY_PREFIX k \<Longrightarrow> m k = None"
  shows "users H (m ++ numbered MAPS_USED_BY_PREFIX (map (ne4 H) ids)) (mset ids)"
proof -
  let ?xs = "List.enumerate 0 ids"
  have num: "numbered MAPS_USED_BY_PREFIX (map (ne4 H) ids) =
      kv_map (\<lambda>x. MAPS_USED_BY_PREFIX @ show_nat (fst x)) (\<lambda>x. ne4 H (snd x)) ?xs"
    by (simp add: numbered_def enumerate_map kv_map_def comp_def)
  show ?thesis
    unfolding users_def num
    by (rule exI [of _ ?xs])
      (use assms in \<open>auto simp: map_add_def in_set_enumerate_eq intro: less_imp_le split: option.splits\<close>)
qed

lemma users_push_map:
  assumes "users H m M"
  shows "users H (m(MAPS_USED_BY_PREFIX @ show_nat (size M + 1) \<mapsto> ne4 H i)) (add_mset i M)"
    and "m (MAPS_USED_BY_PREFIX @ show_nat (size M + 1)) = None"
proof -
  let ?kf = "\<lambda>x :: nat \<times> u32. MAPS_USED_BY_PREFIX @ show_nat (fst x)" and ?vf = "\<lambda>x. ne4 H (snd x)"
  from assms obtain xs where xs: "distinct (map fst xs)" "\<forall>x \<in> set xs. fst x \<le> length xs"
    "\<forall>k. prefix MAPS_USED_BY_PREFIX k \<longrightarrow> m k = kv_map ?kf ?vf xs k" "mset (map snd xs) = M"
    unfolding users_def by blast
  have n: "size M = length xs" using xs(4) by (metis length_map size_mset)
  have fresh: "?kf (length xs + 1, i) \<notin> ?kf ` set xs" using xs(2) by fastforce
  show "m (MAPS_USED_BY_PREFIX @ show_nat (size M + 1)) = None"
    using kv_map_None [OF fresh, of ?vf] xs(3) by (simp add: n)
  show "users H (m(MAPS_USED_BY_PREFIX @ show_nat (size M + 1) \<mapsto> ne4 H i)) (add_mset i M)"
    unfolding users_def n
  proof (intro exI [of _ "xs @ [(length xs + 1, i)]"] conjI allI impI)
    show "distinct (map fst (xs @ [(length xs + 1, i)]))" using xs(1, 2) by fastforce
    show "\<forall>x \<in> set (xs @ [(length xs + 1, i)]). fst x \<le> length (xs @ [(length xs + 1, i)])"
      using xs(2) by fastforce
    show "mset (map snd (xs @ [(length xs + 1, i)])) = add_mset i M" using xs(4) by simp
    show "(m(MAPS_USED_BY_PREFIX @ show_nat (length xs + 1) \<mapsto> ne4 H i)) k =
        kv_map ?kf ?vf (xs @ [(length xs + 1, i)]) k" if "prefix MAPS_USED_BY_PREFIX k" for k
      using xs(3) that by (simp only: kv_map_append_one [OF fresh]) simp
  qed
qed

sublocale store \<subseteq> map_users: db_vector H \<alpha> MAPS_USED_BY_PREFIX "ne4 H" "bytes_to_u32 H"
  by unfold_locales simp

context store
begin

lemma users_read:
  assumes "\<alpha> d t = Some m" and "users H m M"
  shows "\<exists>us. map_get_used_by H t d = Ok us \<and> mset us = M"
proof -
  let ?kf = "\<lambda>x :: nat \<times> u32. MAPS_USED_BY_PREFIX @ show_nat (fst x)" and ?vf = "\<lambda>x. ne4 H (snd x)"
  from assms(2) obtain xs where xs: "distinct (map fst xs)"
    "\<forall>k. prefix MAPS_USED_BY_PREFIX k \<longrightarrow> m k = kv_map ?kf ?vf xs k" "mset (map snd xs) = M"
    unfolding users_def by blast
  have "entries MAPS_USED_BY_PREFIX m = entries MAPS_USED_BY_PREFIX (Map.empty ++ kv_map ?kf ?vf xs)"
    by (rule entries_cong) (simp add: xs(2))
  moreover have "distinct (map ?kf xs)"
    using xs(1) numbered_distinct [of MAPS_USED_BY_PREFIX "map fst xs"] by (simp add: comp_def)
  ultimately have "mset (entries MAPS_USED_BY_PREFIX m) = mset (map (\<lambda>x. (?kf x, ?vf x)) xs)"
    using mset_entries_kv_map [of ?kf xs MAPS_USED_BY_PREFIX Map.empty ?vf] by simp
  then have "image_mset snd (mset (entries MAPS_USED_BY_PREFIX m)) =
      image_mset snd (mset (map (\<lambda>x. (?kf x, ?vf x)) xs))" by simp
  then have "mset (map snd (entries MAPS_USED_BY_PREFIX m)) = mset (map (ne4 H) (map snd xs))"
    by (simp add: multiset.map_comp comp_def)
  from map_users.read_mset [OF assms(1) this] show ?thesis
    unfolding map_get_used_by_def xs(3) .
qed

lemma push_ok:
  assumes "\<alpha> d t = Some m" and "users H m M"
  obtains d' where "map_push_used_by H t i d = (Ok (), d')"
    and "\<alpha> d' = (\<alpha> d)(t \<mapsto> m(MAPS_USED_BY_PREFIX @ show_nat (size M + 1) \<mapsto> ne4 H i))"
proof -
  obtain us where us: "map_get_used_by H t d = Ok us" "mset us = M"
    using users_read [OF assms] by blast
  then have "size M = length us" by auto
  with assms us that show ?thesis by (simp add: map_push_used_by_def bind_st_def)
qed

lemma clear_set_ok:
  assumes "\<alpha> d t = Some m"
  obtains d1 d2 where "map_clear_used_by H t d = (Ok (), d1)" and "map_set_used_by H t ids d1 = (Ok (), d2)"
    and "\<alpha> d1 = (\<alpha> d)(t \<mapsto> m |` {k. \<not> prefix MAPS_USED_BY_PREFIX k})"
    and "\<alpha> d2 = (\<alpha> d)(t \<mapsto> m |` {k. \<not> prefix MAPS_USED_BY_PREFIX k} ++
      numbered MAPS_USED_BY_PREFIX (map (ne4 H) ids))"
proof -
  obtain d1 where d1: "clear_prefix H t MAPS_USED_BY_PREFIX d = (Ok () :: (bpfman_error, unit) res, d1)"
    "\<alpha> d1 = (\<alpha> d)(t \<mapsto> m |` {k. \<not> prefix MAPS_USED_BY_PREFIX k})"
    using clear_prefix_ok [OF assms] by blast
  then have m1: "\<alpha> d1 t = Some (m |` {k. \<not> prefix MAPS_USED_BY_PREFIX k})" by simp
  show ?thesis
    by (rule that [OF _ map_users.set_run [OF m1, of ids, folded map_set_used_by_def] d1(2)])
      (use d1 map_users.abs_wrote [OF m1, of ids] in \<open>simp_all add: map_clear_used_by_def\<close>)
qed

text \<open>Finding a tree whose name is known, when every name is a string.\<close>

lemma find_tree_eq:
  assumes "\<And>n. n \<in> set ns \<Longrightarrow> is_str n"
  shows "find_tree (\<lambda>s. s = t) ns = Ok (if t \<in> set ns then Some t else None)"
  using assms by (induction ns) auto

lemma get_map_ok:
  assumes "\<And>t. \<alpha> d t \<noteq> None \<Longrightarrow> is_str t"
  shows "(get_map H i :: ('d, 'e, string option) st) d = (case \<alpha> d (map_tree i) of
      None \<Rightarrow> (Ok None, d)
    | Some m \<Rightarrow> (Ok (Some (map_tree i)), opened H (map_tree i) d))"
proof -
  have "find_tree (\<lambda>s. s = map_tree i) (db_tree_names H d) =
      (Ok (if \<alpha> d (map_tree i) \<noteq> None then Some (map_tree i) else None)
        :: ('e, string option) res)"
    by (subst find_tree_eq) (use assms in \<open>auto simp: in_names\<close>)
  then show ?thesis
    by (cases "\<alpha> d (map_tree i)") (simp_all add: get_map_def bind_st_def then_st_def)
qed

lemma get_map_some:
  assumes "\<And>t. \<alpha> d t \<noteq> None \<Longrightarrow> is_str t" and "\<alpha> d (map_tree i) = Some m"
  shows "get_map H i d = (Ok (Some (map_tree i)), opened H (map_tree i) d)"
  by (subst get_map_ok) (use assms in auto)

lemma get_map_none:
  assumes "\<And>t. \<alpha> d t \<noteq> None \<Longrightarrow> is_str t" and "\<alpha> d (map_tree i) = None"
  shows "get_map H i d = (Ok None, d)"
  by (subst get_map_ok) (use assms in auto)

lemma abs_opened_old: "\<alpha> d t = Some m \<Longrightarrow> \<alpha> (opened H t d) = \<alpha> d"
  by (simp add: fun_upd_idem)

end


subsection \<open>Program trees\<close>

text \<open>
  A program tree is well formed when its id entry is the id its name carries and its kind is
  one \<open>new_from_db\<close> supports; \<open>programs_ok\<close> says so of every program tree.
\<close>

definition supported_kinds :: "program_type set" where
  "supported_kinds = {ProgramType_Xdp, ProgramType_Tc, ProgramType_Tracepoint, ProgramType_Probe,
     ProgramType_Tracing}"

definition prog_ok :: "'d host \<Rightarrow> u32 \<Rightarrow> tree \<Rightarrow> bool" where
  "prog_ok H i m \<longleftrightarrow> m ID = Some (ne4 H i) \<and>
     (\<exists>kind \<in> supported_kinds. m KIND = Some (ne4 H (program_type_to_u32 kind)))"

definition programs_ok :: "'d host \<Rightarrow> trees \<Rightarrow> bool" where
  "programs_ok H T \<longleftrightarrow> (\<forall>i m. T (prog_tree i) = Some m \<longrightarrow> prog_ok H i m)"

text \<open>The effect of \<open>set_maps_used_by\<close> on a tree, and of the update loop on the database.\<close>

definition with_users :: "'d host \<Rightarrow> u32 list \<Rightarrow> tree \<Rightarrow> tree" where
  "with_users H us m = m |` {k. \<not> prefix PREFIX_MAPS_USED_BY k} ++
     numbered PREFIX_MAPS_USED_BY (map (ne4 H) us)"

definition upd_users :: "'d host \<Rightarrow> u32 list \<Rightarrow> u32 set \<Rightarrow> trees \<Rightarrow> trees" where
  "upd_users H us I T = (\<lambda>t. if t \<in> prog_tree ` I then map_option (with_users H us) (T t) else T t)"

lemma program_of_supported:
  "kind \<in> supported_kinds \<Longrightarrow>
   \<exists>p. program_of_kind kind t m = Ok p \<and> program_get_data p = \<lparr>db_tree = t\<rparr>"
  by (cases "m UPROBE_OFFSET"; cases "m FENTRY_FN_NAME")
    (auto simp: program_of_kind_def supported_kinds_def)

lemma with_users_other: "\<not> prefix PREFIX_MAPS_USED_BY k \<Longrightarrow> with_users H us m k = m k"
  by (simp add: with_users_def map_add_def numbered_None)

lemma with_users_idem: "with_users H us (with_users H us m) = with_users H us m"
proof -
  have "with_users H us m |` {k. \<not> prefix PREFIX_MAPS_USED_BY k} = m |` {k. \<not> prefix PREFIX_MAPS_USED_BY k}"
    by (rule ext) (simp add: restrict_map_def with_users_other)
  then show ?thesis by (simp add: with_users_def)
qed

lemma prog_ok_with_users: "prog_ok H i m \<Longrightarrow> prog_ok H i (with_users H us m)"
  by (simp add: prog_ok_def with_users_other)

lemma programs_ok_upd_users: "programs_ok H T \<Longrightarrow> programs_ok H (upd_users H us I T)"
  by (auto simp: programs_ok_def upd_users_def prog_ok_with_users)

lemma upd_users_other: "t \<notin> range prog_tree \<Longrightarrow> upd_users H us I T t = T t"
  by (auto simp: upd_users_def)

lemma upd_users_map [simp]: "upd_users H us I T (map_tree i) = T (map_tree i)"
  by (auto simp: upd_users_def)

lemma upd_users_insert:
  "upd_users H us I (upd_users H us {i} T) = upd_users H us (insert i I) T"
  by (auto simp: upd_users_def fun_eq_iff with_users_idem option.map_comp comp_def)

context store
begin

lemma get_by_id_none: "\<alpha> d (prog_tree i) = None \<Longrightarrow> get_by_id H i d = (Ok None, d)"
  by (simp add: get_by_id_def in_names)

lemma get_by_id_some:
  assumes "\<alpha> d (prog_tree i) = Some m" and "prog_ok H i m"
  obtains p where
    "(get_by_id H i :: ('d, 'e, program option) st) d = (Ok (Some p), opened H (prog_tree i) d)"
    and "program_get_data p = \<lparr>db_tree = prog_tree i\<rparr>"
proof -
  from assms(2) obtain kind where kind: "kind \<in> supported_kinds" "m ID = Some (ne4 H i)"
    "m KIND = Some (ne4 H (program_type_to_u32 kind))" by (auto simp: prog_ok_def)
  have o: "\<alpha> (opened H (prog_tree i) d) (prog_tree i) = Some m" using assms(1) by simp
  obtain p where "program_of_kind kind (prog_tree i) m = Ok p"
    and "program_get_data p = \<lparr>db_tree = prog_tree i\<rparr>"
    using program_of_supported [OF kind(1)] by blast
  with new_from_db_kind [OF o kind(2, 3)] assms(1) that show ?thesis
    by (auto simp: get_by_id_def in_names then_st_def bind_st_def)
qed

lemma set_with_users:
  assumes "\<alpha> d (db_tree pd) = Some m"
  obtains d' where "set_maps_used_by H pd ids d = (Ok (), d')"
    and "\<alpha> d' = (\<alpha> d)(db_tree pd \<mapsto> with_users H ids m)"
  using set_maps_used_by_run [OF assms, of ids] unfolding with_users_def .

lemma read_with_users:
  assumes "\<alpha> d (db_tree pd) = Some (with_users H us m)"
  shows "\<exists>us'. get_maps_used_by H pd d = Ok us' \<and> mset us' = mset us"
proof -
  have none: "(m |` {k. \<not> prefix PREFIX_MAPS_USED_BY k}) k = None" if "prefix PREFIX_MAPS_USED_BY k" for k
    using that by simp
  show ?thesis
    unfolding get_maps_used_by_def
    by (rule used_by.read_mset [OF assms])
      (unfold with_users_def, rule mset_entries_numbered [OF none])
qed

lemma update_user_ok:
  assumes "programs_ok H (\<alpha> d)"
  shows "\<exists>d'. update_user H us i d = (Ok (), d') \<and> \<alpha> d' = upd_users H us {i} (\<alpha> d)"
proof (cases "\<alpha> d (prog_tree i)")
  case None
  then have "upd_users H us {i} (\<alpha> d) = \<alpha> d" by (auto simp: upd_users_def)
  then show ?thesis by (simp add: update_user_def bind_st_def get_by_id_none [OF None])
next
  case (Some m)
  with assms have "prog_ok H i m" by (auto simp: programs_ok_def)
  from get_by_id_some [OF Some this] obtain p where p:
    "(get_by_id H i :: ('d, bpfman_error, program option) st) d = (Ok (Some p), opened H (prog_tree i) d)"
    "program_get_data p = \<lparr>db_tree = prog_tree i\<rparr>" .
  have o: "\<alpha> (opened H (prog_tree i) d) (db_tree \<lparr>db_tree = prog_tree i\<rparr>) = Some m" using Some by simp
  from set_with_users [OF this, of us] obtain d' where
    "set_maps_used_by H \<lparr>db_tree = prog_tree i\<rparr> us (opened H (prog_tree i) d) = (Ok (), d')"
    and "\<alpha> d' = (\<alpha> (opened H (prog_tree i) d))(prog_tree i \<mapsto> with_users H us m)" by auto
  with p Some show ?thesis
    by (auto simp: update_user_def bind_st_def upd_users_def fun_eq_iff)
qed

lemma update_users_ok:
  assumes "programs_ok H (\<alpha> d)"
  shows "\<exists>d'. try_for_each (update_user H us) ids d = (Ok (), d') \<and> \<alpha> d' = upd_users H us (set ids) (\<alpha> d)"
  using assms
proof (induction ids arbitrary: d)
  case Nil
  then show ?case by (simp add: upd_users_def)
next
  case (Cons i ids)
  obtain d1 where d1: "update_user H us i d = (Ok (), d1)" "\<alpha> d1 = upd_users H us {i} (\<alpha> d)"
    using update_user_ok [OF Cons.prems] by blast
  have "programs_ok H (\<alpha> d1)" using Cons.prems d1(2) programs_ok_upd_users by metis
  from Cons.IH [OF this] obtain d2 where d2: "try_for_each (update_user H us) ids d1 = (Ok (), d2)"
    "\<alpha> d2 = upd_users H us (set ids) (\<alpha> d1)" by blast
  moreover have "\<alpha> d2 = upd_users H us (set (i # ids)) (\<alpha> d)"
    unfolding d2(2) d1(2) upd_users_insert by simp
  moreover have "try_for_each (update_user H us) (i # ids) d = (Ok (), d2)"
    using d1(1) d2(1) by (simp add: then_st_def bind_st_def)
  ultimately show ?case by blast
qed

end


subsection \<open>The abstract state and its operations\<close>

text \<open>
  The abstract state maps the id of an owner to the multiset of the users of its maps.
  \<open>db_inv\<close> relates it to a database: every tree name is a string, every program tree is well
  formed, and every map tree lists its users.
\<close>

type_synonym map_users = "u32 \<rightharpoonup> u32 multiset"

definition maps_abs :: "'d host \<Rightarrow> trees \<Rightarrow> map_users \<Rightarrow> bool" where
  "maps_abs H T U \<longleftrightarrow> (\<forall>i. rel_option (users H) (T (map_tree i)) (U i))"

definition db_inv :: "'d host \<Rightarrow> trees \<Rightarrow> map_users \<Rightarrow> bool" where
  "db_inv H T U \<longleftrightarrow> (\<forall>t. T t \<noteq> None \<longrightarrow> is_str t) \<and> programs_ok H T \<and> maps_abs H T U"

definition spec_save :: "u32 \<Rightarrow> u32 option \<Rightarrow> map_users \<Rightarrow> map_users" where
  "spec_save i owner U = (case owner of None \<Rightarrow> U(i \<mapsto> {#i#})
     | Some o' \<Rightarrow> U(o' := map_option (add_mset i) (U o')))"

definition spec_delete :: "u32 \<Rightarrow> u32 option \<Rightarrow> map_users \<Rightarrow> map_users" where
  "spec_delete i owner U = (let x = (case owner of None \<Rightarrow> i | Some o' \<Rightarrow> o') in
     case U x of None \<Rightarrow> U
     | Some M \<Rightarrow> if M - {#i#} = {#} then U(x := None) else U(x \<mapsto> M - {#i#}))"

text \<open>Every program that uses the maps of \<open>x\<close> has the list of their users.\<close>

definition users_agree :: "'d host \<Rightarrow> 'd \<Rightarrow> u32 \<Rightarrow> bool" where
  "users_agree H d x \<longleftrightarrow> (\<exists>us. map_get_used_by H (map_tree x) d = Ok us \<and>
     (\<forall>u \<in> set us. prog_tree u \<in> set (db_tree_names H d) \<longrightarrow>
       (\<exists>us'. get_maps_used_by H \<lparr>db_tree = prog_tree u\<rparr> d = Ok us' \<and> mset us' = mset us)))"

lemma maps_abs_cong:
  "(\<And>i. T (map_tree i) = T' (map_tree i)) \<Longrightarrow> maps_abs H T U = maps_abs H T' U"
  by (simp add: maps_abs_def)

lemma maps_abs_other: "t \<notin> range map_tree \<Longrightarrow> maps_abs H (T(t := v)) U \<longleftrightarrow> maps_abs H T U"
  by (rule maps_abs_cong) auto

lemma maps_abs_upd:
  "maps_abs H T U \<Longrightarrow> users H m M \<Longrightarrow> maps_abs H (T(map_tree x \<mapsto> m)) (U(x \<mapsto> M))"
  by (auto simp: maps_abs_def)

lemma maps_abs_drop: "maps_abs H T U \<Longrightarrow> maps_abs H (T(map_tree x := None)) (U(x := None))"
  by (auto simp: maps_abs_def)

lemma programs_ok_upd: "programs_ok H T \<Longrightarrow> t \<notin> range prog_tree \<Longrightarrow> programs_ok H (T(t := v))"
  by (auto simp: programs_ok_def)

lemma names_upd_users: "upd_users H us I T t \<noteq> None \<longleftrightarrow> T t \<noteq> None"
  by (simp add: upd_users_def)

lemma maps_abs_upd_users: "maps_abs H (upd_users H us I T) U \<longleftrightarrow> maps_abs H T U"
  by (rule maps_abs_cong) simp

lemma db_inv_map:
  assumes "db_inv H T U" and "U x = Some M"
  obtains m where "T (map_tree x) = Some m" and "users H m M"
proof -
  have "rel_option (users H) (T (map_tree x)) (Some M)"
    using assms unfolding db_inv_def maps_abs_def by metis
  then show ?thesis using that by (cases "T (map_tree x)") auto
qed

context store
begin

lemma users_agree_upd:
  assumes "\<alpha> d (map_tree x) = Some m" and "users H m (mset us)"
    and upd: "\<And>u. u \<in> set us \<Longrightarrow> \<alpha> d (prog_tree u) = map_option (with_users H us) (T (prog_tree u))"
  shows "users_agree H d x"
proof -
  obtain us0 where us0: "map_get_used_by H (map_tree x) d = Ok us0" "mset us0 = mset us"
    using users_read [OF assms(1, 2)] by blast
  have "\<exists>us'. get_maps_used_by H \<lparr>db_tree = prog_tree u\<rparr> d = Ok us' \<and> mset us' = mset us0"
    if "u \<in> set us0" "prog_tree u \<in> set (db_tree_names H d)" for u
  proof -
    from that us0(2) have "u \<in> set us" by (metis mset_eq_setD)
    with that(2) upd obtain pm where
      "\<alpha> d (db_tree \<lparr>db_tree = prog_tree u\<rparr>) = Some (with_users H us pm)" by (auto simp: in_names)
    from read_with_users [OF this] us0(2) show ?thesis by simp
  qed
  with us0 show ?thesis by (auto simp: users_agree_def)
qed

text \<open>What saving a further user does to the trees.\<close>

lemma save_shared_run:
  assumes H: "os_db E = H" and str: "\<And>t. \<alpha> (wdb w) t \<noteq> None \<Longrightarrow> is_str t" and progs: "programs_ok H (\<alpha> (wdb w))"
    and m: "\<alpha> (wdb w) (map_tree x) = Some m" "users H m M"
    and t: "db_tree (program_get_data p) = pre_load_tree r"
    and pm: "\<alpha> (wdb w) (db_tree (program_get_data p)) = Some pm"
  obtains d' us where "save_map E p i (Some x) w = (Ok (), w\<lparr>wdb := d'\<rparr>)" and "mset us = add_mset i M"
    and "\<alpha> d' = upd_users H us (set us) ((\<alpha> (wdb w))
      (map_tree x \<mapsto> m(MAPS_USED_BY_PREFIX @ show_nat (size M + 1) \<mapsto> ne4 H i), pre_load_tree r \<mapsto> with_users H us pm))"
proof -
  let ?pd = "program_get_data p" and ?d = "wdb w" and ?T = "\<alpha> (wdb w)"
  let ?dd = "opened H (map_tree x) ?d"
  have d0: "(get_map H x :: ('d, bpfman_error, string option) st) ?d = (Ok (Some (map_tree x)), ?dd)"
    by (rule get_map_some) (use str m(1) in auto)
  have a0: "\<alpha> ?dd = ?T" by (rule abs_opened_old [OF m(1)])
  have m0: "\<alpha> ?dd (map_tree x) = Some m" using a0 m(1) by simp
  let ?mm = "m(MAPS_USED_BY_PREFIX @ show_nat (size M + 1) \<mapsto> ne4 H i)"
  obtain d1 where d1: "map_push_used_by H (map_tree x) i ?dd = (Ok (), d1)"
    "\<alpha> d1 = ?T(map_tree x \<mapsto> ?mm)" using push_ok [OF m0 m(2), of i] a0 by metis
  have u1: "users H ?mm (add_mset i M)" by (rule users_push_map [OF m(2)])
  have m1: "\<alpha> d1 (map_tree x) = Some ?mm" using d1(2) by simp
  obtain us where us: "map_get_used_by H (map_tree x) d1 = Ok us" "mset us = add_mset i M"
    using users_read [OF m1 u1] by blast
  have pm1: "\<alpha> d1 (db_tree ?pd) = Some pm" using d1(2) pm by (simp add: t)
  obtain d2 where d2: "set_maps_used_by H ?pd us d1 = (Ok (), d2)"
    "\<alpha> d2 = (\<alpha> d1)(db_tree ?pd \<mapsto> with_users H us pm)" using set_with_users [OF pm1] by metis
  have ok2: "programs_ok H (\<alpha> d2)"
    unfolding d2(2) d1(2) t using progs by (intro programs_ok_upd) auto
  obtain d3 where d3: "try_for_each (update_user H us) us d2 = (Ok (), d3)"
    "\<alpha> d3 = upd_users H us (set us) (\<alpha> d2)" using update_users_ok [OF ok2] by metis
  have "save_map E p i (Some x) w = (Ok (), w\<lparr>wdb := d3\<rparr>)"
    by (simp add: save_map_def H bind_st_def then_st_def d0 d1(1) us(1) d2(1) d3(1) Let_def)
  with that [OF _ us(2)] d3(2) d2(2) d1(2) t show ?thesis by simp
qed

lemma save_shared_ok:
  assumes H: "os_db E = H" and inv: "db_inv H (\<alpha> (wdb w)) U" and M: "U x = Some M"
    and t: "db_tree (program_get_data p) = pre_load_tree r"
    and pm: "\<alpha> (wdb w) (db_tree (program_get_data p)) = Some pm"
  obtains d' us where "save_map E p i (Some x) w = (Ok (), w\<lparr>wdb := d'\<rparr>)"
    and "mset us = add_mset i M" and "db_inv H (\<alpha> d') (spec_save i (Some x) U)"
    and "users_agree H d' x" and "\<alpha> d' (db_tree (program_get_data p)) = Some (with_users H us pm)"
proof -
  let ?T = "\<alpha> (wdb w)"
  from inv M obtain m where m: "?T (map_tree x) = Some m" "users H m M" by (rule db_inv_map)
  have str: "\<And>t. ?T t \<noteq> None \<Longrightarrow> is_str t" and progs: "programs_ok H ?T" and abs: "maps_abs H ?T U"
    using inv by (auto simp: db_inv_def)
  let ?mm = "m(MAPS_USED_BY_PREFIX @ show_nat (size M + 1) \<mapsto> ne4 H i)"
  have u1: "users H ?mm (add_mset i M)" by (rule users_push_map [OF m(2)])
  obtain d' us where run: "save_map E p i (Some x) w = (Ok (), w\<lparr>wdb := d'\<rparr>)" and us: "mset us = add_mset i M"
    and T': "\<alpha> d' = upd_users H us (set us) (?T(map_tree x \<mapsto> ?mm, pre_load_tree r \<mapsto> with_users H us pm))"
    using save_shared_run [OF H str progs m t pm, of i] by metis
  let ?T2 = "?T(map_tree x \<mapsto> ?mm, pre_load_tree r \<mapsto> with_users H us pm)"
  have ok2: "programs_ok H ?T2" using progs by (intro programs_ok_upd) auto
  have ne: "pre_load_tree r \<notin> range map_tree" by auto
  have "maps_abs H ?T2 (U(x \<mapsto> add_mset i M))"
    unfolding maps_abs_other [OF ne] by (rule maps_abs_upd [OF abs u1])
  then have "maps_abs H (\<alpha> d') (spec_save i (Some x) U)" unfolding T' maps_abs_upd_users using M by (simp add: spec_save_def)
  moreover have "\<And>t. \<alpha> d' t \<noteq> None \<Longrightarrow> is_str t" unfolding T' names_upd_users using str by (auto split: if_splits)
  ultimately have inv': "db_inv H (\<alpha> d') (spec_save i (Some x) U)"
    using programs_ok_upd_users [OF ok2, of us "set us"] T' by (simp add: db_inv_def)
  have m3: "\<alpha> d' (map_tree x) = Some ?mm" unfolding T' by simp
  have "users_agree H d' x"
    by (rule users_agree_upd [OF m3, of us ?T2]) (use u1 us T' in \<open>auto simp: upd_users_def\<close>)
  moreover have "\<alpha> d' (db_tree (program_get_data p)) = Some (with_users H us pm)"
    unfolding T' t by (subst upd_users_other) auto
  ultimately show ?thesis using that run us inv' by blast
qed

text \<open>Saving the first user writes the trees before the pin path is looked at.\<close>

lemma save_own_run:
  assumes H: "os_db E = H" and fresh: "\<alpha> (wdb w) (map_tree i) = None"
    and t: "db_tree (program_get_data p) = pre_load_tree r"
    and pm: "\<alpha> (wdb w) (db_tree (program_get_data p)) = Some pm"
  obtains d' where "save_map E p i None w = (case get_map_pin_path H (program_get_data p) d' of
        Ok (Some path) \<Rightarrow> (case set_dir_permissions (io_fault E) path MAPS_MODE (wfs w) of (r, f) \<Rightarrow> (r, w\<lparr>wdb := d', wfs := f\<rparr>))
      | Ok None \<Rightarrow> (Err (Error (''map_pin_path should be set for '' @ show_u32 i)), w\<lparr>wdb := d'\<rparr>)
      | Err e \<Rightarrow> (Err e, w\<lparr>wdb := d'\<rparr>) | Panic q \<Rightarrow> (Panic q, w\<lparr>wdb := d'\<rparr>))"
    and "\<alpha> d' = (\<alpha> (wdb w))(map_tree i \<mapsto> numbered MAPS_USED_BY_PREFIX [ne4 H i],
      pre_load_tree r \<mapsto> with_users H [i] pm)"
proof -
  let ?pd = "program_get_data p" and ?d = "wdb w" and ?T = "\<alpha> (wdb w)"
  let ?dd = "opened H (map_tree i) ?d"
  have a0: "\<alpha> ?dd (map_tree i) = Some Map.empty" using fresh by simp
  let ?de = "map_users.wrote (map_tree i) [i] ?dd"
  let ?m = "numbered MAPS_USED_BY_PREFIX [ne4 H i]"
  have de: "map_set_used_by H (map_tree i) [i] ?dd = (Ok (), ?de)" "\<alpha> ?de = ?T(map_tree i \<mapsto> ?m)"
    using map_users.set_run [OF a0, of "[i]"] map_users.abs_wrote [OF a0, of "[i]"] fresh
    by (simp_all add: map_set_used_by_def)
  have pme: "\<alpha> ?de (db_tree ?pd) = Some pm" using de(2) pm by (simp add: t)
  obtain d2 where d2: "set_maps_used_by H ?pd [i] ?de = (Ok (), d2)"
    "\<alpha> d2 = (\<alpha> ?de)(db_tree ?pd \<mapsto> with_users H [i] pm)" using set_with_users [OF pme] by metis
  have "save_map E p i None w = (case get_map_pin_path H ?pd d2 of
        Ok (Some path) \<Rightarrow> (case set_dir_permissions (io_fault E) path MAPS_MODE (wfs w) of (r, f) \<Rightarrow> (r, w\<lparr>wdb := d2, wfs := f\<rparr>))
      | Ok None \<Rightarrow> (Err (Error (''map_pin_path should be set for '' @ show_u32 i)), w\<lparr>wdb := d2\<rparr>)
      | Err e \<Rightarrow> (Err e, w\<lparr>wdb := d2\<rparr>) | Panic q \<Rightarrow> (Panic q, w\<lparr>wdb := d2\<rparr>))"
    by (simp add: save_map_def H bind_st_def then_st_def Let_def de(1) d2(1) case_prod_beta split: res.split option.split)
  with that d2(2) de(2) t show ?thesis by simp
qed

lemma save_own_ok:
  assumes H: "os_db E = H" and inv: "db_inv H (\<alpha> (wdb w)) U" and new: "U i = None"
    and t: "db_tree (program_get_data p) = pre_load_tree r"
    and pm: "\<alpha> (wdb w) (db_tree (program_get_data p)) = Some pm"
    and path: "pm MAP_PIN_PATH = Some (as_bytes path)" "is_str path"
  obtains d' where "save_map E p i None w =
      (case set_dir_permissions (io_fault E) path MAPS_MODE (wfs w) of (r, f) \<Rightarrow> (r, w\<lparr>wdb := d', wfs := f\<rparr>))"
    and "db_inv H (\<alpha> d') (spec_save i None U)"
    and "\<alpha> d' = (\<alpha> (wdb w))(map_tree i \<mapsto> numbered MAPS_USED_BY_PREFIX [ne4 H i],
      db_tree (program_get_data p) \<mapsto> with_users H [i] pm)"
proof -
  let ?pd = "program_get_data p" and ?T = "\<alpha> (wdb w)" and ?m = "numbered MAPS_USED_BY_PREFIX [ne4 H i]"
  have str: "\<And>t. ?T t \<noteq> None \<Longrightarrow> is_str t" and progs: "programs_ok H ?T" and abs: "maps_abs H ?T U"
    using inv by (auto simp: db_inv_def)
  have "rel_option (users H) (?T (map_tree i)) None" using abs new unfolding maps_abs_def by metis
  then have fresh: "?T (map_tree i) = None" by (cases "?T (map_tree i)") auto
  obtain d' where run: "save_map E p i None w = (case get_map_pin_path H ?pd d' of
        Ok (Some path) \<Rightarrow> (case set_dir_permissions (io_fault E) path MAPS_MODE (wfs w) of (r, f) \<Rightarrow> (r, w\<lparr>wdb := d', wfs := f\<rparr>))
      | Ok None \<Rightarrow> (Err (Error (''map_pin_path should be set for '' @ show_u32 i)), w\<lparr>wdb := d'\<rparr>)
      | Err e \<Rightarrow> (Err e, w\<lparr>wdb := d'\<rparr>) | Panic q \<Rightarrow> (Panic q, w\<lparr>wdb := d'\<rparr>))"
    and T': "\<alpha> d' = ?T(map_tree i \<mapsto> ?m, pre_load_tree r \<mapsto> with_users H [i] pm)"
    using save_own_run [OF H fresh t pm] by metis
  have "\<alpha> d' (db_tree ?pd) = Some (with_users H [i] pm)" using T' t by simp
  then have "get_map_pin_path H ?pd d' = Ok (Some path)"
    using path by (simp add: get_map_pin_path_def with_users_other)
  with run have run': "save_map E p i None w = (case set_dir_permissions (io_fault E) path MAPS_MODE (wfs w) of
      (r, f) \<Rightarrow> (r, w\<lparr>wdb := d', wfs := f\<rparr>))" by simp
  have u: "users H ?m {#i#}" using users_numbered [of Map.empty H "[i]"] by simp
  have "maps_abs H (\<alpha> d') (U(i \<mapsto> {#i#}))"
    unfolding T' by (subst maps_abs_other) (auto intro: maps_abs_upd [OF abs u])
  moreover have "programs_ok H (\<alpha> d')" unfolding T' using progs by (intro programs_ok_upd) auto
  ultimately have "db_inv H (\<alpha> d') (spec_save i None U)"
    using T' str by (auto simp: db_inv_def spec_save_def split: if_splits)
  with that [OF run'] T' t show ?thesis by simp
qed

text \<open>The list of users without the program that is deleted.\<close>

lemma remove_user_mset:
  "mset (case position (\<lambda>v. v = i) us of Some n \<Rightarrow> swap_remove n us | None \<Rightarrow> us) = mset us - {#i#}"
proof (cases "position (\<lambda>v. v = i) us")
  case None
  then have "i \<notin># mset us" by (auto simp: position_None)
  with None show ?thesis by (simp add: diff_single_trivial)
next
  case (Some n)
  with position_Some [OF Some] show ?thesis by (simp add: mset_swap_remove)
qed

lemma delete_run:
  assumes H: "os_db E = H" and str: "\<And>t. \<alpha> (wdb w) t \<noteq> None \<Longrightarrow> is_str t" and progs: "programs_ok H (\<alpha> (wdb w))"
    and x: "x = (case owner of Some o' \<Rightarrow> o' | None \<Rightarrow> i)" and m: "\<alpha> (wdb w) (map_tree x) = Some m" "users H m M"
  obtains d' us m' where "users H m' (M - {#i#})" and "mset us = M - {#i#}"
    and "M - {#i#} = {#} \<longrightarrow> delete_map E i owner w =
      (case remove_dir_all (io_fault E) (calc_map_pin_path x) (wfs w) of (r, f) \<Rightarrow>
        (map_err (\<lambda>e. Error (''can't delete map dir: '' @ e)) r, w\<lparr>wdb := d', wfs := f\<rparr>))
      \<and> \<alpha> d' = (\<alpha> (wdb w))(map_tree x := None)"
    and "M - {#i#} \<noteq> {#} \<longrightarrow> delete_map E i owner w = (Ok (), w\<lparr>wdb := d'\<rparr>)
      \<and> \<alpha> d' = upd_users H us (set us) ((\<alpha> (wdb w))(map_tree x \<mapsto> m'))"
proof -
  let ?d = "wdb w" and ?T = "\<alpha> (wdb w)"
  let ?dd = "opened H (map_tree x) ?d"
  have get: "(get_map H x :: ('d, bpfman_error, string option) st) ?d = (Ok (Some (map_tree x)), ?dd)"
    by (rule get_map_some) (use str m(1) in auto)
  have a0: "\<alpha> ?dd = ?T" by (rule abs_opened_old [OF m(1)])
  then have m0: "\<alpha> ?dd (map_tree x) = Some m" using m(1) by simp
  obtain us0 where us0: "map_get_used_by H (map_tree x) ?dd = Ok us0" "mset us0 = M"
    using users_read [OF m0 m(2)] by blast
  define us where "us = (case position (\<lambda>v. v = i) us0 of Some n \<Rightarrow> swap_remove n us0 | None \<Rightarrow> us0)"
  have us: "mset us = M - {#i#}" unfolding us_def remove_user_mset us0(2) ..
  let ?m = "m |` {k. \<not> prefix MAPS_USED_BY_PREFIX k} ++ numbered MAPS_USED_BY_PREFIX (map (ne4 H) us)"
  obtain d1 d2 where d1: "map_clear_used_by H (map_tree x) ?dd = (Ok (), d1)"
    and d2: "map_set_used_by H (map_tree x) us d1 = (Ok (), d2)" "\<alpha> d2 = ?T(map_tree x \<mapsto> ?m)"
    using clear_set_ok [OF m0, of us] a0 by metis
  have u: "users H ?m (M - {#i#})" unfolding us [symmetric] by (rule users_numbered) simp
  note steps = delete_map_def H bind_st_def then_st_def Let_def x [symmetric] get us0(1)
    us_def [symmetric] d1 d2(1)
  show ?thesis
  proof (cases "M - {#i#} = {#}")
    case True
    then have nil: "us = []" using us by simp
    let ?d3 = "dropped H (map_tree x) d2"
    have "delete_map E i owner w =
      (case remove_dir_all (io_fault E) (calc_map_pin_path x) (wfs w) of (r, f) \<Rightarrow>
        (map_err (\<lambda>e. Error (''can't delete map dir: '' @ e)) r, w\<lparr>wdb := ?d3, wfs := f\<rparr>))"
      by (simp add: steps nil d2(1) [unfolded nil] map_err_st_def case_prod_beta)
    moreover have "\<alpha> ?d3 = ?T(map_tree x := None)" using d2(2) by simp
    ultimately show ?thesis using that [OF u us] True by blast
  next
    case False
    then have ne: "us \<noteq> []" using us by auto
    have ok2: "programs_ok H (\<alpha> d2)" unfolding d2(2) using progs by (intro programs_ok_upd) auto
    obtain d3 where d3: "try_for_each (update_user H us) us d2 = (Ok (), d3)"
      "\<alpha> d3 = upd_users H us (set us) (\<alpha> d2)" using update_users_ok [OF ok2] by metis
    have "delete_map E i owner w = (Ok (), w\<lparr>wdb := d3\<rparr>)" by (simp add: steps ne d3(1))
    with that [OF u us] False d3(2) d2(2) show ?thesis by simp
  qed
qed

lemma delete_ok:
  assumes H: "os_db E = H" and inv: "db_inv H (\<alpha> (wdb w)) U"
    and x: "x = (case owner of Some o' \<Rightarrow> o' | None \<Rightarrow> i)" and M: "U x = Some M"
  obtains d' where "db_inv H (\<alpha> d') (spec_delete i owner U)"
    and "M - {#i#} = {#} \<longrightarrow> delete_map E i owner w =
      (case remove_dir_all (io_fault E) (calc_map_pin_path x) (wfs w) of (r, f) \<Rightarrow>
        (map_err (\<lambda>e. Error (''can't delete map dir: '' @ e)) r, w\<lparr>wdb := d', wfs := f\<rparr>))"
    and "M - {#i#} = {#} \<longrightarrow> \<alpha> d' = (\<alpha> (wdb w))(map_tree x := None)"
    and "M - {#i#} \<noteq> {#} \<longrightarrow> delete_map E i owner w = (Ok (), w\<lparr>wdb := d'\<rparr>) \<and> users_agree H d' x"
proof -
  let ?T = "\<alpha> (wdb w)"
  from inv M obtain m where m: "?T (map_tree x) = Some m" "users H m M" by (rule db_inv_map)
  have str: "\<And>t. ?T t \<noteq> None \<Longrightarrow> is_str t" and progs: "programs_ok H ?T" and abs: "maps_abs H ?T U"
    using inv by (auto simp: db_inv_def)
  obtain d' us m' where u: "users H m' (M - {#i#})" and us: "mset us = M - {#i#}"
    and last: "M - {#i#} = {#} \<longrightarrow> delete_map E i owner w =
      (case remove_dir_all (io_fault E) (calc_map_pin_path x) (wfs w) of (r, f) \<Rightarrow>
        (map_err (\<lambda>e. Error (''can't delete map dir: '' @ e)) r, w\<lparr>wdb := d', wfs := f\<rparr>))
      \<and> \<alpha> d' = ?T(map_tree x := None)"
    and more: "M - {#i#} \<noteq> {#} \<longrightarrow> delete_map E i owner w = (Ok (), w\<lparr>wdb := d'\<rparr>)
      \<and> \<alpha> d' = upd_users H us (set us) (?T(map_tree x \<mapsto> m'))"
    by (rule delete_run [OF H str progs x m])
  show ?thesis
  proof (cases "M - {#i#} = {#}")
    case True
    have progs': "programs_ok H (?T(map_tree x := None))" by (intro programs_ok_upd progs) auto
    have "db_inv H (\<alpha> d') (spec_delete i owner U)"
      using maps_abs_drop [OF abs, of x] progs' str True M last
      by (auto simp: db_inv_def spec_delete_def x split: if_splits option.splits)
    with that True last show ?thesis by blast
  next
    case False
    let ?T2 = "?T(map_tree x \<mapsto> m')"
    have T': "\<alpha> d' = upd_users H us (set us) ?T2" using more False by blast
    have ok2: "programs_ok H ?T2" using progs by (intro programs_ok_upd) auto
    have m3: "\<alpha> d' (map_tree x) = Some m'" unfolding T' by simp
    have "users_agree H d' x"
      by (rule users_agree_upd [OF m3, of us ?T2]) (use u us T' in \<open>auto simp: upd_users_def\<close>)
    moreover have "maps_abs H (\<alpha> d') (U(x \<mapsto> M - {#i#}))"
      unfolding T' maps_abs_upd_users by (rule maps_abs_upd [OF abs u])
    moreover have "\<And>t. \<alpha> d' t \<noteq> None \<Longrightarrow> is_str t"
      unfolding T' names_upd_users using str by (auto split: if_splits)
    ultimately have "db_inv H (\<alpha> d') (spec_delete i owner U)"
      using programs_ok_upd_users [OF ok2, of us "set us"] T' False M
      by (auto simp: db_inv_def spec_delete_def x split: option.splits)
    with that more \<open>users_agree H d' x\<close> False show ?thesis by blast
  qed
qed

end


subsection \<open>Properties of the map bookkeeping\<close>

definition demo_map_db :: ref_db where
  "demo_map_db = [
     (map_tree 3, [(MAPS_USED_BY_PREFIX @ show_nat 0, ne4 ref_host 3)]),
     (prog_tree 3, [(ID, ne4 ref_host 3), (KIND, ne4 ref_host (program_type_to_u32 ProgramType_Xdp))]),
     (pre_load_tree 7, [(MAP_PIN_PATH, as_bytes ''/p'')])]"

abbreviation demo_os :: "ref_db os_host" where
  "demo_os \<equiv> \<lparr>os_db = ref_host, io_fault = \<lambda>_ _. None\<rparr>"

abbreviation demo_map_world :: "(ref_db, unit) world" where
  "demo_map_world \<equiv> \<lparr>wdb = demo_map_db, wfs = [''/p'' \<mapsto> Dir 0, calc_map_pin_path 3 \<mapsto> Dir 0], wkern = ()\<rparr>"

abbreviation demo_new_prog :: program where
  "demo_new_prog \<equiv> Program_Xdp \<lparr>xdp_data = \<lparr>db_tree = pre_load_tree 7\<rparr>\<rparr>"

lemma demo_map_inv: "db_inv ref_host (ref_abs demo_map_db) [3 \<mapsto> {#3#}]"
proof -
  have "users ref_host [MAPS_USED_BY_PREFIX @ show_nat 0 \<mapsto> ne4 ref_host 3] {#3#}"
    using users_numbered [of Map.empty ref_host "[3]"] by (simp add: numbered_def)
  moreover have "ref_abs demo_map_db (map_tree i) =
      (if i = 3 then Some [MAPS_USED_BY_PREFIX @ show_nat 0 \<mapsto> ne4 ref_host 3] else None)" for i
    by (simp add: demo_map_db_def ref_abs_def)
  ultimately have "maps_abs ref_host (ref_abs demo_map_db) [3 \<mapsto> {#3#}]"
    by (simp add: maps_abs_def)
  moreover have "programs_ok ref_host (ref_abs demo_map_db)"
    by (auto simp: programs_ok_def demo_map_db_def ref_abs_def prog_ok_def supported_kinds_def split: if_splits)
  moreover have "\<forall>t. ref_abs demo_map_db t \<noteq> None \<longrightarrow> is_str t"
    by (auto simp: demo_map_db_def ref_abs_def split: if_splits)
  ultimately show ?thesis by (simp add: db_inv_def)
qed

lemma demo_map_world_inv: "db_inv (os_db demo_os) (ref_abs (wdb demo_map_world)) [3 \<mapsto> {#3#}]"
  using demo_map_inv by simp

text \<open>
  Sharing refines the abstract state. When a program that uses the maps of \<open>x\<close> was loaded,
  \<open>save_map\<close> adds it to the users of \<open>x\<close> and to nothing else, gives the program and every
  loaded user of the maps the same new list, and does not touch the file system.
\<close>

lemma save_map_shared_refines:
  assumes "store (os_db E) \<alpha>" and "db_inv (os_db E) (\<alpha> (wdb w)) U" and "U x = Some M"
    and "db_tree (program_get_data p) = pre_load_tree r"
    and "\<alpha> (wdb w) (pre_load_tree r) = Some pm"
  shows "\<exists>d' us. save_map E p i (Some x) w = (Ok (), w\<lparr>wdb := d'\<rparr>)
    \<and> db_inv (os_db E) (\<alpha> d') (spec_save i (Some x) U)
    \<and> users_agree (os_db E) d' x
    \<and> get_maps_used_by (os_db E) (program_get_data p) d' = Ok us \<and> mset us = add_mset i M"
proof -
  note st = assms(1)
  have pm: "\<alpha> (wdb w) (db_tree (program_get_data p)) = Some pm" using assms(4, 5) by simp
  obtain d' us where run: "save_map E p i (Some x) w = (Ok (), w\<lparr>wdb := d'\<rparr>)"
    and us: "mset us = add_mset i M" and inv: "db_inv (os_db E) (\<alpha> d') (spec_save i (Some x) U)"
      "users_agree (os_db E) d' x"
    and pm': "\<alpha> d' (db_tree (program_get_data p)) = Some (with_users (os_db E) us pm)"
    by (rule store.save_shared_ok [OF st, OF refl assms(2, 3, 4) pm])
  from store.read_with_users [OF st, OF pm'] us run inv show ?thesis by auto
qed

lemma save_map_shared_refines_witness:
  "\<exists>d' us. save_map demo_os demo_new_prog 8 (Some 3) demo_map_world = (Ok (), demo_map_world\<lparr>wdb := d'\<rparr>)
    \<and> db_inv (os_db demo_os) (ref_abs d') (spec_save 8 (Some 3) [3 \<mapsto> {#3#}])
    \<and> users_agree (os_db demo_os) d' 3
    \<and> get_maps_used_by (os_db demo_os) (program_get_data demo_new_prog) d' = Ok us \<and> mset us = {#8, 3#}"
proof -
  have st: "store (os_db demo_os) ref_abs" using ref_store by simp
  show ?thesis
    by (rule save_map_shared_refines [where E = demo_os and \<alpha> = ref_abs and w = demo_map_world
        and U = "[3 \<mapsto> {#3#}]" and r = 7 and M = "{#3#}"
        and pm = "[MAP_PIN_PATH \<mapsto> as_bytes ''/p'']", OF st demo_map_world_inv])
      (simp_all add: demo_map_db_def ref_abs_def)
qed

text \<open>
  A program with maps of its own starts as their only user: \<open>save_map\<close> adds the entry
  for it, gives the program that list, and sets the modes of its pinned maps; an
  unreadable pin directory panics after the database was written.
\<close>

lemma save_map_own_refines:
  assumes "store (os_db E) \<alpha>" and "db_inv (os_db E) (\<alpha> (wdb w)) U" and "U i = None"
    and "db_tree (program_get_data p) = pre_load_tree r"
    and "\<alpha> (wdb w) (pre_load_tree r) = Some pm"
    and "pm MAP_PIN_PATH = Some (as_bytes path)" and "is_str path"
  shows "\<exists>d' f. save_map E p i None w =
      (fst (set_dir_permissions (io_fault E) path MAPS_MODE (wfs w)), w\<lparr>wdb := d', wfs := f\<rparr>)
    \<and> f = snd (set_dir_permissions (io_fault E) path MAPS_MODE (wfs w) :: (unit, unit) res \<times> fs)
    \<and> db_inv (os_db E) (\<alpha> d') (spec_save i None U)
    \<and> get_maps_used_by (os_db E) (program_get_data p) d' = Ok [i]"
proof -
  note st = assms(1)
  have pm: "\<alpha> (wdb w) (db_tree (program_get_data p)) = Some pm" using assms(4, 5) by simp
  obtain d' where run: "save_map E p i None w =
      (case set_dir_permissions (io_fault E) path MAPS_MODE (wfs w) of (r, f) \<Rightarrow> (r, w\<lparr>wdb := d', wfs := f\<rparr>))"
    and inv: "db_inv (os_db E) (\<alpha> d') (spec_save i None U)"
    and T: "\<alpha> d' = (\<alpha> (wdb w))(map_tree i \<mapsto> numbered MAPS_USED_BY_PREFIX [ne4 (os_db E) i],
      db_tree (program_get_data p) \<mapsto> with_users (os_db E) [i] pm)"
    by (rule store.save_own_ok [OF st, OF refl assms(2, 3, 4) pm assms(6, 7)])
  from T have m: "\<alpha> d' (db_tree (program_get_data p)) = Some (with_users (os_db E) [i] pm)" by simp
  from store.read_with_users [OF st, OF m]
  have "get_maps_used_by (os_db E) (program_get_data p) d' = Ok [i]" by auto
  with run inv show ?thesis
    by (auto simp: case_prod_beta set_dir_permissions_def split: option.splits fs_node.splits)
qed

lemma save_map_own_refines_witness:
  "\<exists>d' f. save_map demo_os demo_new_prog 8 None demo_map_world =
      (fst (set_dir_permissions (io_fault demo_os) ''/p'' MAPS_MODE (wfs demo_map_world)),
       demo_map_world\<lparr>wdb := d', wfs := f\<rparr>)
    \<and> f = snd (set_dir_permissions (io_fault demo_os) ''/p'' MAPS_MODE (wfs demo_map_world)
        :: (unit, unit) res \<times> fs)
    \<and> db_inv (os_db demo_os) (ref_abs d') (spec_save 8 None [3 \<mapsto> {#3#}])
    \<and> get_maps_used_by (os_db demo_os) (program_get_data demo_new_prog) d' = Ok [8]"
proof -
  have st: "store (os_db demo_os) ref_abs" using ref_store by simp
  show ?thesis
    by (rule save_map_own_refines [where E = demo_os and \<alpha> = ref_abs and w = demo_map_world
        and U = "[3 \<mapsto> {#3#}]" and r = 7
        and pm = "[MAP_PIN_PATH \<mapsto> as_bytes ''/p'']", OF st demo_map_world_inv])
      (simp_all add: demo_map_db_def ref_abs_def)
qed

text \<open>
  Unloading refines the abstract state. \<open>delete_map\<close> removes one occurrence of the program
  from the users of the maps. When it was the last one, the map tree is dropped and the
  pin directory removed, and the outcome is that of removing the directory; otherwise the
  call succeeds, the file system stays, and the remaining users get the same new list.
\<close>

lemma delete_map_refines:
  assumes "store (os_db E) \<alpha>" and "db_inv (os_db E) (\<alpha> (wdb w)) U"
    and "U (case owner of Some o' \<Rightarrow> o' | None \<Rightarrow> i) = Some M"
  shows "\<exists>r d' f. delete_map E i owner w = (r, w\<lparr>wdb := d', wfs := f\<rparr>)
    \<and> db_inv (os_db E) (\<alpha> d') (spec_delete i owner U)
    \<and> (let x = (case owner of Some o' \<Rightarrow> o' | None \<Rightarrow> i) in
       if M - {#i#} = {#}
       then (r, f) = map_err_st (\<lambda>e. Error (''can't delete map dir: '' @ e))
              (remove_dir_all (io_fault E) (calc_map_pin_path x)) (wfs w)
            \<and> \<alpha> d' (map_tree x) = None
       else r = Ok () \<and> f = wfs w \<and> users_agree (os_db E) d' x)"
proof -
  let ?x = "case owner of Some o' \<Rightarrow> o' | None \<Rightarrow> i"
  obtain d' where inv: "db_inv (os_db E) (\<alpha> d') (spec_delete i owner U)"
    and last: "M - {#i#} = {#} \<longrightarrow> delete_map E i owner w =
      (case remove_dir_all (io_fault E) (calc_map_pin_path ?x) (wfs w) of (r, f) \<Rightarrow>
        (map_err (\<lambda>e. Error (''can't delete map dir: '' @ e)) r, w\<lparr>wdb := d', wfs := f\<rparr>))"
      "M - {#i#} = {#} \<longrightarrow> \<alpha> d' = (\<alpha> (wdb w))(map_tree ?x := None)"
    and more: "M - {#i#} \<noteq> {#} \<longrightarrow>
      delete_map E i owner w = (Ok (), w\<lparr>wdb := d'\<rparr>) \<and> users_agree (os_db E) d' ?x"
    by (rule store.delete_ok [OF assms(1), OF refl assms(2) refl assms(3)])
  show ?thesis
  proof (cases "M - {#i#} = {#}")
    case True
    with inv last show ?thesis by (auto simp: Let_def map_err_st_def case_prod_beta)
  next
    case False
    with inv more show ?thesis
      by (intro exI [of _ "Ok ()"] exI [of _ d'] exI [of _ "wfs w"]) (simp add: Let_def)
  qed
qed

lemma delete_map_refines_witness:
  "\<exists>r d' f. delete_map demo_os 3 None demo_map_world = (r, demo_map_world\<lparr>wdb := d', wfs := f\<rparr>)
    \<and> db_inv (os_db demo_os) (ref_abs d') (spec_delete 3 None [3 \<mapsto> {#3#}])
    \<and> ref_abs d' (map_tree 3) = None \<and> r = Ok ()"
proof -
  have st: "store (os_db demo_os) ref_abs" using ref_store by simp
  from delete_map_refines [where E = demo_os and \<alpha> = ref_abs and w = demo_map_world
      and U = "[3 \<mapsto> {#3#}]" and owner = None and i = 3 and M = "{#3#}",
      OF st demo_map_world_inv] show ?thesis
    by (auto simp: Let_def map_err_st_def remove_dir_all_def)
qed

end
