(* ===== verification/Bpfman_Config.thy ===== *)
theory Bpfman_Config
  imports Program_Maps
begin

text \<open>
  Configuration and start-up: \<open>config.rs\<close>, \<open>dispatcher_config.rs\<close>, the parts of
  \<open>utils.rs\<close> that prepare the directories, and \<open>init_database\<close>, \<open>init_image_manager\<close>
  and \<open>setup\<close> of \<open>lib.rs\<close>. The TOML parser, the text of the configuration file, the mount
  table, the system calls and the outcome of each attempt to open the database are
  parameters.
\<close>


subsection \<open>config.rs\<close>

datatype xdp_mode = XdpMode_Skb | XdpMode_Drv | XdpMode_Hw

datatype xdp_flags = SKB_MODE | DRV_MODE | HW_MODE

fun xdp_mode_as_flags :: "xdp_mode \<Rightarrow> xdp_flags" where
  "xdp_mode_as_flags XdpMode_Skb = SKB_MODE"
| "xdp_mode_as_flags XdpMode_Drv = DRV_MODE"
| "xdp_mode_as_flags XdpMode_Hw = HW_MODE"

fun xdp_mode_to_u32 :: "xdp_mode \<Rightarrow> u32" where
  "xdp_mode_to_u32 XdpMode_Skb = 0"
| "xdp_mode_to_u32 XdpMode_Drv = 1"
| "xdp_mode_to_u32 XdpMode_Hw = 2"

definition xdp_mode_from_u32 :: "u32 \<Rightarrow> (parse_error, xdp_mode) res" where
  "xdp_mode_from_u32 mode =
     (if mode = 0 then Ok XdpMode_Skb
      else if mode = 1 then Ok XdpMode_Drv
      else if mode = 2 then Ok XdpMode_Hw
      else Err (InvalidXdpMode (show_u32 mode)))"

fun show_xdp_mode :: "xdp_mode \<Rightarrow> string" where
  "show_xdp_mode XdpMode_Skb = ''skb''"
| "show_xdp_mode XdpMode_Drv = ''drv''"
| "show_xdp_mode XdpMode_Hw = ''hw''"

record interface_config =
  xdp_mode_of :: xdp_mode

record signing_config =
  signing_allow_unsigned :: bool

record database_config =
  max_retries :: u32
  millisec_delay :: u64

definition signing_config_default :: signing_config where
  "signing_config_default = \<lparr>signing_allow_unsigned = True\<rparr>"

definition database_config_default :: database_config where
  "database_config_default = \<lparr>max_retries = 10, millisec_delay = 1000\<rparr>"

record config =
  interfaces :: "(string, interface_config) hashmap option"
  signing :: "signing_config option"
  database :: "database_config option"

definition config_default :: config where
  "config_default = \<lparr>interfaces = None, signing = None, database = None\<rparr>"

definition config_from_str :: "(string \<Rightarrow> string + config) \<Rightarrow> string \<Rightarrow> (parse_error, config) res" where
  "config_from_str toml s = map_err ConfigParseError (of_sum (toml s))"

lemma xdp_mode_round_trip [simp]: "xdp_mode_from_u32 (xdp_mode_to_u32 m) = Ok m"
  by (cases m) (simp_all add: xdp_mode_from_u32_def)

text \<open>\<open>file\<close> is the outcome of reading the configuration file.\<close>

definition open_config_file :: "(string \<Rightarrow> string + config) \<Rightarrow> string + string \<Rightarrow> config" where
  "open_config_file toml file = (case file of
     Inl e \<Rightarrow> config_default
   | Inr c \<Rightarrow> (case config_from_str toml c of Ok x \<Rightarrow> x | _ \<Rightarrow> config_default))"


subsection \<open>dispatcher_config.rs\<close>

abbreviation (input) MAX_DISPATCHER_ACTIONS :: nat where "MAX_DISPATCHER_ACTIONS \<equiv> 10"
abbreviation (input) TC_MAX_DISPATCHER_ACTIONS :: nat where "TC_MAX_DISPATCHER_ACTIONS \<equiv> 10"

record xdp_dispatcher_config =
  magic :: u8
  dispatcher_version :: u8
  num_progs_enabled :: u8
  is_xdp_frags :: u8
  chain_call_actions :: "u32 list"
  run_prios :: "u32 list"
  program_flags :: "u32 list"

definition xdp_dispatcher_config_new ::
  "u8 \<Rightarrow> u8 \<Rightarrow> u32 list \<Rightarrow> u32 list \<Rightarrow> u32 list \<Rightarrow> xdp_dispatcher_config" where
  "xdp_dispatcher_config_new n frags actions prios flags =
     \<lparr>magic = 236, dispatcher_version = 2, num_progs_enabled = n, is_xdp_frags = frags,
      chain_call_actions = actions, run_prios = prios, program_flags = flags\<rparr>"

record tc_dispatcher_config =
  tc_num_progs_enabled :: u8
  tc_chain_call_actions :: "u32 list"
  tc_run_prios :: "u32 list"


subsection \<open>init_database and init_image_manager\<close>

text \<open>
  \<open>open_db i\<close> is the outcome of the i-th attempt. The second component of the result is the
  list of delays slept through, in milliseconds.
\<close>

primrec open_attempts ::
  "(nat \<Rightarrow> string + 'a) \<Rightarrow> u64 \<Rightarrow> nat \<Rightarrow> nat \<Rightarrow> (bpfman_error, 'a) res \<times> u64 list" where
  "open_attempts open_db delay i 0 = (Err DatabaseLockError, [])"
| "open_attempts open_db delay i (Suc n) = (case open_db i of
     Inr db \<Rightarrow> (Ok db, [])
   | Inl e \<Rightarrow> (case open_attempts open_db delay (Suc i) n of (r, ds) \<Rightarrow> (r, delay # ds)))"

definition init_database ::
  "config \<Rightarrow> (nat \<Rightarrow> string + 'a) \<Rightarrow> (bpfman_error, 'a) res \<times> u64 list" where
  "init_database cfg open_db =
     (let dc = (case database cfg of Some c \<Rightarrow> c | None \<Rightarrow> database_config_default)
      in open_attempts open_db (millisec_delay dc) 1 (unat (max_retries dc) - 1))"

definition unsigned_allowed :: "config \<Rightarrow> bool" where
  "unsigned_allowed cfg = (case signing cfg of None \<Rightarrow> True | Some s \<Rightarrow> signing_allow_unsigned s)"

definition init_image_manager :: "config \<Rightarrow> sigstore \<Rightarrow> ('e, image_manager) res" where
  "init_image_manager cfg S =
     expect_res ''failed to initialize image manager'' (image_manager_new S (unsigned_allowed cfg))"

lemma init_image_manager_Ok: "init_image_manager cfg S = Ok im \<Longrightarrow> allow_unsigned (cosign im) = unsigned_allowed cfg"
  by (auto simp: init_image_manager_def image_manager_new_def cosign_new_def bind_res_eq_Ok)

lemma open_attempts_run:
  "open_attempts open_db delay i n =
     (case find (\<lambda>k. \<exists>x. open_db k = Inr x) [i..<i + n] of
        Some k \<Rightarrow> (Ok (projr (open_db k)), replicate (k - i) delay)
      | None \<Rightarrow> (Err DatabaseLockError, replicate n delay))"
proof (induction n arbitrary: i)
  case (Suc n)
  have range: "[i..<i + Suc n] = i # [Suc i..<Suc i + n]" by (simp add: upt_conv_Cons)
  have later: "find P [Suc i..<Suc i + n] = Some k \<Longrightarrow> k - i = Suc (k - Suc i)" for P and k :: nat
    using nth_upt [of "Suc i" _ "Suc i + n"] by (auto simp: find_Some_iff simp del: upt_Suc)
  show ?case
    unfolding range using later
    by (cases "open_db i") (auto simp: Suc.IH split: option.split)
qed simp

text \<open>
  C24: \<open>init_database\<close> makes one attempt less than the configured \<open>max_retries\<close> (ten when
  nothing is configured) and stops at the first that succeeds: it returns a database exactly
  when one of the attempts 1 to \<open>max_retries - 1\<close> opens it and all before failed, having
  slept once per failed attempt; otherwise it sleeps after every attempt and reports that
  the lock is held. With \<open>max_retries\<close> 0 or 1 it never tries.
\<close>

theorem init_database_attempts:
  "init_database cfg open_db =
    (let dc = (case database cfg of Some c \<Rightarrow> c | None \<Rightarrow> \<lparr>max_retries = 10, millisec_delay = 1000\<rparr>)
     in case find (\<lambda>k. \<exists>x. open_db k = Inr x) [1..<unat (max_retries dc)] of
       Some k \<Rightarrow> (Ok (projr (open_db k)), replicate (k - 1) (millisec_delay dc))
     | None \<Rightarrow> (Err DatabaseLockError, replicate (unat (max_retries dc) - 1) (millisec_delay dc)))"
proof -
  have range: "[1..<1 + (n - 1)] = [1..<n]" for n :: nat
    by (cases n) simp_all
  show ?thesis
    unfolding init_database_def open_attempts_run Let_def range database_config_default_def
    by simp
qed


subsection \<open>Start-up of \<open>utils.rs\<close>\<close>

abbreviation CFGDIR :: string where "CFGDIR \<equiv> ''/etc/bpfman''"
abbreviation CFGDIR_STATIC_PROGRAMS :: string where "CFGDIR_STATIC_PROGRAMS \<equiv> ''/etc/bpfman/programs.d''"
abbreviation (input) CFGDIR_MODE :: u32 where "CFGDIR_MODE \<equiv> 0xDE8"
abbreviation (input) RTDIR_MODE :: u32 where "RTDIR_MODE \<equiv> 0xDF8"
abbreviation (input) STDIR_MODE :: u32 where "STDIR_MODE \<equiv> 0xDF8"
abbreviation RTDIR :: string where "RTDIR \<equiv> ''/run/bpfman''"
abbreviation RTDIR_XDP_DISPATCHER :: string where "RTDIR_XDP_DISPATCHER \<equiv> ''/run/bpfman/dispatchers/xdp''"
abbreviation RTDIR_TC_INGRESS_DISPATCHER :: string where
  "RTDIR_TC_INGRESS_DISPATCHER \<equiv> ''/run/bpfman/dispatchers/tc-ingress''"
abbreviation RTDIR_TC_EGRESS_DISPATCHER :: string where
  "RTDIR_TC_EGRESS_DISPATCHER \<equiv> ''/run/bpfman/dispatchers/tc-egress''"
abbreviation RTDIR_PROGRAMS :: string where "RTDIR_PROGRAMS \<equiv> ''/run/bpfman/programs''"
abbreviation STDIR :: string where "STDIR \<equiv> ''/var/lib/bpfman''"

text \<open>
  What start-up asks of the operating system: whether a capability is held, which may fail, whether
  the limit on locked memory can be lifted, the mount table, and mounting a BPF file system
  on a directory, which gives the file system that is visible afterwards.
\<close>

record os_start =
  caps_has_cap :: "string \<Rightarrow> string + bool"
  setrlimit_ok :: bool
  proc_mounts :: "string + (string + string) list"
  mount_bpf :: "string \<Rightarrow> fs \<Rightarrow> string + fs"

text \<open>\<open>has_cap\<close> logs what it finds and panics when the capabilities cannot be read.\<close>

definition has_cap :: "os_start \<Rightarrow> string \<Rightarrow> (fs, 'e, unit) st" where
  "has_cap S cap = (case caps_has_cap S cap of Inl e \<Rightarrow> panic ''unwrap'' | Inr b \<Rightarrow> ret ())"

definition create_bpffs :: "os_start \<Rightarrow> string \<Rightarrow> (fs, string, unit) st" where
  "create_bpffs S dir f = (case mount_bpf S dir f of
     Inl e \<Rightarrow> (Err (''unable to create bpffs at '' @ dir), f) | Inr f' \<Rightarrow> (Ok (), f'))"

definition create_dirs :: "io_fault \<Rightarrow> (string \<times> string) list \<Rightarrow> (fs, string, unit) st" where
  "create_dirs F ds = try_for_each (\<lambda>(p, ctx). map_err_st (\<lambda>_. ctx) (create_dir_all F p)) ds"

definition initialize_bpfman :: "os_start \<Rightarrow> io_fault \<Rightarrow> (fs, string, unit) st" where
  "initialize_bpfman S F =
     then_st (has_cap S ''CAP_BPF'') (
     then_st (has_cap S ''CAP_SYS_ADMIN'') (
     if \<not> setrlimit_ok S then throw ''must be privileged to run bpfman''
     else
        then_st (create_dirs F [
          (RTDIR, ''unable to create runtime directory''),
          (RTDIR_FS, ''unable to create mountpoint''),
          (RTDIR_TC_INGRESS_DISPATCHER, ''unable to create dispatcher directory''),
          (RTDIR_TC_EGRESS_DISPATCHER, ''unable to create dispatcher directory''),
          (RTDIR_XDP_DISPATCHER, ''unable to create dispatcher directory''),
          (RTDIR_PROGRAMS, ''unable to create programs directory'')]) (
        bind_st (reads (\<lambda>_. of_sum (is_bpffs_mounted (proc_mounts S)))) (\<lambda>mounted.
        then_st (if mounted then ret () else create_bpffs S RTDIR_FS) (
        then_st (create_dirs F [
          (RTDIR_FS_XDP, ''unable to create xdp dispatcher directory''),
          (RTDIR_FS_TC_INGRESS, ''unable to create tc ingress dispatcher directory''),
          (RTDIR_FS_TC_EGRESS, ''unable to create tc egress dispatcher directory''),
          (RTDIR_FS_MAPS, ''unable to create maps directory''),
          (RTDIR_TUF, ''unable to create TUF directory''),
          (STDIR, ''unable to create state directory''),
          (CFGDIR_STATIC_PROGRAMS, ''unable to create static programs directory'')]) (
        then_st (set_dir_permissions F CFGDIR CFGDIR_MODE) (
        then_st (set_dir_permissions F RTDIR RTDIR_MODE)
          (set_dir_permissions F STDIR STDIR_MODE))))))))"

definition caps_readable :: "os_start \<Rightarrow> bool" where
  "caps_readable S \<longleftrightarrow> (\<forall>cap \<in> {''CAP_BPF'', ''CAP_SYS_ADMIN''}. \<not> isl (caps_has_cap S cap))"

lemma has_cap_readable: "caps_readable S \<Longrightarrow> cap \<in> {''CAP_BPF'', ''CAP_SYS_ADMIN''} \<Longrightarrow> has_cap S cap = ret ()"
  by (auto simp: caps_readable_def has_cap_def split: sum.split)

end
