(* ===== verification/Aya_Kernel.thy ===== *)
theory Aya_Kernel
  imports Bpfman_Config
begin

text \<open>
  The interface to the kernel. The sources reach it through the aya crate, netlink and
  one helper process, none of which is part of them, so every such call is an event of the
  log \<open>kcall list\<close> that the world carries, and its outcome is given by the parameter
  \<open>aya\<close>: functions of the log so far (and, for pins, of the file system). A successful pin
  creates its path. The record \<open>env\<close> collects the parameters of the manager, with whether
  the build checks integer overflow (as debug builds do).
\<close>


subsection \<open>Loader settings, objects and calls\<close>

datatype probe_kind = KProbe_K | KRetProbe_K | UProbe_K | URetProbe_K

text \<open>\<open>impl From<aya::programs::ProbeKind> for ProbeType\<close>.\<close>

fun probe_type_from_kind :: "probe_kind \<Rightarrow> probe_type" where
  "probe_type_from_kind KProbe_K = ProbeType_Kprobe"
| "probe_type_from_kind KRetProbe_K = ProbeType_Kretprobe"
| "probe_type_from_kind UProbe_K = ProbeType_Uprobe"
| "probe_type_from_kind URetProbe_K = ProbeType_Uretprobe"

datatype aya_kind =
    Is_Xdp | Is_SchedClassifier | Is_Extension | Is_TracePoint | Is_KProbe probe_kind
  | Is_UProbe probe_kind | Is_FEntry | Is_FExit | Is_Other

datatype global_value =
    Global_Bytes bytes
  | Global_Xdp xdp_dispatcher_config
  | Global_Tc tc_dispatcher_config

record bpf_loader =
  bl_globals :: "(string \<times> global_value) list"
  bl_extensions :: "string list"
  bl_allow_unsupported_maps :: bool
  bl_map_pin_path :: "string option"

definition bpf_loader_new :: bpf_loader where
  "bpf_loader_new = \<lparr>bl_globals = [], bl_extensions = [], bl_allow_unsupported_maps = False, bl_map_pin_path = None\<rparr>"

text \<open>A loaded object: its programs by name with their kinds, and the names of its maps.\<close>

record bpf_obj =
  obj_handle :: nat
  obj_programs :: "(string \<times> aya_kind) list"
  obj_maps :: "string list"

datatype prog_ref = In_Obj nat string | Pinned_Ext nat

datatype prog_load_arg = Load_Plain | Load_Ext prog_ref string | Load_Fn string

datatype attach_arg =
    Attach_Xdp string xdp_flags
  | Attach_Xdp_Link nat
  | Attach_Tc string direction u16
  | Attach_Ext
  | Attach_Ext_To prog_ref string
  | Attach_TracePoint string string
  | Attach_KProbe string u64
  | Attach_UProbe "string option" u64 string
  | Attach_Loaded

datatype kcall =
    K_Load bpf_loader bytes
  | K_Prog_Load prog_ref prog_load_arg
  | K_Fd prog_ref
  | K_Fd_Clone prog_ref
  | K_Info prog_ref
  | K_Prog_From_Pin string
  | K_Attach prog_ref attach_arg
  | K_Take_Link prog_ref nat
  | K_Into_Fd_Link nat
  | K_Link_From_Pin string
  | K_Into_Xdp_Link nat
  | K_Pin_Prog prog_ref string
  | K_Pin_Link nat string
  | K_Pin_Map nat string string
  | K_Netlink
  | K_Qdisc_Get
  | K_Qdisc_Add_Clsact string
  | K_Tc_Attached string direction u16 u32
  | K_Detach nat
  | K_Btf
  | K_Command string "string list"
  | K_Loaded_Programs

type_synonym klog = "kcall list"
type_synonym 'd kworld = "('d, klog) world"

text \<open>
  Outcomes, per kind of answer: an object, nothing, a handle, program information, the
  node a pin creates, the queueing disciplines (interface index and kinds of each message),
  the loaded programs, and whether the helper process succeeded with its error output.
\<close>

record aya =
  a_load :: "klog \<Rightarrow> bpf_loader \<Rightarrow> bytes \<Rightarrow> string + bpf_obj"
  a_unit :: "klog \<Rightarrow> kcall \<Rightarrow> string + unit"
  a_num :: "klog \<Rightarrow> kcall \<Rightarrow> string + nat"
  a_info :: "klog \<Rightarrow> prog_ref \<Rightarrow> string + aya_prog_info"
  a_pin :: "klog \<Rightarrow> fs \<Rightarrow> kcall \<Rightarrow> string + fs_node"
  a_handle :: "klog \<Rightarrow> nat \<Rightarrow> u32"
  a_qdiscs :: "klog \<Rightarrow> (string + i32 \<times> string list) list"
  a_loaded :: "klog \<Rightarrow> (string + aya_prog_info) list"
  a_command :: "klog \<Rightarrow> kcall \<Rightarrow> string + bool \<times> bytes"

definition k_call :: "(klog \<Rightarrow> string + 'a) \<Rightarrow> kcall \<Rightarrow> ('d kworld, string, 'a) st" where
  "k_call reply c = on_kern (\<lambda>l. (of_sum (reply l), l @ [c]))"

text \<open>A call whose answer is not an error by itself.\<close>

definition k_tell :: "(klog \<Rightarrow> 'a) \<Rightarrow> kcall \<Rightarrow> ('d kworld, 'e, 'a) st" where
  "k_tell answer c = on_kern (\<lambda>l. (Ok (answer l), l @ [c]))"

definition k_load :: "aya \<Rightarrow> bpf_loader \<Rightarrow> bytes \<Rightarrow> ('d kworld, string, bpf_obj) st" where
  "k_load A b bs = k_call (\<lambda>l. a_load A l b bs) (K_Load b bs)"

definition k_unit :: "aya \<Rightarrow> kcall \<Rightarrow> ('d kworld, string, unit) st" where
  "k_unit A c = k_call (\<lambda>l. a_unit A l c) c"

definition k_num :: "aya \<Rightarrow> kcall \<Rightarrow> ('d kworld, string, nat) st" where
  "k_num A c = k_call (\<lambda>l. a_num A l c) c"

definition k_info :: "aya \<Rightarrow> prog_ref \<Rightarrow> ('d kworld, string, aya_prog_info) st" where
  "k_info A p = k_call (\<lambda>l. a_info A l p) (K_Info p)"

definition k_pin :: "aya \<Rightarrow> kcall \<Rightarrow> string \<Rightarrow> ('d kworld, string, unit) st" where
  "k_pin A c path w = (case a_pin A (wkern w) (wfs w) c of
     Inl e \<Rightarrow> (Err e, w\<lparr>wkern := wkern w @ [c]\<rparr>)
   | Inr n \<Rightarrow> (Ok (), w\<lparr>wfs := (wfs w)(path \<mapsto> n), wkern := wkern w @ [c]\<rparr>))"

definition unwrap_st :: "('s, 'e, 'a) st \<Rightarrow> ('s, 'f, 'a) st" where
  "unwrap_st = expect_st ''unwrap''"

text \<open>\<open>program_mut(name)\<close> and \<open>try_into\<close> to one of aya's program types.\<close>

definition program_mut :: "bpf_obj \<Rightarrow> string \<Rightarrow> aya_kind option" where
  "program_mut obj name = map_of (obj_programs obj) name"

definition try_into :: "(aya_kind \<Rightarrow> bool) \<Rightarrow> aya_kind \<Rightarrow> (bpfman_error, unit) res" where
  "try_into P k = (if P k then Ok () else Err (BpfProgramError ''unexpected program type''))"


subsection \<open>The parameters of the manager\<close>

record ('d, 'sig, 'layer) env =
  e_os :: "'d os_host"
  e_oci :: "('sig, 'layer) oci"
  e_aya :: aya
  e_open_file :: "string \<Rightarrow> string + (string + bytes)"
  e_nametoindex :: "string \<Rightarrow> u32 option"
  e_start :: os_start
  e_toml :: "string \<Rightarrow> string + config"
  e_config_file :: "string + string"
  e_db_open :: "nat \<Rightarrow> string + unit"
  e_sigstore :: sigstore
  e_overflow_checks :: bool

abbreviation e_db :: "('d, 'sig, 'layer) env \<Rightarrow> 'd host" where "e_db E \<equiv> os_db (e_os E)"
abbreviation e_fault :: "('d, 'sig, 'layer) env \<Rightarrow> io_fault" where "e_fault E \<equiv> io_fault (e_os E)"

lemma k_call_app [simp]: "k_call reply c w = (of_sum (reply (wkern w)), w\<lparr>wkern := wkern w @ [c]\<rparr>)"
  by (simp add: k_call_def)

lemma k_tell_app [simp]: "k_tell answer c w = (Ok (answer (wkern w)), w\<lparr>wkern := wkern w @ [c]\<rparr>)"
  by (simp add: k_tell_def)

lemma unwrap_st_app: "unwrap_st m w = (expect_res ''unwrap'' (fst (m w)), snd (m w))"
  by (simp add: unwrap_st_def expect_st_def case_prod_beta)

lemmas k_defs = k_load_def k_unit_def k_num_def k_info_def

end
