(* ===== verification/Dispatchers.thy ===== *)
theory Dispatchers
  imports Aya_Kernel "HOL-Library.Option_ord"
begin

text \<open>
  \<open>bpfman/src/multiprog\<close>: the XDP and the TC dispatcher, each a database tree and, once
  loaded, a BPF object, and the enumeration over the two. Loading computes the dispatcher's
  configuration from the positions and the proceed-on masks of the programs, attaches
  every program to its slot, attaches the dispatcher and deletes the one it replaces.
\<close>


subsection \<open>The records in the database\<close>

abbreviation TC_DISPATCHER_PREFIX :: string where "TC_DISPATCHER_PREFIX \<equiv> ''tc_dispatcher_''"
abbreviation XDP_DISPATCHER_PREFIX :: string where "XDP_DISPATCHER_PREFIX \<equiv> ''xdp_dispatcher_''"
abbreviation (input) DEFAULT_PRIORITY :: u32 where "DEFAULT_PRIORITY \<equiv> 50"
abbreviation (input) TC_DISPATCHER_PRIORITY :: u16 where "TC_DISPATCHER_PRIORITY \<equiv> 50"
abbreviation REVISION :: string where "REVISION \<equiv> ''revision''"
abbreviation IF_INDEX :: string where "IF_INDEX \<equiv> ''if_index''"
abbreviation IF_NAME :: string where "IF_NAME \<equiv> ''if_name''"
abbreviation MODE :: string where "MODE \<equiv> ''mode''"
abbreviation PRIORITY :: string where "PRIORITY \<equiv> ''priority''"
abbreviation DIRECTION :: string where "DIRECTION \<equiv> ''direction''"
abbreviation NUM_EXTENSIONS :: string where "NUM_EXTENSIONS \<equiv> ''num_extension''"
abbreviation PROGRAM_NAME :: string where "PROGRAM_NAME \<equiv> ''program_name''"
abbreviation HANDLE :: string where "HANDLE \<equiv> ''handle''"

record xdp_dispatcher =
  xd_tree :: string
  xd_loader :: "bpf_obj option"

record tc_dispatcher =
  td_tree :: string
  td_loader :: "bpf_obj option"

datatype dispatcher = Dispatcher_Xdp xdp_dispatcher | Dispatcher_Tc tc_dispatcher

definition xdp_disp_tree :: "u32 \<Rightarrow> u32 \<Rightarrow> string" where
  "xdp_disp_tree if_index revision =
     XDP_DISPATCHER_PREFIX @ ''_'' @ show_u32 if_index @ ''_'' @ show_u32 revision"

definition tc_disp_tree :: "u32 \<Rightarrow> direction \<Rightarrow> u32 \<Rightarrow> string" where
  "tc_disp_tree if_index dir revision =
     TC_DISPATCHER_PREFIX @ ''_'' @ show_u32 if_index @ ''_'' @ show_direction dir @ ''_'' @ show_u32 revision"

definition tree_u32 :: "'d host \<Rightarrow> string \<Rightarrow> string \<Rightarrow> 'd \<Rightarrow> (bpfman_error, u32) res" where
  "tree_u32 H key t d = bind_res (sled_get H t key d) (bytes_to_u32 H)"

definition tree_string :: "'d host \<Rightarrow> string \<Rightarrow> string \<Rightarrow> 'd \<Rightarrow> (bpfman_error, string) res" where
  "tree_string H key t d = bind_res (sled_get H t key d) bytes_to_string"

definition tree_usize :: "'d host \<Rightarrow> string \<Rightarrow> string \<Rightarrow> 'd \<Rightarrow> (bpfman_error, usize) res" where
  "tree_usize H key t d = bind_res (sled_get H t key d) (bytes_to_usize H)"

definition xd_set_revision :: "'d host \<Rightarrow> xdp_dispatcher \<Rightarrow> u32 \<Rightarrow> ('d, bpfman_error, unit) st" where
  "xd_set_revision H x v = sled_insert H (xd_tree x) REVISION (ne4 H v)"

definition xd_get_revision :: "'d host \<Rightarrow> xdp_dispatcher \<Rightarrow> 'd \<Rightarrow> (bpfman_error, u32) res" where
  "xd_get_revision H x = tree_u32 H REVISION (xd_tree x)"

definition xd_set_ifindex :: "'d host \<Rightarrow> xdp_dispatcher \<Rightarrow> u32 \<Rightarrow> ('d, bpfman_error, unit) st" where
  "xd_set_ifindex H x v = sled_insert H (xd_tree x) IF_INDEX (ne4 H v)"

definition xd_get_ifindex :: "'d host \<Rightarrow> xdp_dispatcher \<Rightarrow> 'd \<Rightarrow> (bpfman_error, u32) res" where
  "xd_get_ifindex H x = tree_u32 H IF_INDEX (xd_tree x)"

definition xd_set_ifname :: "'d host \<Rightarrow> xdp_dispatcher \<Rightarrow> string \<Rightarrow> ('d, bpfman_error, unit) st" where
  "xd_set_ifname H x v = sled_insert H (xd_tree x) IF_NAME (as_bytes v)"

definition xd_get_ifname :: "'d host \<Rightarrow> xdp_dispatcher \<Rightarrow> 'd \<Rightarrow> (bpfman_error, string) res" where
  "xd_get_ifname H x = tree_string H IF_NAME (xd_tree x)"

definition xd_set_mode :: "'d host \<Rightarrow> xdp_dispatcher \<Rightarrow> xdp_mode \<Rightarrow> ('d, bpfman_error, unit) st" where
  "xd_set_mode H x mode = sled_insert H (xd_tree x) MODE (ne4 H (xdp_mode_to_u32 mode))"

definition xd_get_mode :: "'d host \<Rightarrow> xdp_dispatcher \<Rightarrow> 'd \<Rightarrow> (bpfman_error, xdp_mode) res" where
  "xd_get_mode H x d = bind_res (tree_u32 H MODE (xd_tree x) d)
     (\<lambda>v. map_err (\<lambda>e. Error (show_parse_error e)) (xdp_mode_from_u32 v))"

definition xd_set_num_extensions :: "'d host \<Rightarrow> xdp_dispatcher \<Rightarrow> usize \<Rightarrow> ('d, bpfman_error, unit) st" where
  "xd_set_num_extensions H x v = sled_insert H (xd_tree x) NUM_EXTENSIONS (ne8 H v)"

definition xd_get_num_extensions :: "'d host \<Rightarrow> xdp_dispatcher \<Rightarrow> 'd \<Rightarrow> (bpfman_error, usize) res" where
  "xd_get_num_extensions H x = tree_usize H NUM_EXTENSIONS (xd_tree x)"

definition xd_set_program_name :: "'d host \<Rightarrow> xdp_dispatcher \<Rightarrow> string \<Rightarrow> ('d, bpfman_error, unit) st" where
  "xd_set_program_name H x v = sled_insert H (xd_tree x) PROGRAM_NAME (as_bytes v)"

definition xd_get_program_name :: "'d host \<Rightarrow> xdp_dispatcher \<Rightarrow> 'd \<Rightarrow> (bpfman_error, string) res" where
  "xd_get_program_name H x = tree_string H PROGRAM_NAME (xd_tree x)"

definition td_set_revision :: "'d host \<Rightarrow> tc_dispatcher \<Rightarrow> u32 \<Rightarrow> ('d, bpfman_error, unit) st" where
  "td_set_revision H x v = sled_insert H (td_tree x) REVISION (ne4 H v)"

definition td_get_revision :: "'d host \<Rightarrow> tc_dispatcher \<Rightarrow> 'd \<Rightarrow> (bpfman_error, u32) res" where
  "td_get_revision H x = tree_u32 H REVISION (td_tree x)"

definition td_set_ifindex :: "'d host \<Rightarrow> tc_dispatcher \<Rightarrow> u32 \<Rightarrow> ('d, bpfman_error, unit) st" where
  "td_set_ifindex H x v = sled_insert H (td_tree x) IF_INDEX (ne4 H v)"

definition td_get_ifindex :: "'d host \<Rightarrow> tc_dispatcher \<Rightarrow> 'd \<Rightarrow> (bpfman_error, u32) res" where
  "td_get_ifindex H x = tree_u32 H IF_INDEX (td_tree x)"

definition td_set_ifname :: "'d host \<Rightarrow> tc_dispatcher \<Rightarrow> string \<Rightarrow> ('d, bpfman_error, unit) st" where
  "td_set_ifname H x v = sled_insert H (td_tree x) IF_NAME (as_bytes v)"

definition td_get_ifname :: "'d host \<Rightarrow> tc_dispatcher \<Rightarrow> 'd \<Rightarrow> (bpfman_error, string) res" where
  "td_get_ifname H x = tree_string H IF_NAME (td_tree x)"

definition td_set_priority :: "'d host \<Rightarrow> tc_dispatcher \<Rightarrow> u16 \<Rightarrow> ('d, bpfman_error, unit) st" where
  "td_set_priority H x v = sled_insert H (td_tree x) PRIORITY (ne2 H v)"

definition td_get_priority :: "'d host \<Rightarrow> tc_dispatcher \<Rightarrow> 'd \<Rightarrow> (bpfman_error, u16) res" where
  "td_get_priority H x d = bind_res (sled_get H (td_tree x) PRIORITY d) (bytes_to_u16 H)"

definition td_set_direction :: "'d host \<Rightarrow> tc_dispatcher \<Rightarrow> direction \<Rightarrow> ('d, bpfman_error, unit) st" where
  "td_set_direction H x dir = sled_insert H (td_tree x) DIRECTION (ne4 H (direction_to_u32 dir))"

definition td_get_direction :: "'d host \<Rightarrow> tc_dispatcher \<Rightarrow> 'd \<Rightarrow> (bpfman_error, direction) res" where
  "td_get_direction H x d = bind_res (tree_u32 H DIRECTION (td_tree x) d)
     (\<lambda>v. map_err (\<lambda>e. Error (show_parse_error e)) (direction_from_u32 v))"

definition td_set_num_extensions :: "'d host \<Rightarrow> tc_dispatcher \<Rightarrow> usize \<Rightarrow> ('d, bpfman_error, unit) st" where
  "td_set_num_extensions H x v = sled_insert H (td_tree x) NUM_EXTENSIONS (ne8 H v)"

definition td_get_num_extensions :: "'d host \<Rightarrow> tc_dispatcher \<Rightarrow> 'd \<Rightarrow> (bpfman_error, usize) res" where
  "td_get_num_extensions H x = tree_usize H NUM_EXTENSIONS (td_tree x)"

definition td_set_program_name :: "'d host \<Rightarrow> tc_dispatcher \<Rightarrow> string \<Rightarrow> ('d, bpfman_error, unit) st" where
  "td_set_program_name H x v = sled_insert H (td_tree x) PROGRAM_NAME (as_bytes v)"

definition td_get_program_name :: "'d host \<Rightarrow> tc_dispatcher \<Rightarrow> 'd \<Rightarrow> (bpfman_error, string) res" where
  "td_get_program_name H x = tree_string H PROGRAM_NAME (td_tree x)"

definition td_set_handle :: "'d host \<Rightarrow> tc_dispatcher \<Rightarrow> u32 \<Rightarrow> ('d, bpfman_error, unit) st" where
  "td_set_handle H x v = sled_insert H (td_tree x) HANDLE (ne4 H v)"

definition td_get_handle :: "'d host \<Rightarrow> tc_dispatcher \<Rightarrow> 'd \<Rightarrow> (bpfman_error, u32 option) res" where
  "td_get_handle H x d = bind_res (sled_get_option H (td_tree x) HANDLE d) (opt_res (bytes_to_u32 H))"


subsection \<open>Construction and deletion\<close>

definition xd_new ::
  "'d host \<Rightarrow> xdp_mode \<Rightarrow> u32 \<Rightarrow> string \<Rightarrow> u32 \<Rightarrow> ('d, bpfman_error, xdp_dispatcher) st" where
  "xd_new H mode if_index if_name revision =
     (let x = \<lparr>xd_tree = xdp_disp_tree if_index revision, xd_loader = None\<rparr> in
      then_st (open_tree H ''Unable to open xdp dispatcher database tree'' (xd_tree x)) (
      then_st (xd_set_ifindex H x if_index) (
      then_st (xd_set_ifname H x if_name) (
      then_st (xd_set_mode H x mode) (
      then_st (xd_set_revision H x revision) (ret x))))))"

definition xd_new_from_db :: "string \<Rightarrow> xdp_dispatcher" where
  "xd_new_from_db t = \<lparr>xd_tree = t, xd_loader = None\<rparr>"

definition td_new ::
  "'d host \<Rightarrow> direction \<Rightarrow> u32 \<Rightarrow> string \<Rightarrow> u32 \<Rightarrow> ('d, bpfman_error, tc_dispatcher) st" where
  "td_new H dir if_index if_name revision =
     (let x = \<lparr>td_tree = tc_disp_tree if_index dir revision, td_loader = None\<rparr> in
      then_st (open_tree H ''Unable to open tc dispatcher database tree'' (td_tree x)) (
      then_st (td_set_ifindex H x if_index) (
      then_st (td_set_ifname H x if_name) (
      then_st (td_set_direction H x dir) (
      then_st (td_set_revision H x revision) (
      then_st (td_set_priority H x TC_DISPATCHER_PRIORITY) (ret x)))))))"

definition td_new_from_db :: "string \<Rightarrow> tc_dispatcher" where
  "td_new_from_db t = \<lparr>td_tree = t, td_loader = None\<rparr>"

text \<open>The paths of a dispatcher: its directory, the pin of its link, the pins of its extensions.\<close>

definition dispatcher_dir :: "string \<Rightarrow> u32 \<Rightarrow> u32 \<Rightarrow> string" where
  "dispatcher_dir base if_index revision =
     base @ ''/dispatcher_'' @ show_u32 if_index @ ''_'' @ show_u32 revision"

definition xdp_link_path :: "u32 \<Rightarrow> string" where
  "xdp_link_path if_index = RTDIR_FS_XDP @ ''/dispatcher_'' @ show_u32 if_index @ ''_link''"

definition extension_link_path :: "string \<Rightarrow> u32 \<Rightarrow> u32 \<Rightarrow> u32 \<Rightarrow> string" where
  "extension_link_path base if_index revision i =
     dispatcher_dir base if_index revision @ ''/link_'' @ show_u32 i"

fun tc_base :: "direction \<Rightarrow> string" where
  "tc_base Direction_Ingress = RTDIR_FS_TC_INGRESS"
| "tc_base Direction_Egress = RTDIR_FS_TC_EGRESS"

definition drop_dispatcher_tree :: "'d host \<Rightarrow> string \<Rightarrow> string \<Rightarrow> ('d, bpfman_error, unit) st" where
  "drop_dispatcher_tree H msg t d = (case db_drop_tree H t d of
     Inl e \<Rightarrow> (Err (DatabaseError (msg @ debug_bytes (as_bytes t)) e), d) | Inr d' \<Rightarrow> (Ok (), d'))"

definition xd_delete ::
  "('d, 'sig, 'layer) env \<Rightarrow> xdp_dispatcher \<Rightarrow> bool \<Rightarrow> ('d kworld, bpfman_error, unit) st" where
  "xd_delete E x full =
     bind_st (from_db (xd_get_ifindex (e_db E) x)) (\<lambda>if_index.
     bind_st (from_db (xd_get_revision (e_db E) x)) (\<lambda>revision.
     then_st (on_db (drop_dispatcher_tree (e_db E) ''unable to drop xdp dispatcher tree '' (xd_tree x))) (
     then_st (map_err_st (\<lambda>e. Error (''unable to cleanup state: '' @ e))
       (on_fs (remove_dir_all (e_fault E) (dispatcher_dir RTDIR_FS_XDP if_index revision)))) (
     if full then map_err_st (\<lambda>e. Error (''unable to cleanup state: '' @ e))
       (on_fs (remove_file (e_fault E) (xdp_link_path if_index)))
     else ret ()))))"

definition td_delete ::
  "('d, 'sig, 'layer) env \<Rightarrow> tc_dispatcher \<Rightarrow> bool \<Rightarrow> ('d kworld, bpfman_error, unit) st" where
  "td_delete E x full =
     bind_st (from_db (td_get_ifindex (e_db E) x)) (\<lambda>if_index.
     bind_st (from_db (td_get_ifname (e_db E) x)) (\<lambda>if_name.
     bind_st (from_db (td_get_revision (e_db E) x)) (\<lambda>revision.
     bind_st (from_db (td_get_direction (e_db E) x)) (\<lambda>dir.
     bind_st (from_db (td_get_handle (e_db E) x)) (\<lambda>handle.
     bind_st (from_db (td_get_priority (e_db E) x)) (\<lambda>priority.
     then_st (on_db (drop_dispatcher_tree (e_db E) ''unable to drop tc dispatcher tree '' (td_tree x))) (
     then_st (map_err_st (\<lambda>e. Error (''unable to cleanup state: '' @ e))
       (on_fs (remove_dir_all (e_fault E) (dispatcher_dir (tc_base dir) if_index revision)))) (
     case handle of
       Some old_handle \<Rightarrow> if full then (\<lambda>w. case k_num (e_aya E) (K_Tc_Attached if_name dir priority old_handle) w of
           (Ok old_link, w') \<Rightarrow> ignore_st (k_unit (e_aya E) (K_Detach old_link)) w'
         | (Err e, w') \<Rightarrow> (Ok (), w')
         | (Panic p, w') \<Rightarrow> (Panic p, w'))
         else ret ()
     | None \<Rightarrow> ret ()))))))))"

fun dispatcher_delete ::
  "('d, 'sig, 'layer) env \<Rightarrow> dispatcher \<Rightarrow> bool \<Rightarrow> ('d kworld, bpfman_error, unit) st" where
  "dispatcher_delete E (Dispatcher_Xdp x) full = xd_delete E x full"
| "dispatcher_delete E (Dispatcher_Tc x) full = td_delete E x full"

fun next_revision :: "'d host \<Rightarrow> dispatcher \<Rightarrow> 'd \<Rightarrow> ('e, u32) res" where
  "next_revision H (Dispatcher_Xdp x) d = ok_map (\<lambda>r. r + 1)
     (expect_res ''failed to get xdp_dispatcher revision'' (xd_get_revision H x d))"
| "next_revision H (Dispatcher_Tc x) d = ok_map (\<lambda>r. r + 1)
     (expect_res ''failed to get tc_dispatcher revision'' (td_get_revision H x d))"

fun num_extensions :: "'d host \<Rightarrow> dispatcher \<Rightarrow> 'd \<Rightarrow> ('e, usize) res" where
  "num_extensions H (Dispatcher_Xdp x) d =
     expect_res ''failed to get xdp_dispatcher num_extensions'' (xd_get_num_extensions H x d)"
| "num_extensions H (Dispatcher_Tc x) d =
     expect_res ''failed to get tc_dispatcher num_extensions'' (td_get_num_extensions H x d)"

definition dispatcher_new_from_db :: "string \<Rightarrow> ('e, dispatcher) res" where
  "dispatcher_new_from_db t = ok_map (\<lambda>s.
     if str_contains s ''xdp'' then Dispatcher_Xdp (xd_new_from_db t) else Dispatcher_Tc (td_new_from_db t))
     (bytes_to_string (as_bytes t))"


subsection \<open>The configuration of a dispatcher\<close>

text \<open>
  \<open>sort_by\<close> on the stored positions: a list of at most one element is not compared, so
  its position is not read.
\<close>

definition sort_by_position ::
  "('p \<Rightarrow> 'd \<Rightarrow> (bpfman_error, usize option) res) \<Rightarrow> 'p list \<Rightarrow> 'd \<Rightarrow> (bpfman_error, 'p list) res" where
  "sort_by_position pos ps d =
     (if length ps \<le> 1 then Ok ps
      else ok_map (\<lambda>ks. map snd (sort_key fst (zip ks ps)))
        (collect_res (map (\<lambda>p. expect_res ''unwrap'' (pos p d)) ps)))"

fun fill_actions ::
  "('p \<Rightarrow> 'd \<Rightarrow> (bpfman_error, usize option) res) \<Rightarrow> ('p \<Rightarrow> 'd \<Rightarrow> (bpfman_error, u32) res) \<Rightarrow>
   'p list \<Rightarrow> u32 list \<Rightarrow> 'd \<Rightarrow> (bpfman_error, u32 list) res" where
  "fill_actions pos msk [] acts d = Ok acts"
| "fill_actions pos msk (p # ps) acts d =
     bind_res (msk p d) (\<lambda>m.
     bind_res (pos p d) (\<lambda>k.
     bind_res (expect_opt ''unwrap'' k) (\<lambda>k.
     if unat k < length acts then fill_actions pos msk ps (acts[unat k := m]) d
     else Panic ''index out of bounds'')))"

definition xdp_position_mask :: "'d host \<Rightarrow> xdp_program \<Rightarrow> 'd \<Rightarrow> (bpfman_error, u32) res" where
  "xdp_position_mask H p d = ok_map xdp_mask (xdp_get_proceed_on H p d)"

definition tc_position_mask :: "'d host \<Rightarrow> tc_program \<Rightarrow> 'd \<Rightarrow> (bpfman_error, u32) res" where
  "tc_position_mask H p d = ok_map tc_mask (tc_get_proceed_on H p d)"


subsection \<open>Attaching the extensions\<close>

definition dispatcher_prog ::
  "(aya_kind \<Rightarrow> bool) \<Rightarrow> bpf_obj option \<Rightarrow> string \<Rightarrow> (bpfman_error, prog_ref) res" where
  "dispatcher_prog P loader name =
     bind_res (ok_or NotLoaded loader) (\<lambda>obj.
     bind_res (expect_opt ''unwrap'' (program_mut obj name)) (\<lambda>k.
     bind_res (try_into P k) (\<lambda>_. Ok (In_Obj (obj_handle obj) name))))"

definition pin_maps :: "aya \<Rightarrow> bpf_obj \<Rightarrow> string \<Rightarrow> ('d kworld, bpfman_error, unit) st" where
  "pin_maps A obj dir = try_for_each (\<lambda>name.
     if \<not> should_map_be_pinned name then ret ()
     else map_err_st UnableToPinMap
       (k_pin A (K_Pin_Map (obj_handle obj) name (dir @ ''/'' @ name)) (dir @ ''/'' @ name))) (obj_maps obj)"

text \<open>A program that owns its maps pins them in a directory named by its id.\<close>

definition pin_own_maps ::
  "('d, 'sig, 'layer) env \<Rightarrow> program_data \<Rightarrow> u32 \<Rightarrow> bpf_obj \<Rightarrow> ('d kworld, bpfman_error, unit) st" where
  "pin_own_maps E pd i obj =
     bind_st (from_db (get_map_pin_path (e_db E) pd)) (\<lambda>path.
     case path of Some _ \<Rightarrow> ret ()
     | None \<Rightarrow>
       (let dir = calc_map_pin_path i in
        then_st (on_db (set_map_pin_path (e_db E) pd dir)) (
        then_st (on_fs (create_map_pin_path (e_fault E) dir))
          (pin_maps (e_aya E) obj dir))))"

definition target_fn :: "nat \<Rightarrow> string" where
  "target_fn i = ''prog'' @ show_nat i"

text \<open>
  One turn of the loop of \<open>attach_extensions\<close>, the same in \<open>xdp.rs\<close> and \<open>tc.rs\<close> but for
  the base directory: a program that was attached before is attached again from its pin,
  another one is loaded, and its maps are pinned when it owns them.
\<close>

definition attach_pinned ::
  "('d, 'sig, 'layer) env \<Rightarrow> prog_ref \<Rightarrow> string \<Rightarrow> u32 \<Rightarrow> u32 \<Rightarrow> nat \<Rightarrow> program_data \<Rightarrow>
   ('d kworld, bpfman_error, unit) st" where
  "attach_pinned E disp base if_index revision i pd =
     bind_st (from_db (get_id (e_db E) pd)) (\<lambda>pid.
     bind_st (map_err_st BpfProgramError (k_num (e_aya E) (K_Prog_From_Pin (prog_pin pid)))) (\<lambda>h.
     let ext = Pinned_Ext h in
     then_st (unwrap_st (k_unit (e_aya E) (K_Fd disp))) (
     bind_st (unwrap_st (k_num (e_aya E) (K_Attach ext (Attach_Ext_To disp (target_fn i))))) (\<lambda>new_link_id.
     bind_st (map_err_st BpfProgramError (k_num (e_aya E) (K_Take_Link ext new_link_id))) (\<lambda>new_link.
     let path = extension_link_path base if_index revision pid in
     map_err_st UnableToPinLink (k_pin (e_aya E) (K_Pin_Link new_link path) path))))))"

definition attach_new ::
  "('d, 'sig, 'layer) env \<Rightarrow> prog_ref \<Rightarrow> string \<Rightarrow> u32 \<Rightarrow> u32 \<Rightarrow> nat \<Rightarrow> program_data \<Rightarrow>
   ('d kworld, bpfman_error, unit) st" where
  "attach_new E disp base if_index revision i pd =
     bind_st (from_db (get_name (e_db E) pd)) (\<lambda>name.
     bind_st (from_db (get_global_data (e_db E) pd)) (\<lambda>global_data.
     bind_st (from_db (get_map_pin_path (e_db E) pd)) (\<lambda>pin_path.
     let bpf = \<lparr>bl_globals = map (\<lambda>(k, v). (k, Global_Bytes v)) global_data,
       bl_extensions = [name], bl_allow_unsupported_maps = True, bl_map_pin_path = pin_path\<rparr> in
     bind_st (from_db (get_program_bytes (e_db E) pd)) (\<lambda>bs.
     bind_st (map_err_st BpfLoadError (k_load (e_aya E) bpf bs)) (\<lambda>obj.
     bind_st (reads (\<lambda>_. ok_or (BpfFunctionNameNotValid name) (program_mut obj name))) (\<lambda>k.
     then_st (reads (\<lambda>_. try_into (\<lambda>k. k = Is_Extension) k)) (
     let ext = In_Obj (obj_handle obj) name in
     then_st (map_err_st BpfProgramError (k_unit (e_aya E) (K_Fd disp))) (
     then_st (map_err_st BpfIOError (k_unit (e_aya E) (K_Fd_Clone disp))) (
     then_st (map_err_st BpfProgramError (k_unit (e_aya E) (K_Prog_Load ext (Load_Ext disp (target_fn i))))) (
     bind_st (map_err_st BpfProgramError (k_info (e_aya E) ext)) (\<lambda>info.
     then_st (on_db (set_kernel_info (e_db E) pd info)) (
     bind_st (from_db (get_id (e_db E) pd)) (\<lambda>pid.
     then_st (map_err_st UnableToPinProgram (k_pin (e_aya E) (K_Pin_Prog ext (prog_pin pid)) (prog_pin pid))) (
     bind_st (map_err_st BpfProgramError (k_num (e_aya E) (K_Attach ext Attach_Ext))) (\<lambda>new_link_id.
     bind_st (map_err_st BpfProgramError (k_num (e_aya E) (K_Take_Link ext new_link_id))) (\<lambda>new_link.
     let path = extension_link_path base if_index revision pid in
     then_st (map_err_st UnableToPinLink (k_pin (e_aya E) (K_Pin_Link new_link path) path))
       (pin_own_maps E pd pid obj)))))))))))))))))"

definition attach_extension ::
  "('d, 'sig, 'layer) env \<Rightarrow> prog_ref \<Rightarrow> string \<Rightarrow> u32 \<Rightarrow> u32 \<Rightarrow>
   (program_data \<Rightarrow> 'd \<Rightarrow> (bpfman_error, bool) res) \<Rightarrow> nat \<times> program_data \<Rightarrow> ('d kworld, bpfman_error, unit) st" where
  "attach_extension E disp base if_index revision attached v =
     bind_st (from_db (attached (snd v))) (\<lambda>a.
     if a then attach_pinned E disp base if_index revision (fst v) (snd v)
     else attach_new E disp base if_index revision (fst v) (snd v))"

definition xd_attach_extensions ::
  "('d, 'sig, 'layer) env \<Rightarrow> xdp_dispatcher \<Rightarrow> xdp_program list \<Rightarrow> ('d kworld, bpfman_error, unit) st" where
  "xd_attach_extensions E x extensions =
     bind_st (from_db (xd_get_ifindex (e_db E) x)) (\<lambda>if_index.
     bind_st (from_db (xd_get_revision (e_db E) x)) (\<lambda>revision.
     bind_st (from_db (xd_get_program_name (e_db E) x)) (\<lambda>program_name.
     bind_st (reads (\<lambda>_. dispatcher_prog (\<lambda>k. k = Is_Xdp) (xd_loader x) program_name)) (\<lambda>disp.
     bind_st (from_db (sort_by_position (xdp_get_current_position (e_db E)) extensions)) (\<lambda>exts.
     try_for_each (attach_extension E disp RTDIR_FS_XDP if_index revision
         (\<lambda>pd. xdp_get_attached (e_db E) \<lparr>xdp_data = pd\<rparr>))
       (enumerate 0 (map xdp_data exts)))))))"

definition td_attach_extensions ::
  "('d, 'sig, 'layer) env \<Rightarrow> tc_dispatcher \<Rightarrow> tc_program list \<Rightarrow> ('d kworld, bpfman_error, unit) st" where
  "td_attach_extensions E x extensions =
     bind_st (from_db (td_get_ifindex (e_db E) x)) (\<lambda>if_index.
     bind_st (from_db (td_get_revision (e_db E) x)) (\<lambda>revision.
     bind_st (from_db (td_get_direction (e_db E) x)) (\<lambda>dir.
     bind_st (from_db (td_get_program_name (e_db E) x)) (\<lambda>program_name.
     bind_st (reads (\<lambda>_. dispatcher_prog (\<lambda>k. k = Is_SchedClassifier) (td_loader x) program_name)) (\<lambda>disp.
     bind_st (from_db (sort_by_position (tc_get_current_position (e_db E)) extensions)) (\<lambda>exts.
     try_for_each (attach_extension E disp (tc_base dir) if_index revision
         (\<lambda>pd. tc_get_attached (e_db E) \<lparr>tc_data = pd\<rparr>))
       (enumerate 0 (map tc_data exts))))))))"


subsection \<open>Attaching and loading the XDP dispatcher\<close>

definition xd_attach ::
  "('d, 'sig, 'layer) env \<Rightarrow> xdp_dispatcher \<Rightarrow> ('d kworld, bpfman_error, unit) st" where
  "xd_attach E x =
     bind_st (from_db (xd_get_ifindex (e_db E) x)) (\<lambda>if_index.
     bind_st (from_db (xd_get_revision (e_db E) x)) (\<lambda>revision.
     bind_st (from_db (xd_get_mode (e_db E) x)) (\<lambda>mode.
     bind_st (from_db (xd_get_program_name (e_db E) x)) (\<lambda>program_name.
     bind_st (from_db (xd_get_ifname (e_db E) x)) (\<lambda>iface.
     bind_st (reads (\<lambda>_. dispatcher_prog (\<lambda>k. k = Is_Xdp) (xd_loader x) program_name)) (\<lambda>disp.
     let path = xdp_link_path if_index in
     bind_st (reads (\<lambda>w. Ok (path_exists (wfs w) path))) (\<lambda>present.
     if present then
       bind_st (unwrap_st (k_num (e_aya E) (K_Link_From_Pin path))) (\<lambda>pinned_link.
       bind_st (unwrap_st (k_num (e_aya E) (K_Into_Xdp_Link pinned_link))) (\<lambda>link.
       then_st (unwrap_st (k_num (e_aya E) (K_Attach disp (Attach_Xdp_Link link)))) (ret ())))
     else
       bind_st (map_err_st (\<lambda>e. Error (''dispatcher attach failed on interface '' @ iface @ '': '' @ e))
         (k_num (e_aya E) (K_Attach disp (Attach_Xdp iface (xdp_mode_as_flags mode))))) (\<lambda>link.
       bind_st (map_err_st BpfProgramError (k_num (e_aya E) (K_Take_Link disp link))) (\<lambda>owned_link.
       bind_st (map_err_st (\<lambda>e. Error (''FdLink conversion failed on interface '' @ iface @ '': '' @ e))
         (k_num (e_aya E) (K_Into_Fd_Link owned_link))) (\<lambda>fd_link.
       map_err_st UnableToPinLink (k_pin (e_aya E) (K_Pin_Link fd_link path) path)))))))))))"

fun xdp_of_program :: "program \<Rightarrow> ('e, xdp_program) res" where
  "xdp_of_program (Program_Xdp p) = Ok p"
| "xdp_of_program _ = Panic ''All programs should be of type XDP''"

fun tc_of_program :: "program \<Rightarrow> ('e, tc_program) res" where
  "tc_of_program (Program_Tc p) = Ok p"
| "tc_of_program _ = Panic ''All programs should be of type TC''"

text \<open>The dispatcher's own bytecode comes from the image store under \<open>IfNotPresent\<close>.\<close>

definition dispatcher_image ::
  "('d, 'sig, 'layer) env \<Rightarrow> image_manager \<Rightarrow> string \<Rightarrow> ('d kworld, bpfman_error, string \<times> bytes) st" where
  "dispatcher_image E im url =
     bind_st (reads (\<lambda>_. bytecode_image_new url (image_pull_policy_to_i32 ImagePullPolicy_IfNotPresent) None None)) (\<lambda>img.
     bind_st (map_err_st BpfBytecodeError (on_db (get_image (e_db E) (e_oci E) im (image_url img)
       (bi_image_pull_policy img) (username img) (password img)))) (\<lambda>(path, fn_name).
     bind_st (from_db (\<lambda>d. map_err BpfBytecodeError
       (get_bytecode_from_image_store (e_db E) (e_oci E) path d))) (\<lambda>bs.
     ret (fn_name, bs))))"

definition xdp_config_of :: "u32 list \<Rightarrow> 'p list \<Rightarrow> xdp_dispatcher_config" where
  "xdp_config_of acts exts = xdp_dispatcher_config_new (of_nat (length exts)) 0 acts
     (replicate 10 DEFAULT_PRIORITY) (replicate 10 0)"

definition tc_config_of :: "u32 list \<Rightarrow> 'p list \<Rightarrow> tc_dispatcher_config" where
  "tc_config_of acts exts = \<lparr>tc_num_progs_enabled = of_nat (length exts),
     tc_chain_call_actions = acts, tc_run_prios = replicate 10 DEFAULT_PRIORITY\<rparr>"

definition load_dispatcher_prog ::
  "aya \<Rightarrow> (aya_kind \<Rightarrow> bool) \<Rightarrow> string \<Rightarrow> global_value \<Rightarrow> string \<Rightarrow> bytes \<Rightarrow> ('d kworld, bpfman_error, bpf_obj) st" where
  "load_dispatcher_prog A P gname conf fn_name bs =
     bind_st (map_err_st BpfLoadError (k_load A (bpf_loader_new\<lparr>bl_globals := [(gname, conf)]\<rparr>) bs)) (\<lambda>obj.
     bind_st (reads (\<lambda>_. dispatcher_prog P (Some obj) fn_name)) (\<lambda>disp.
     then_st (map_err_st BpfProgramError (k_unit A (K_Prog_Load disp Load_Plain))) (ret obj)))"

definition xd_load ::
  "('d, 'sig, 'layer) env \<Rightarrow> image_manager \<Rightarrow> xdp_dispatcher \<Rightarrow> program list \<Rightarrow> dispatcher option \<Rightarrow>
   ('d kworld, bpfman_error, xdp_dispatcher) st" where
  "xd_load E im x programs old_dispatcher =
     bind_st (from_db (xd_get_ifindex (e_db E) x)) (\<lambda>if_index.
     bind_st (from_db (xd_get_revision (e_db E) x)) (\<lambda>revision.
     bind_st (reads (\<lambda>_. collect_res (map xdp_of_program programs))) (\<lambda>extensions.
     bind_st (from_db (sort_by_position (xdp_get_current_position (e_db E)) extensions)) (\<lambda>extensions.
     bind_st (from_db (fill_actions (xdp_get_current_position (e_db E)) (xdp_position_mask (e_db E))
       extensions (replicate 10 0))) (\<lambda>acts.
     bind_st (dispatcher_image E im ''quay.io/bpfman/xdp-dispatcher:v2'') (\<lambda>(fn_name, bs).
     bind_st (load_dispatcher_prog (e_aya E) (\<lambda>k. k = Is_Xdp) ''conf''
       (Global_Xdp (xdp_config_of acts extensions)) fn_name bs) (\<lambda>obj.
     then_st (unwrap_st (on_fs (create_dir_all (e_fault E) (dispatcher_dir RTDIR_FS_XDP if_index revision)))) (
     let x = x\<lparr>xd_loader := Some obj\<rparr> in
     then_st (on_db (xd_set_num_extensions (e_db E) x (of_nat (length extensions)))) (
     then_st (on_db (xd_set_program_name (e_db E) x fn_name)) (
     then_st (xd_attach_extensions E x extensions) (
     then_st (xd_attach E x) (
     then_st (case old_dispatcher of Some old \<Rightarrow> dispatcher_delete E old False | None \<Rightarrow> ret ())
       (ret x)))))))))))))"


subsection \<open>Attaching and loading the TC dispatcher\<close>

fun scan_qdiscs :: "string \<Rightarrow> i32 \<Rightarrow> (string + i32 \<times> string list) list \<Rightarrow> (string, bool) res" where
  "scan_qdiscs name if_index [] = Ok False"
| "scan_qdiscs name if_index (Inl e # ms) = Err e"
| "scan_qdiscs name if_index (Inr (ix, kinds) # ms) =
     (if ix = if_index \<and> name \<in> set kinds then Ok True else scan_qdiscs name if_index ms)"

definition has_qdisc :: "aya \<Rightarrow> string \<Rightarrow> i32 \<Rightarrow> ('d kworld, string, bool) st" where
  "has_qdisc A name if_index =
     then_st (unwrap_st (k_unit A K_Netlink)) (
     bind_st (k_tell (a_qdiscs A) K_Qdisc_Get) (\<lambda>ms.
     reads (\<lambda>_. scan_qdiscs name if_index ms)))"

definition td_attach ::
  "('d, 'sig, 'layer) env \<Rightarrow> tc_dispatcher \<Rightarrow> dispatcher option \<Rightarrow> ('d kworld, bpfman_error, unit) st" where
  "td_attach E x old_dispatcher =
     bind_st (from_db (td_get_ifindex (e_db E) x)) (\<lambda>if_index.
     bind_st (from_db (td_get_ifname (e_db E) x)) (\<lambda>iface.
     bind_st (from_db (td_get_priority (e_db E) x)) (\<lambda>priority.
     bind_st (from_db (td_get_revision (e_db E) x)) (\<lambda>revision.
     bind_st (from_db (td_get_direction (e_db E) x)) (\<lambda>dir.
     bind_st (from_db (td_get_program_name (e_db E) x)) (\<lambda>program_name.
     bind_st (map_err_st RpcSendError (has_qdisc (e_aya E) ''clsact'' if_index)) (\<lambda>clsact.
     then_st (if clsact then ret () else
       bind_st (map_err_st RpcSendError (has_qdisc (e_aya E) ''ingress'' if_index)) (\<lambda>ingress.
       if ingress then throw (InvalidAttach (''Ingress qdisc found for if_index '' @ show_u32 if_index))
       else ignore_st (k_unit (e_aya E) (K_Qdisc_Add_Clsact iface)))) (
     bind_st (reads (\<lambda>_. dispatcher_prog (\<lambda>k. k = Is_SchedClassifier) (td_loader x) program_name)) (\<lambda>disp.
     bind_st (map_err_st BpfProgramError (k_num (e_aya E) (K_Attach disp (Attach_Tc iface dir priority)))) (\<lambda>link_id.
     bind_st (map_err_st BpfProgramError (k_num (e_aya E) (K_Take_Link disp link_id))) (\<lambda>link.
     bind_st (reads (\<lambda>w. Ok (a_handle (e_aya E) (wkern w) link))) (\<lambda>handle.
     then_st (on_db (td_set_handle (e_db E) x handle)) (
     case old_dispatcher of
       Some (Dispatcher_Tc d) \<Rightarrow>
         bind_st (from_db (td_get_handle (e_db E) d)) (\<lambda>old_handle.
         bind_st (from_db (td_get_handle (e_db E) x)) (\<lambda>new_handle.
         td_delete E d (old_handle \<noteq> new_handle)))
     | _ \<Rightarrow> ret ())))))))))))))"

definition td_load ::
  "('d, 'sig, 'layer) env \<Rightarrow> image_manager \<Rightarrow> tc_dispatcher \<Rightarrow> program list \<Rightarrow> dispatcher option \<Rightarrow>
   ('d kworld, bpfman_error, tc_dispatcher) st" where
  "td_load E im x programs old_dispatcher =
     bind_st (from_db (td_get_ifindex (e_db E) x)) (\<lambda>if_index.
     bind_st (from_db (td_get_revision (e_db E) x)) (\<lambda>revision.
     bind_st (from_db (td_get_direction (e_db E) x)) (\<lambda>dir.
     bind_st (reads (\<lambda>_. collect_res (map tc_of_program programs))) (\<lambda>extensions.
     bind_st (from_db (fill_actions (tc_get_current_position (e_db E)) (tc_position_mask (e_db E))
       extensions (replicate 10 0))) (\<lambda>acts.
     bind_st (dispatcher_image E im ''quay.io/bpfman/tc-dispatcher:v1'') (\<lambda>(fn_name, bs).
     bind_st (load_dispatcher_prog (e_aya E) (\<lambda>k. k = Is_SchedClassifier) ''CONFIG''
       (Global_Tc (tc_config_of acts extensions)) fn_name bs) (\<lambda>obj.
     then_st (unwrap_st (on_fs (create_dir_all (e_fault E) (dispatcher_dir (tc_base dir) if_index revision)))) (
     let x = x\<lparr>td_loader := Some obj\<rparr> in
     then_st (on_db (td_set_num_extensions (e_db E) x (of_nat (length extensions)))) (
     then_st (on_db (td_set_program_name (e_db E) x fn_name)) (
     then_st (td_attach_extensions E x extensions) (
     then_st (td_attach E x old_dispatcher)
       (ret x))))))))))))"


subsection \<open>Dispatcher::new\<close>

definition dispatcher_new ::
  "('d, 'sig, 'layer) env \<Rightarrow> image_manager \<Rightarrow> interface_config option \<Rightarrow> program list \<Rightarrow> u32 \<Rightarrow>
   dispatcher option \<Rightarrow> ('d kworld, bpfman_error, dispatcher) st" where
  "dispatcher_new E im config programs revision old_dispatcher =
     bind_st (reads (\<lambda>_. ok_or (Error ''No programs to load'') (first programs))) (\<lambda>p.
     bind_st (from_db (program_if_index (e_db E) p)) (\<lambda>ix.
     bind_st (reads (\<lambda>_. ok_or (Error ''missing ifindex'') ix)) (\<lambda>if_index.
     bind_st (from_db (program_if_name (e_db E) p)) (\<lambda>if_name.
     bind_st (from_db (program_direction (e_db E) p)) (\<lambda>direction.
     let mode = (case config of Some c \<Rightarrow> xdp_mode_of c | None \<Rightarrow> XdpMode_Skb) in
     bind_st (from_db (program_kind (e_db E) p)) (\<lambda>kind. case kind of
       ProgramType_Xdp \<Rightarrow>
         bind_st (on_db (xd_new (e_db E) mode if_index if_name revision)) (\<lambda>x.
         bind_st (xd_load E im x programs old_dispatcher) (\<lambda>x. ret (Dispatcher_Xdp x)))
     | ProgramType_Tc \<Rightarrow>
         bind_st (reads (\<lambda>_. expect_opt ''missing direction'' direction)) (\<lambda>dir.
         bind_st (on_db (td_new (e_db E) dir if_index if_name revision)) (\<lambda>t.
         bind_st (td_load E im t programs old_dispatcher) (\<lambda>t. ret (Dispatcher_Tc t))))
     | _ \<Rightarrow> throw DispatcherNotRequired))))))"

end
