(* ===== verification/Program_Positions.thy ===== *)
theory Program_Positions
  imports Dispatchers
begin

text \<open>
  The database scans of \<open>lib.rs\<close>: finding the dispatcher of an interface, listing the
  programs of an interface, and giving them their positions in the order of priority.
\<close>


subsection \<open>Dispatchers in the database\<close>

fun dispatcher_tree_prefix :: "dispatcher_id \<Rightarrow> string option" where
  "dispatcher_tree_prefix (DispatcherId_Xdp (DispatcherInfo if_index _)) =
     Some (XDP_DISPATCHER_PREFIX @ ''_'' @ show_u32 if_index)"
| "dispatcher_tree_prefix (DispatcherId_Tc (DispatcherInfo if_index (Some dir))) =
     Some (TC_DISPATCHER_PREFIX @ ''_'' @ show_u32 if_index @ ''_'' @ show_direction dir)"
| "dispatcher_tree_prefix _ = None"

definition get_dispatcher :: "'d host \<Rightarrow> dispatcher_id \<Rightarrow> ('d, 'e, dispatcher option) st" where
  "get_dispatcher H did = (case dispatcher_tree_prefix did of
     None \<Rightarrow> ret None
   | Some tree_name_prefix \<Rightarrow>
       bind_st (reads (\<lambda>d. find_tree (\<lambda>s. str_contains s tree_name_prefix) (db_tree_names H d))) (\<lambda>p.
       case p of None \<Rightarrow> ret None
       | Some t \<Rightarrow> then_st (open_tree H ''unable to open database tree'' t)
           (reads (\<lambda>_. ok_map Some (dispatcher_new_from_db t)))))"

definition num_attached_programs :: "'d host \<Rightarrow> dispatcher_id \<Rightarrow> ('d, 'e, usize) st" where
  "num_attached_programs H did =
     bind_st (get_dispatcher H did) (\<lambda>d. case d of
       Some d \<Rightarrow> reads (num_extensions H d) | None \<Rightarrow> ret 0)"


subsection \<open>Programs in the database\<close>

text \<open>\<open>split('_').last().unwrap().parse::<u32>().unwrap()\<close>, opening the tree, rebuilding the program.\<close>

definition program_of_tree :: "'d host \<Rightarrow> string \<Rightarrow> ('d, 'e, u32 \<times> program) st" where
  "program_of_tree H t =
     bind_st (reads (\<lambda>_. bytes_to_string (as_bytes t))) (\<lambda>s.
     bind_st (reads (\<lambda>_. expect_opt ''unwrap'' (parse_u32 (last (split_on (CHR ''_'') s))))) (\<lambda>i.
     then_st (open_tree H ''unable to open database tree'' t)
       (reads (\<lambda>d. ok_map (\<lambda>p. (i, p)) (expect_res ''Failed to build program from database''
         (new_from_db H i t d))))))"

fun scan_programs ::
  "'d host \<Rightarrow> (program \<Rightarrow> 'd \<Rightarrow> ('e, bool) res) \<Rightarrow> string list \<Rightarrow> ('d, 'e, (u32 \<times> program) list) st" where
  "scan_programs H keep [] = ret []"
| "scan_programs H keep (t # ts) =
     bind_st (reads (\<lambda>_. bytes_to_string (as_bytes t))) (\<lambda>s.
     if \<not> str_contains s PROGRAM_PREFIX then scan_programs H keep ts
     else bind_st (program_of_tree H t) (\<lambda>ip.
       bind_st (reads (keep (snd ip))) (\<lambda>k.
       bind_st (scan_programs H keep ts) (\<lambda>rest. ret (if k then ip # rest else rest)))))"

definition get_programs_iter :: "'d host \<Rightarrow> ('d, 'e, (u32 \<times> program) list) st" where
  "get_programs_iter H d = scan_programs H (\<lambda>_ _. Ok True) (db_tree_names H d) d"

definition filter_keeps ::
  "'d host \<Rightarrow> program_type \<Rightarrow> u32 option \<Rightarrow> direction option \<Rightarrow> program \<Rightarrow> 'd \<Rightarrow> ('e, bool) res" where
  "filter_keeps H program_type if_index direction p d =
     bind_res (program_kind H p d) (\<lambda>k.
     if k \<noteq> program_type then Ok False
     else bind_res (expect_res ''unwrap'' (program_if_index H p d)) (\<lambda>i.
       if i \<noteq> if_index then Ok False
       else bind_res (expect_res ''unwrap'' (program_direction H p d)) (\<lambda>dir. Ok (dir = direction))))"

definition filter_programs ::
  "'d host \<Rightarrow> program_type \<Rightarrow> u32 option \<Rightarrow> direction option \<Rightarrow> ('d, 'e, program list) st" where
  "filter_programs H program_type if_index direction d =
     bind_st (scan_programs H (filter_keeps H program_type if_index direction) (db_tree_names H d))
       (\<lambda>ips. ret (map snd ips)) d"


subsection \<open>Positions\<close>

type_synonym sort_key = "int \<times> bool \<times> string"

definition program_sort_key :: "'d host \<Rightarrow> program \<Rightarrow> 'd \<Rightarrow> ('e, sort_key) res" where
  "program_sort_key H b d =
     bind_res (expect_res ''unwrap'' (program_priority H b d)) (\<lambda>prio.
     bind_res (program_attached H b d) (\<lambda>a.
     bind_res (expect_res ''unwrap'' (get_name H (program_get_data b) d)) (\<lambda>n.
     Ok (sint prio, a, n))))"

definition sort_programs :: "'d host \<Rightarrow> program list \<Rightarrow> 'd \<Rightarrow> ('e, program list) res" where
  "sort_programs H ps d =
     (if length ps \<le> 1 then Ok ps
      else ok_map (\<lambda>ks. map snd (sort_key fst (zip ks ps)))
        (collect_res (map (\<lambda>p. program_sort_key H p d) ps)))"

definition write_positions :: "'d host \<Rightarrow> program list \<Rightarrow> ('d, 'e, unit) st" where
  "write_positions H ps = try_for_each (\<lambda>(i, v).
     expect_st ''unable to set program position'' (program_set_position H v (of_nat i))) (enumerate 0 ps)"

definition set_program_positions ::
  "'d host \<Rightarrow> program_type \<Rightarrow> u32 \<Rightarrow> direction option \<Rightarrow> ('d, 'e, unit) st" where
  "set_program_positions H program_type if_index direction =
     bind_st (filter_programs H program_type (Some if_index) direction) (\<lambda>extensions.
     bind_st (reads (sort_programs H extensions)) (\<lambda>extensions.
     write_positions H extensions))"

definition add_and_set_program_positions :: "'d host \<Rightarrow> program \<Rightarrow> ('d, 'e, unit) st" where
  "add_and_set_program_positions H program =
     bind_st (reads (program_kind H program)) (\<lambda>program_type.
     bind_st (reads (\<lambda>d. expect_res ''unwrap'' (program_if_index H program d))) (\<lambda>if_index.
     bind_st (reads (\<lambda>d. expect_res ''unwrap'' (program_direction H program d))) (\<lambda>direction.
     bind_st (filter_programs H program_type if_index direction) (\<lambda>extensions.
     bind_st (reads (sort_programs H extensions)) (\<lambda>extensions.
     write_positions H extensions)))))"

end
