(* ===== verification/Dispatcher_Lifecycle.thy ===== *)
theory Dispatcher_Lifecycle
  imports Program_Positions
begin

text \<open>
  The life of a dispatcher: what a new one stores, which revision follows, what deleting one
  removes, and which slots its extensions are attached to.
\<close>


subsection \<open>What a new dispatcher stores\<close>

definition xd_kvs :: "'d host \<Rightarrow> xdp_mode \<Rightarrow> u32 \<Rightarrow> string \<Rightarrow> u32 \<Rightarrow> (string \<times> bytes) list" where
  "xd_kvs H mode i n r = [(IF_INDEX, ne4 H i), (IF_NAME, as_bytes n),
     (MODE, ne4 H (xdp_mode_to_u32 mode)), (REVISION, ne4 H r)]"

definition td_kvs :: "'d host \<Rightarrow> direction \<Rightarrow> u32 \<Rightarrow> string \<Rightarrow> u32 \<Rightarrow> (string \<times> bytes) list" where
  "td_kvs H dir i n r = [(IF_INDEX, ne4 H i), (IF_NAME, as_bytes n),
     (DIRECTION, ne4 H (direction_to_u32 dir)), (REVISION, ne4 H r), (PRIORITY, ne2 H TC_DISPATCHER_PRIORITY)]"

lemma xd_new_list:
  "xd_new H mode i n r = then_st (open_tree H ''Unable to open xdp dispatcher database tree'' (xdp_disp_tree i r))
     (then_st (insert_list H (xdp_disp_tree i r) (xd_kvs H mode i n r))
       (ret \<lparr>xd_tree = xdp_disp_tree i r, xd_loader = None\<rparr>))"
  by (simp add: xd_new_def Let_def xd_set_ifindex_def xd_set_ifname_def xd_set_mode_def xd_set_revision_def
      to_insert_list xd_kvs_def)

lemma td_new_list:
  "td_new H dir i n r = then_st (open_tree H ''Unable to open tc dispatcher database tree'' (tc_disp_tree i dir r))
     (then_st (insert_list H (tc_disp_tree i dir r) (td_kvs H dir i n r))
       (ret \<lparr>td_tree = tc_disp_tree i dir r, td_loader = None\<rparr>))"
  by (simp add: td_new_def Let_def td_set_ifindex_def td_set_ifname_def td_set_direction_def td_set_revision_def
      td_set_priority_def to_insert_list td_kvs_def)

lemma direction_round_trip [simp]: "direction_from_u32 (direction_to_u32 dir) = Ok dir"
  by (cases dir) (simp_all add: direction_from_u32_def)

context store
begin

lemma xd_new_run:
  assumes "\<alpha> d (xdp_disp_tree i r) = None"
  shows "\<exists>d'. xd_new H mode i n r d = (Ok \<lparr>xd_tree = xdp_disp_tree i r, xd_loader = None\<rparr>, d')
    \<and> \<alpha> d' = (\<alpha> d)(xdp_disp_tree i r \<mapsto> upd_list (xd_kvs H mode i n r) Map.empty)"
proof -
  let ?t = "xdp_disp_tree i r"
  have "\<alpha> (opened H ?t d) ?t = Some Map.empty" using assms by (simp add: abs_opened)
  then show ?thesis using assms by (simp add: xd_new_list then_st_def bind_st_def abs_opened)
qed

lemma td_new_run:
  assumes "\<alpha> d (tc_disp_tree i dir r) = None"
  shows "\<exists>d'. td_new H dir i n r d = (Ok \<lparr>td_tree = tc_disp_tree i dir r, td_loader = None\<rparr>, d')
    \<and> \<alpha> d' = (\<alpha> d)(tc_disp_tree i dir r \<mapsto> upd_list (td_kvs H dir i n r) Map.empty)"
proof -
  let ?t = "tc_disp_tree i dir r"
  have "\<alpha> (opened H ?t d) ?t = Some Map.empty" using assms by (simp add: abs_opened)
  then show ?thesis using assms by (simp add: td_new_list then_st_def bind_st_def abs_opened)
qed

lemma tree_u32_ok [simp]: "\<alpha> d t = Some m \<Longrightarrow> m k = Some (ne4 H v) \<Longrightarrow> tree_u32 H k t d = Ok v"
  by (simp add: tree_u32_def)

lemma tree_string_ok [simp]:
  "\<alpha> d t = Some m \<Longrightarrow> m k = Some (as_bytes v) \<Longrightarrow> is_str v \<Longrightarrow> tree_string H k t d = Ok v"
  by (simp add: tree_string_def)

lemma tree_usize_ok [simp]: "\<alpha> d t = Some m \<Longrightarrow> m k = Some (ne8 H v) \<Longrightarrow> tree_usize H k t d = Ok v"
  by (simp add: tree_usize_def)

lemma tree_usize_missing: "\<alpha> d t = Some m \<Longrightarrow> m k = None \<Longrightarrow> \<exists>e. tree_usize H k t d = Err e"
  using sled_get_missing [of d t m k] by (auto simp: tree_usize_def)

end

lemmas xd_getters = xd_get_ifindex_def xd_get_ifname_def xd_get_mode_def xd_get_revision_def
  xd_get_num_extensions_def xd_get_program_name_def
lemmas td_getters = td_get_ifindex_def td_get_ifname_def td_get_direction_def td_get_revision_def
  td_get_num_extensions_def td_get_program_name_def td_get_priority_def td_get_handle_def

text \<open>
  A new XDP dispatcher remembers its interface, mode and revision; the dispatcher that
  replaces it gets the next revision, which wraps around after the last \<open>u32\<close>. Until it
  is loaded it has no number of extensions, so counting its programs panics.
\<close>

lemma xd_new_fields:
  assumes "store H \<alpha>" and "\<alpha> d (xdp_disp_tree i r) = None" and "is_str n"
  shows "\<exists>x d'. xd_new H mode i n r d = (Ok x, d')
    \<and> (\<forall>t. t \<noteq> xdp_disp_tree i r \<longrightarrow> \<alpha> d' t = \<alpha> d t)
    \<and> xd_get_ifindex H x d' = Ok i \<and> xd_get_ifname H x d' = Ok n
    \<and> xd_get_mode H x d' = Ok mode \<and> xd_get_revision H x d' = Ok r
    \<and> next_revision H (Dispatcher_Xdp x) d' = (if r = - 1 then Ok 0 else Ok (r + 1))
    \<and> num_extensions H (Dispatcher_Xdp x) d' = Panic ''failed to get xdp_dispatcher num_extensions''"
proof -
  note st = assms(1)
  let ?x = "\<lparr>xd_tree = xdp_disp_tree i r, xd_loader = None\<rparr>" and ?m = "upd_list (xd_kvs H mode i n r) Map.empty"
  obtain d' where d': "xd_new H mode i n r d = (Ok ?x, d')"
      "\<alpha> d' = (\<alpha> d)(xdp_disp_tree i r \<mapsto> ?m)"
    using store.xd_new_run [OF st, OF assms(2)] by blast
  then have m: "\<alpha> d' (xd_tree ?x) = Some ?m" by simp
  have get: "xd_get_ifindex H ?x d' = Ok i" "xd_get_ifname H ?x d' = Ok n"
      "xd_get_mode H ?x d' = Ok mode" "xd_get_revision H ?x d' = Ok r"
    using store.tree_u32_ok [OF st, OF m] store.tree_string_ok [OF st, OF m] assms(3)
    by (simp_all add: xd_getters xd_kvs_def)
  moreover have "?m NUM_EXTENSIONS = None" by (simp add: xd_kvs_def)
  then obtain e where "xd_get_num_extensions H ?x d' = Err e"
    using store.tree_usize_missing [OF st, OF m] by (auto simp: xd_getters)
  ultimately show ?thesis using d' by (intro exI [of _ ?x] exI [of _ d']) simp
qed

lemma xd_new_fields_witness:
  "\<exists>x d'. xd_new ref_host XdpMode_Drv 4 ''eth0'' (- 1) ([] :: ref_db) = (Ok x, d')
    \<and> (\<forall>t. t \<noteq> xdp_disp_tree 4 (- 1) \<longrightarrow> ref_abs d' t = ref_abs [] t)
    \<and> xd_get_ifindex ref_host x d' = Ok 4 \<and> xd_get_ifname ref_host x d' = Ok ''eth0''
    \<and> xd_get_mode ref_host x d' = Ok XdpMode_Drv \<and> xd_get_revision ref_host x d' = Ok (- 1)
    \<and> next_revision ref_host (Dispatcher_Xdp x) d' = (if (- 1 :: u32) = - 1 then Ok 0 else Ok (- 1 + 1))
    \<and> num_extensions ref_host (Dispatcher_Xdp x) d' = Panic ''failed to get xdp_dispatcher num_extensions''"
  by (rule xd_new_fields [where \<alpha> = ref_abs]) (simp_all add: ref_store ref_abs_def)


subsection \<open>The slots the extensions claim\<close>

text \<open>
  A program claims a slot of a dispatcher when it is loaded as an extension of the slot's
  function or attached to it again. \<open>claims m C\<close>: whenever \<open>m\<close> succeeds, the calls it adds to
  the log claim the slots \<open>C\<close>, in this order and no others.
\<close>

fun claim_of :: "kcall \<Rightarrow> (prog_ref \<times> string) option" where
  "claim_of (K_Prog_Load p (Load_Ext d t)) = Some (d, t)"
| "claim_of (K_Attach p (Attach_Ext_To d t)) = Some (d, t)"
| "claim_of c = None"

definition slot_claims :: "klog \<Rightarrow> (prog_ref \<times> string) list" where
  "slot_claims l = List.map_filter claim_of l"

definition claims :: "('d kworld, 'e, 'a) st \<Rightarrow> (prog_ref \<times> string) list \<Rightarrow> bool" where
  "claims m C \<longleftrightarrow> (\<forall>w a w'. m w = (Ok a, w') \<longrightarrow> (\<exists>l. wkern w' = wkern w @ l \<and> slot_claims l = C))"

named_theorems claim_rules \<open>the slots each call claims\<close>

lemma slot_claims_simps [simp]:
  "slot_claims [] = []"
  "slot_claims (c # l) = (case claim_of c of None \<Rightarrow> slot_claims l | Some x \<Rightarrow> x # slot_claims l)"
  "slot_claims (l @ l') = slot_claims l @ slot_claims l'"
  by (simp_all add: slot_claims_def map_filter_def split: option.split)

lemma claims_bind:
  assumes "claims m C" and "\<And>a. claims (f a) D"
  shows "claims (bind_st m f) (C @ D)"
  unfolding claims_def
proof (intro allI impI)
  fix w b w' assume "bind_st m f w = (Ok b, w')"
  then obtain a v where "m w = (Ok a, v)" "f a v = (Ok b, w')" by (auto simp: bind_st_eq_Ok)
  with assms show "\<exists>l. wkern w' = wkern w @ l \<and> slot_claims l = C @ D"
    unfolding claims_def by (metis append_assoc slot_claims_simps(3))
qed

lemma claim_then_quiet: "claims m C \<Longrightarrow> (\<And>a. claims (f a) []) \<Longrightarrow> claims (bind_st m f) C"
  using claims_bind [of m C f "[]"] by simp

lemma slots_quiet_bind [claim_rules]: "claims m [] \<Longrightarrow> (\<And>a. claims (f a) C) \<Longrightarrow> claims (bind_st m f) C"
  using claims_bind [of m "[]" f C] by simp

lemma slots_quiet_then [claim_rules]: "claims m [] \<Longrightarrow> claims n C \<Longrightarrow> claims (then_st m n) C"
  unfolding then_st_def by (rule slots_quiet_bind)

lemma claims_then: "claims m C \<Longrightarrow> claims n D \<Longrightarrow> claims (then_st m n) (C @ D)"
  unfolding then_st_def by (rule claims_bind)

lemma claims_kern: "claims m C \<Longrightarrow> m w = (Ok a, w') \<Longrightarrow> \<exists>l. wkern w' = wkern w @ l \<and> slot_claims l = C"
  unfolding claims_def by blast

lemma quiet_state [claim_rules]:
  "claims (ret a) []" "claims (reads g) []" "claims (from_db h) []" "claims (on_db k) []" "claims (on_fs n) []"
  "claims (throw e) C" "claims (panic q) C"
  by (auto simp: claims_def)

lemma unwrap_st_eq_Ok: "unwrap_st m w = (Ok a, w') \<longleftrightarrow> m w = (Ok a, w')"
  by (cases "m w") (simp add: unwrap_st_app)

lemma claims_map_err [claim_rules]: "claims m C \<Longrightarrow> claims (map_err_st g m) C"
  unfolding claims_def map_err_st_eq_Ok .

lemma claims_unwrap [claim_rules]: "claims m C \<Longrightarrow> claims (unwrap_st m) C"
  unfolding claims_def unwrap_st_eq_Ok .

lemma claims_calls:
  "claim_of c = x \<Longrightarrow> claims (k_unit A c) (case x of None \<Rightarrow> [] | Some s \<Rightarrow> [s])"
  "claim_of c = x \<Longrightarrow> claims (k_num A c) (case x of None \<Rightarrow> [] | Some s \<Rightarrow> [s])"
  by (auto simp: claims_def k_defs split: option.splits)

lemma quiet_calls [claim_rules]:
  "claim_of c = None \<Longrightarrow> claims (k_unit A c) []" "claim_of c = None \<Longrightarrow> claims (k_num A c) []"
  "claims (k_load A b bs) []" "claims (k_info A p) []"
  "claim_of c = None \<Longrightarrow> claims (k_pin A c path) []"
  by (auto simp: claims_def k_defs k_pin_def split: sum.splits)

lemma slots_quiet_for_each:
  "(\<And>x. x \<in> set xs \<Longrightarrow> claims (f x) (C x)) \<Longrightarrow> claims (try_for_each f xs) (concat (map C xs))"
  by (induction xs) (auto intro: claims_then quiet_state)

lemma quiet_each: "(\<And>x. claims (f x) []) \<Longrightarrow> claims (try_for_each f xs) []"
  by (induction xs) (auto intro: slots_quiet_then quiet_state)

lemma quiet_pin_maps [claim_rules]: "claims (pin_maps A obj dir) []"
  unfolding pin_maps_def
  by (rule quiet_each) (auto intro!: claim_rules)

lemma quiet_pin_own_maps [claim_rules]: "claims (pin_own_maps E pd i obj) []"
  unfolding pin_own_maps_def Let_def by (auto intro!: claim_rules split: option.split)

lemma claim_then_quiet2: "claims m C \<Longrightarrow> claims n [] \<Longrightarrow> claims (then_st m n) C"
  unfolding then_st_def by (rule claim_then_quiet)

lemma claiming_calls:
  "claims (unwrap_st (k_num A (K_Attach p (Attach_Ext_To d t)))) [(d, t)]"
  "claims (map_err_st g (k_unit A (K_Prog_Load p (Load_Ext d t)))) [(d, t)]"
  using claims_unwrap [OF claims_calls(2) [of "K_Attach p (Attach_Ext_To d t)" "Some (d, t)" A]]
    claims_map_err [OF claims_calls(1) [of "K_Prog_Load p (Load_Ext d t)" "Some (d, t)" A]]
  by simp_all

lemma attach_pinned_claims: "claims (attach_pinned E disp base ix rv i pd) [(disp, target_fn i)]"
  unfolding attach_pinned_def Let_def
  by ((rule claim_then_quiet, rule claiming_calls) | rule slots_quiet_bind | rule slots_quiet_then
      | (intro claim_rules; simp))+

lemma attach_new_claims: "claims (attach_new E disp base ix rv i pd) [(disp, target_fn i)]"
  unfolding attach_new_def Let_def
  by ((rule claim_then_quiet2, rule claiming_calls) | rule slots_quiet_bind | rule slots_quiet_then
      | (intro claim_rules; simp))+

lemma attach_extension_claims:
  "claims (attach_extension E disp base ix rv at v) [(disp, target_fn (fst v))]"
  unfolding attach_extension_def
  by (rule slots_quiet_bind) (auto intro!: claim_rules attach_pinned_claims attach_new_claims)

lemma attach_all_claims:
  "claims (try_for_each (attach_extension E disp base ix rv at) (enumerate 0 ps))
     (map (\<lambda>i. (disp, target_fn i)) [0..<length ps])"
proof -
  have "concat (map (\<lambda>v. [(disp, target_fn (fst v))]) (enumerate 0 ps)) = map (\<lambda>i. (disp, target_fn i)) [0..<length ps]"
    by (simp add: enumerate_eq_zip) (rule nth_equalityI; simp)
  then show ?thesis
    using slots_quiet_for_each [of "enumerate 0 ps" "attach_extension E disp base ix rv at"
        "\<lambda>v. [(disp, target_fn (fst v))]"] attach_extension_claims [of E disp base ix rv at]
    by metis
qed


lemma length_sort_by_position: "sort_by_position pos ps d = Ok qs \<Longrightarrow> length qs = length ps"
proof -
  assume ok: "sort_by_position pos ps d = Ok qs"
  have "collect_res rs = Ok ks \<Longrightarrow> length ks = length rs" for rs :: "(bpfman_error, usize option) res list" and ks
    by (induction rs arbitrary: ks) (auto simp: bind_res_eq_Ok ok_map_eq_Ok)
  with ok show ?thesis by (fastforce simp: sort_by_position_def ok_map_eq_Ok split: if_splits)
qed

lemma dispatcher_prog_Ok:
  "dispatcher_prog P loader name = Ok disp \<Longrightarrow> \<exists>obj. loader = Some obj \<and> disp = In_Obj (obj_handle obj) name"
  by (auto simp: dispatcher_prog_def bind_res_eq_Ok)




text \<open>
  A concrete environment: the reference database and file system, and a kernel that accepts
  every call and numbers the programs it loads by the length of the log.
\<close>

definition demo_aya :: aya where
  "demo_aya = \<lparr>
     a_load = \<lambda>l b bs. Inr \<lparr>obj_handle = length l,
       obj_programs = [(''xdp_pass'', if bl_extensions b = [] then Is_Xdp else Is_Extension), (''tc_pass'', Is_Extension)],
       obj_maps = [''stats'', ''prog.rodata'']\<rparr>,
     a_unit = \<lambda>l c. Inr (),
     a_num = \<lambda>l c. Inr (length l),
     a_info = \<lambda>l p. Inr demo_info,
     a_pin = \<lambda>l f c. Inr (File 384),
     a_handle = \<lambda>l n. 1,
     a_qdiscs = \<lambda>l. [Inr (4, [''clsact''])],
     a_loaded = \<lambda>l. [Inr demo_info],
     a_command = \<lambda>l c. Inr (True, [])\<rparr>"

definition demo_start :: os_start where
  "demo_start = \<lparr>caps_has_cap = \<lambda>c. Inr True, setrlimit_ok = True, proc_mounts = Inr [],
     mount_bpf = \<lambda>dir f. Inr (\<lambda>q. if below dir q then None else f q)\<rparr>"

definition demo_sigstore :: sigstore where
  "demo_sigstore = \<lparr>trust_root_new = \<lambda>p. Inr (), trust_prefetch = Inr (), with_trust_repository = Inr (), client_build = Inr ()\<rparr>"

definition demo_env :: "(ref_db, unit, unit) env" where
  "demo_env = \<lparr>e_os = demo_os, e_oci = demo_oci, e_aya = demo_aya,
     e_open_file = \<lambda>p. Inr (Inr [7]), e_nametoindex = \<lambda>n. Some 4, e_start = demo_start,
     e_toml = \<lambda>s. Inl s, e_config_file = Inl [], e_db_open = \<lambda>n. Inr (), e_sigstore = demo_sigstore,
     e_overflow_checks = True\<rparr>"

definition demo_slot_db :: ref_db where
  "demo_slot_db = [
     (''d'', [(IF_INDEX, ne4 ref_host 4), (REVISION, ne4 ref_host 2), (PROGRAM_NAME, as_bytes ''p''),
       (DIRECTION, ne4 ref_host (direction_to_u32 Direction_Ingress))]),
     (''a'', [(XDP_CURRENT_POSITION, ne8 ref_host 1), (XDP_ATTACHED, ne_bool ref_host True),
       (TC_CURRENT_POSITION, ne8 ref_host 1), (TC_ATTACHED, ne_bool ref_host True), (ID, ne4 ref_host 6)]),
     (''b'', [(XDP_CURRENT_POSITION, ne8 ref_host 0), (XDP_ATTACHED, ne_bool ref_host True),
       (TC_CURRENT_POSITION, ne8 ref_host 0), (TC_ATTACHED, ne_bool ref_host True), (ID, ne4 ref_host 7)])]"

definition demo_slot_world :: "ref_db kworld" where
  "demo_slot_world = \<lparr>wdb = demo_slot_db, wfs = Map.empty, wkern = []\<rparr>"

definition demo_obj :: "aya_kind \<Rightarrow> bpf_obj" where
  "demo_obj k = \<lparr>obj_handle = 0, obj_programs = [(''p'', k)], obj_maps = []\<rparr>"

lemma demo_xd_run:
  "is_ok (fst (xd_attach_extensions demo_env \<lparr>xd_tree = ''d'', xd_loader = Some (demo_obj Is_Xdp)\<rparr>
     [\<lparr>xdp_data = \<lparr>db_tree = ''a''\<rparr>\<rparr>, \<lparr>xdp_data = \<lparr>db_tree = ''b''\<rparr>\<rparr>] demo_slot_world))"
  by code_simp

lemma demo_td_run:
  "is_ok (fst (td_attach_extensions demo_env \<lparr>td_tree = ''d'', td_loader = Some (demo_obj Is_SchedClassifier)\<rparr>
     [\<lparr>tc_data = \<lparr>db_tree = ''a''\<rparr>\<rparr>, \<lparr>tc_data = \<lparr>db_tree = ''b''\<rparr>\<rparr>] demo_slot_world))"
  by code_simp





subsection \<open>Deleting a dispatcher\<close>

lemma show_u32_hd: "show_u32 r = c # cs \<Longrightarrow> is_digit c"
  using show_nat_digits [of "unat r"] by (simp add: show_u32_def)

lemma link_not_in_dir:
  "xdp_link_path i \<noteq> dispatcher_dir RTDIR_FS_XDP i r" "\<not> below (dispatcher_dir RTDIR_FS_XDP i r) (xdp_link_path i)"
proof -
  obtain c cs where r: "show_u32 r = c # cs" by (cases "show_u32 r") simp_all
  have "c \<noteq> CHR ''l''" using show_u32_hd [OF r] by (auto simp: is_digit_def)
  then show "xdp_link_path i \<noteq> dispatcher_dir RTDIR_FS_XDP i r"
    "\<not> below (dispatcher_dir RTDIR_FS_XDP i r) (xdp_link_path i)"
    by (simp_all add: xdp_link_path_def dispatcher_dir_def below_def r)
qed

lemma xd_delete_run:
  assumes "store (e_db E) \<alpha>" and "\<alpha> (wdb w) (xd_tree x) = Some m" and "xd_tree x \<noteq> default_tree"
    and "m IF_INDEX = Some (ne4 (e_db E) i)" and "m REVISION = Some (ne4 (e_db E) r)"
    and "\<forall>op q. e_fault E op q = None" and "wfs w (dispatcher_dir RTDIR_FS_XDP i r) = Some (Dir md)"
    and "full \<longrightarrow> wfs w (xdp_link_path i) = Some (File mf)"
  shows "\<exists>d' f. xd_delete E x full w = (Ok (), w\<lparr>wdb := d', wfs := f\<rparr>)
    \<and> \<alpha> d' = (\<alpha> (wdb w))(xd_tree x := None)
    \<and> (\<forall>q. f q = (if q = dispatcher_dir RTDIR_FS_XDP i r \<or> below (dispatcher_dir RTDIR_FS_XDP i r) q
                  \<or> full \<and> q = xdp_link_path i then None else wfs w q))"
proof -
  note st = assms(1)
  let ?dir = "dispatcher_dir RTDIR_FS_XDP i r" and ?d = "dropped (e_db E) (xd_tree x) (wdb w)"
  let ?f = "\<lambda>q. if q = ?dir \<or> below ?dir q then None else wfs w q"
  have get: "xd_get_ifindex (e_db E) x (wdb w) = Ok i" "xd_get_revision (e_db E) x (wdb w) = Ok r"
    using store.tree_u32_ok [OF st, OF assms(2)] assms(4, 5) by (simp_all add: xd_getters)
  have drop: "drop_dispatcher_tree (e_db E) msg (xd_tree x) (wdb w) = (Ok (), ?d)" for msg
    using store.drop_Inr [OF st, OF assms(3)] by (simp add: drop_dispatcher_tree_def)
  have abs: "\<alpha> ?d = (\<alpha> (wdb w))(xd_tree x := None)" by (rule store.abs_dropped [OF st, OF assms(3)])
  have rm: "remove_dir_all (e_fault E) ?dir (wfs w) = (Ok (), ?f)"
    using assms(6, 7) by (simp add: remove_dir_all_def)
  note run = xd_delete_def bind_st_def then_st_def get drop rm map_err_st_def
  show ?thesis
  proof (cases full)
    case True
    then have "remove_file (e_fault E) (xdp_link_path i) ?f = (Ok (), ?f(xdp_link_path i := None))"
      using assms(6, 8) link_not_in_dir by (simp add: remove_file_def)
    then have "xd_delete E x full w = (Ok (), w\<lparr>wdb := ?d, wfs := ?f(xdp_link_path i := None)\<rparr>)"
      using True by (simp add: run)
    with abs True show ?thesis
      by (intro exI [of _ ?d] exI [of _ "?f(xdp_link_path i := None)"]) auto
  next
    case False
    then have "xd_delete E x full w = (Ok (), w\<lparr>wdb := ?d, wfs := ?f\<rparr>)" by (simp add: run)
    with abs False show ?thesis by (intro exI [of _ ?d] exI [of _ ?f]) auto
  qed
qed

text \<open>
  Deleting an XDP dispatcher drops its tree and removes its directory with the pinned links
  of its extensions; a full deletion also removes the pin of its own link, which detaches it.
  Nothing else changes and the kernel is not called.
\<close>

lemma xd_delete_removes:
  assumes "store (e_db E) \<alpha>" and "\<alpha> (wdb w) (xd_tree x) = Some m" and "xd_tree x \<noteq> default_tree"
    and "m IF_INDEX = Some (ne4 (e_db E) i)" and "m REVISION = Some (ne4 (e_db E) r)"
    and "\<forall>op q. e_fault E op q = None" and "wfs w (dispatcher_dir RTDIR_FS_XDP i r) = Some (Dir md)"
    and "full \<longrightarrow> wfs w (xdp_link_path i) = Some (File mf)"
  shows "\<exists>d' f. xd_delete E x full w = (Ok (), w\<lparr>wdb := d', wfs := f\<rparr>)
    \<and> \<alpha> d' = (\<alpha> (wdb w))(xd_tree x := None)
    \<and> (\<forall>q. f q = (if q = dispatcher_dir RTDIR_FS_XDP i r \<or> below (dispatcher_dir RTDIR_FS_XDP i r) q
                  \<or> full \<and> q = xdp_link_path i then None else wfs w q))"
  using assms by (rule xd_delete_run)

lemma xd_delete_removes_witness:
  "\<exists>d' f. xd_delete demo_env \<lparr>xd_tree = ''d'', xd_loader = None\<rparr> True
      (demo_slot_world\<lparr>wfs := [dispatcher_dir RTDIR_FS_XDP 4 2 \<mapsto> Dir 0, xdp_link_path 4 \<mapsto> File 0]\<rparr>) =
      (Ok (), demo_slot_world\<lparr>wdb := d', wfs := f\<rparr>)
    \<and> ref_abs d' = (ref_abs demo_slot_db)(''d'' := None) \<and> f (xdp_link_path 4) = None"
proof -
  let ?x = "\<lparr>xd_tree = ''d'', xd_loader = None\<rparr>"
  let ?w = "demo_slot_world\<lparr>wfs := [dispatcher_dir RTDIR_FS_XDP 4 2 \<mapsto> Dir 0, xdp_link_path 4 \<mapsto> File 0]\<rparr>"
  have "\<exists>d' f. xd_delete demo_env ?x True ?w = (Ok (), ?w\<lparr>wdb := d', wfs := f\<rparr>)
    \<and> ref_abs d' = (ref_abs (wdb ?w))(xd_tree ?x := None)
    \<and> (\<forall>q. f q = (if q = dispatcher_dir RTDIR_FS_XDP 4 2 \<or> below (dispatcher_dir RTDIR_FS_XDP 4 2) q
                  \<or> True \<and> q = xdp_link_path 4 then None else wfs ?w q))"
    by (rule xd_delete_removes [where m = "the (ref_abs demo_slot_db ''d'')" and md = 0 and mf = 0])
      (simp_all add: ref_store demo_env_def demo_slot_world_def demo_slot_db_def ref_abs_def default_tree_def
        link_not_in_dir(1) [symmetric])
  then obtain d' f where "xd_delete demo_env ?x True ?w = (Ok (), ?w\<lparr>wdb := d', wfs := f\<rparr>)"
    and "ref_abs d' = (ref_abs (wdb ?w))(xd_tree ?x := None)" and "f (xdp_link_path 4) = None" by auto
  then show ?thesis by (intro exI [of _ d'] exI [of _ f]) (simp add: demo_slot_world_def)
qed

end
