(* ===== verification/Program_Order.thy ===== *)
theory Program_Order
  imports Dispatcher_Lifecycle
begin

text \<open>
  The order of the programs of an interface. XDP and TC programs share the contract
  \<open>net_programs\<close>: what their trees hold is a view (priority, attached, name, interface,
  direction) that the operations of \<open>Program\<close> read. Over this contract the scan of the
  database finds exactly the programs of an interface, and \<open>set_program_positions\<close> numbers
  them in the order of their keys.
\<close>


subsection \<open>Views\<close>

record net_view =
  nv_prio :: i32
  nv_attached :: bool
  nv_name :: string
  nv_if_index :: "u32 option"
  nv_direction :: "direction option"

definition view_key :: "net_view \<Rightarrow> sort_key" where
  "view_key v = (sint (nv_prio v), nv_attached v, nv_name v)"

definition xdp_view :: "'d host \<Rightarrow> tree \<Rightarrow> net_view \<Rightarrow> bool" where
  "xdp_view H m v \<longleftrightarrow> m XDP_PRIORITY = Some (ne4 H (nv_prio v))
     \<and> m NAME = Some (as_bytes (nv_name v)) \<and> is_str (nv_name v)
     \<and> m XDP_ATTACHED \<in> (if nv_attached v then {} else {None}) \<union> {Some (ne_bool H (nv_attached v))}
     \<and> m XDP_IF_INDEX = map_option (ne4 H) (nv_if_index v) \<and> nv_direction v = None"

definition tc_view :: "'d host \<Rightarrow> tree \<Rightarrow> net_view \<Rightarrow> bool" where
  "tc_view H m v \<longleftrightarrow> m TC_PRIORITY = Some (ne4 H (nv_prio v))
     \<and> m NAME = Some (as_bytes (nv_name v)) \<and> is_str (nv_name v)
     \<and> m TC_ATTACHED \<in> (if nv_attached v then {} else {None}) \<union> {Some (ne_bool H (nv_attached v))}
     \<and> m TC_IF_INDEX = map_option (ne4 H) (nv_if_index v)
     \<and> (\<exists>dir. nv_direction v = Some dir \<and> m TC_DIRECTION = Some (as_bytes (show_direction dir)))"

definition tree_id :: "string \<Rightarrow> u32 option" where
  "tree_id t = parse_u32 (last (split_on (CHR ''_'') t))"

text \<open>
  Every tree named like a program is one, and those of the given kind have a view; a tree is
  chosen when it is a program of the kind on the given interface and direction.
\<close>

definition scannable :: "'d host \<Rightarrow> program_type \<Rightarrow> (tree \<Rightarrow> net_view \<Rightarrow> bool) \<Rightarrow> trees \<Rightarrow> bool" where
  "scannable H kind view T \<longleftrightarrow> (\<forall>t m. T t = Some m \<longrightarrow> is_str t \<and> (str_contains t PROGRAM_PREFIX \<longrightarrow>
     (\<exists>i k. tree_id t = Some i \<and> k \<in> supported_kinds \<and> m ID = Some (ne4 H i)
       \<and> m KIND = Some (ne4 H (program_type_to_u32 k)) \<and> (k = kind \<longrightarrow> (\<exists>v. view m v)))))"

definition chosen ::
  "'d host \<Rightarrow> program_type \<Rightarrow> (tree \<Rightarrow> net_view \<Rightarrow> bool) \<Rightarrow> trees \<Rightarrow> u32 option \<Rightarrow> direction option \<Rightarrow> string \<Rightarrow> bool" where
  "chosen H kind view T ix dir t \<longleftrightarrow> str_contains t PROGRAM_PREFIX \<and> (\<exists>m v. T t = Some m
     \<and> m KIND = Some (ne4 H (program_type_to_u32 kind)) \<and> view m v \<and> nv_if_index v = ix \<and> nv_direction v = dir)"

lemma program_type_u32_inject: "program_type_to_u32 k = program_type_to_u32 k' \<longleftrightarrow> k = k'"
  by (metis program_type_u32_roundtrip res.inject(1))

lemma kind_bytes_inject: "ne4 H (program_type_to_u32 k) = ne4 H (program_type_to_u32 k') \<longleftrightarrow> k = k'"
  using from_to_ne_bytes_widths(1) program_type_u32_inject by metis

lemma program_kind_of_kind:
  "program_of_kind k t m = Ok p \<Longrightarrow> k \<in> supported_kinds \<Longrightarrow> program_kind H p d = Ok k"
  by (auto simp: program_of_kind_def supported_kinds_def split: if_splits option.splits)


subsection \<open>Sorting with keys read beforehand\<close>

lemma insort_key_map: "insort_key f (g x) (map g xs) = map g (insort_key (\<lambda>x. f (g x)) x xs)"
  by (induction xs) auto

lemma sort_key_map: "sort_key f (map g xs) = map g (sort_key (\<lambda>x. f (g x)) xs)"
  by (induction xs) (simp_all add: insort_key_map)

lemma sort_by_keys: "map snd (sort_key fst (zip (map k ps) ps)) = sort_key k ps"
proof -
  have "zip (map k ps) ps = map (\<lambda>p. (k p, p)) ps" by (induction ps) auto
  then show ?thesis by (simp add: sort_key_map comp_def)
qed

lemma sort_key_short: "length ps \<le> 1 \<Longrightarrow> sort_key k ps = ps"
  by (cases ps) auto


subsection \<open>The contract of programs on an interface\<close>

locale net_programs = store H \<alpha> for H :: "'d host" and \<alpha> :: "'d \<Rightarrow> trees" +
  fixes mk :: "program_data \<Rightarrow> program" and kind :: program_type and pos_key :: string
    and view :: "tree \<Rightarrow> net_view \<Rightarrow> bool"
  assumes mk_data [simp]: "program_get_data (mk pd) = pd"
    and mk_of_kind: "program_of_kind kind t m = Ok (mk \<lparr>db_tree = t\<rparr>)"
    and kind_supported: "kind \<in> supported_kinds"
    and mk_priority: "\<alpha> d (db_tree pd) = Some m \<Longrightarrow> view m v \<Longrightarrow> program_priority H (mk pd) d = Ok (nv_prio v)"
    and mk_attached: "\<alpha> d (db_tree pd) = Some m \<Longrightarrow> view m v \<Longrightarrow> program_attached H (mk pd) d = (Ok (nv_attached v) :: (bpfman_error, bool) res)"
    and mk_if_index: "\<alpha> d (db_tree pd) = Some m \<Longrightarrow> view m v \<Longrightarrow> program_if_index H (mk pd) d = Ok (nv_if_index v)"
    and mk_direction: "\<alpha> d (db_tree pd) = Some m \<Longrightarrow> view m v \<Longrightarrow> program_direction H (mk pd) d = Ok (nv_direction v)"
    and mk_set_position: "program_set_position H (mk pd) i = sled_insert H (db_tree pd) pos_key (ne8 H i)"
    and view_name: "view m v \<Longrightarrow> m NAME = Some (as_bytes (nv_name v)) \<and> is_str (nv_name v)"
    and view_unique: "view m v \<Longrightarrow> view m v' \<Longrightarrow> v = v'"
    and view_positioned [simp]: "view (m(pos_key \<mapsto> b)) v \<longleftrightarrow> view m v"
    and pos_key_other [simp]: "pos_key \<noteq> ID" "pos_key \<noteq> KIND"
begin

text \<open>Opening a tree that exists does not change the abstract state.\<close>

lemma program_of_tree_ok:
  assumes T: "\<alpha> d t = Some m" and str: "is_str t" and i: "tree_id t = Some i"
    and k: "k \<in> supported_kinds" "m ID = Some (ne4 H i)" "m KIND = Some (ne4 H (program_type_to_u32 k))"
  obtains p where "(program_of_tree H t :: ('d, 'e, u32 \<times> program) st) d = (Ok (i, p), opened H t d)"
    and "program_of_kind k t m = Ok p" and "program_get_data p = \<lparr>db_tree = t\<rparr>"
proof -
  have o: "\<alpha> (opened H t d) t = Some m" using T by simp
  obtain p where p: "program_of_kind k t m = Ok p" "program_get_data p = \<lparr>db_tree = t\<rparr>"
    using program_of_supported [OF k(1)] by blast
  have "(program_of_tree H t :: ('d, 'e, u32 \<times> program) st) d = (Ok (i, p), opened H t d)"
    using str i new_from_db_kind [OF o k(2, 3)] p(1)
    by (simp add: program_of_tree_def bind_st_def then_st_def tree_id_def)
  with that p show ?thesis by blast
qed

lemma keeps_ok:
  assumes T: "\<alpha> d t = Some m" and p: "program_of_kind k t m = Ok p" and k: "k \<in> supported_kinds"
    and v: "k = kind \<Longrightarrow> view m v"
  shows "(filter_keeps H kind ix dir p d :: ('e, bool) res)
    = Ok (k = kind \<and> nv_if_index v = ix \<and> nv_direction v = dir)"
proof (cases "k = kind")
  case True
  with p mk_of_kind [of t m] have [simp]: "p = mk \<lparr>db_tree = t\<rparr>" by simp
  have "program_kind H p d = (Ok kind :: ('e, program_type) res)"
    using program_kind_of_kind [OF p k] True by simp
  then show ?thesis
    using True T mk_if_index [of d "\<lparr>db_tree = t\<rparr>" m v] mk_direction [of d "\<lparr>db_tree = t\<rparr>" m v] v
    by (simp add: filter_keeps_def)
next
  case False
  have "program_kind H p d = (Ok k :: ('e, program_type) res)" using p k by (rule program_kind_of_kind)
  with False show ?thesis by (simp add: filter_keeps_def)
qed

lemma scan_programs_ok:
  assumes "scannable H kind view (\<alpha> d)" and "set ts \<subseteq> dom (\<alpha> d)"
  shows "\<exists>ips d'. (scan_programs H (filter_keeps H kind ix dir) ts :: ('d, 'e, (u32 \<times> program) list) st) d = (Ok ips, d')
    \<and> \<alpha> d' = \<alpha> d
    \<and> map snd ips = map (\<lambda>t. mk \<lparr>db_tree = t\<rparr>) (filter (chosen H kind view (\<alpha> d) ix dir) ts)"
  using assms
proof (induction ts arbitrary: d)
  case Nil
  then show ?case by auto
next
  case (Cons t ts)
  from Cons.prems obtain m where m: "\<alpha> d t = Some m" by auto
  have str: "is_str t" using Cons.prems(1) m by (auto simp: scannable_def)
  show ?case
  proof (cases "str_contains t PROGRAM_PREFIX")
    case False
    then have "\<not> chosen H kind view (\<alpha> d) ix dir t" by (simp add: chosen_def)
    with Cons.IH [OF Cons.prems(1)] Cons.prems(2) False str show ?thesis
      by (simp add: bind_st_def)
  next
    case True
    then obtain i k where ik: "tree_id t = Some i" "k \<in> supported_kinds" "m ID = Some (ne4 H i)"
        "m KIND = Some (ne4 H (program_type_to_u32 k))" "k = kind \<longrightarrow> (\<exists>v. view m v)"
      using Cons.prems(1) m unfolding scannable_def by blast
    obtain p where p: "(program_of_tree H t :: ('d, 'e, u32 \<times> program) st) d = (Ok (i, p), opened H t d)"
        "program_of_kind k t m = Ok p"
      using program_of_tree_ok [OF m str ik(1-4)] by metis
    let ?d = "opened H t d"
    have T: "\<alpha> ?d = \<alpha> d" by (rule abs_opened_old [OF m])
    obtain v where v: "k = kind \<Longrightarrow> view m v" using ik(5) by blast
    have keep: "(filter_keeps H kind ix dir p ?d :: ('e, bool) res)
        = Ok (k = kind \<and> nv_if_index v = ix \<and> nv_direction v = dir)"
      by (rule keeps_ok [OF _ p(2) ik(2) v]) (simp_all add: T m)
    have ch: "chosen H kind view (\<alpha> d) ix dir t \<longleftrightarrow> k = kind \<and> nv_if_index v = ix \<and> nv_direction v = dir"
      using True m ik(4) v view_unique [of m v] by (auto simp: chosen_def kind_bytes_inject)
    obtain ips d' where rest: "(scan_programs H (filter_keeps H kind ix dir) ts :: ('d, 'e, (u32 \<times> program) list) st) ?d = (Ok ips, d')"
        "\<alpha> d' = \<alpha> d" "map snd ips = map (\<lambda>t. mk \<lparr>db_tree = t\<rparr>) (filter (chosen H kind view (\<alpha> d) ix dir) ts)"
      using Cons.IH [of ?d, unfolded T] Cons.prems by auto
    have mk: "p = mk \<lparr>db_tree = t\<rparr>" if "k = kind" using that p(2) mk_of_kind [of t m] by simp
    show ?thesis
      using True str p(1) keep rest ch mk by (auto simp: bind_st_def)
  qed
qed

lemma filter_programs_ok:
  assumes "scannable H kind view (\<alpha> d)"
  shows "\<exists>d'. (filter_programs H kind ix dir :: ('d, 'e, program list) st) d =
      (Ok (map (\<lambda>t. mk \<lparr>db_tree = t\<rparr>) (filter (chosen H kind view (\<alpha> d) ix dir) (db_tree_names H d))), d')
    \<and> \<alpha> d' = \<alpha> d"
proof -
  obtain ips d' where "(scan_programs H (filter_keeps H kind ix dir) (db_tree_names H d)
      :: ('d, 'e, (u32 \<times> program) list) st) d = (Ok ips, d')" "\<alpha> d' = \<alpha> d"
    "map snd ips = map (\<lambda>t. mk \<lparr>db_tree = t\<rparr>) (filter (chosen H kind view (\<alpha> d) ix dir) (db_tree_names H d))"
    using scan_programs_ok [OF assms, of "db_tree_names H d"] names_set by blast
  then show ?thesis by (simp add: filter_programs_def bind_st_def)
qed


text \<open>The keys of chosen programs, and the order they give.\<close>

lemma program_sort_key_ok:
  assumes "\<alpha> d t = Some m" and "view m v"
  shows "(program_sort_key H (mk \<lparr>db_tree = t\<rparr>) d :: (bpfman_error, sort_key) res) = Ok (view_key v)"
proof -
  let ?pd = "\<lparr>db_tree = t\<rparr>"
  have m: "\<alpha> d (db_tree ?pd) = Some m" using assms(1) by simp
  have "get_name H ?pd d = Ok (nv_name v)"
    using view_name [OF assms(2)] get_string_ok [OF m] by (simp add: get_name_def)
  with mk_priority [OF m assms(2)] mk_attached [OF m assms(2)] show ?thesis
    by (simp add: program_sort_key_def view_key_def)
qed

lemma sort_programs_ok:
  assumes "\<And>t. t \<in> set ts \<Longrightarrow> \<exists>m. \<alpha> d t = Some m \<and> view m (V t)"
  shows "(sort_programs H (map (\<lambda>t. mk \<lparr>db_tree = t\<rparr>) ts) d :: (bpfman_error, program list) res)
    = Ok (map (\<lambda>t. mk \<lparr>db_tree = t\<rparr>) (sort_key (\<lambda>t. view_key (V t)) ts))"
proof (cases "length ts \<le> 1")
  case True
  then show ?thesis by (simp add: sort_programs_def sort_key_short)
next
  case False
  let ?mk = "\<lambda>t. mk \<lparr>db_tree = t\<rparr>" and ?k = "\<lambda>t. view_key (V t)"
  have "collect_res (map (\<lambda>t. program_sort_key H (?mk t) d :: (bpfman_error, sort_key) res) ts) = Ok (map ?k ts)"
    using assms program_sort_key_ok by (intro collect_res_all_Ok) blast
  moreover have "map snd (sort_key fst (zip (map ?k ts) (map ?mk ts))) = map ?mk (sort_key ?k ts)"
  proof -
    have "zip (map ?k ts) (map ?mk ts) = map (\<lambda>t. (?k t, ?mk t)) ts" by (simp add: zip_map_map zip_same_conv_map)
    then show ?thesis by (simp add: sort_key_map comp_def)
  qed
  ultimately show ?thesis using False by (simp add: sort_programs_def comp_def)
qed

text \<open>Writing the positions numbers the trees of the list and changes nothing else.\<close>

lemma write_positions_aux:
  assumes "distinct ts" and "set ts \<subseteq> dom (\<alpha> d)"
  shows "\<exists>d'. try_for_each (\<lambda>(i, v). expect_st msg (program_set_position H v (of_nat i)))
        (enumerate n (map (\<lambda>t. mk \<lparr>db_tree = t\<rparr>) ts)) d = (Ok () :: (bpfman_error, unit) res, d')
    \<and> (\<forall>i < length ts. \<alpha> d' (ts ! i) = map_option (\<lambda>m. m(pos_key \<mapsto> ne8 H (of_nat (n + i)))) (\<alpha> d (ts ! i)))
    \<and> (\<forall>t. t \<notin> set ts \<longrightarrow> \<alpha> d' t = \<alpha> d t)"
  using assms
proof (induction ts arbitrary: n d)
  case Nil
  then show ?case by simp
next
  case (Cons t ts)
  from Cons.prems obtain m where m: "\<alpha> d t = Some m" by auto
  let ?d = "inserted H t pos_key (ne8 H (of_nat n)) d"
  have T: "\<alpha> ?d = (\<alpha> d)(t \<mapsto> m(pos_key \<mapsto> ne8 H (of_nat n)))" using m by simp
  obtain d' where d': "try_for_each (\<lambda>(i, v). expect_st msg (program_set_position H v (of_nat i)))
        (enumerate (Suc n) (map (\<lambda>t. mk \<lparr>db_tree = t\<rparr>) ts)) ?d = (Ok () :: (bpfman_error, unit) res, d')"
    "\<forall>i < length ts. \<alpha> d' (ts ! i) = map_option (\<lambda>m. m(pos_key \<mapsto> ne8 H (of_nat (Suc n + i)))) (\<alpha> ?d (ts ! i))"
    "\<forall>t. t \<notin> set ts \<longrightarrow> \<alpha> d' t = \<alpha> ?d t"
    using Cons.IH [of ?d "Suc n"] Cons.prems T by fastforce
  have step: "expect_st msg (program_set_position H (mk \<lparr>db_tree = t\<rparr>) (of_nat n)) d =
      (Ok () :: (bpfman_error, unit) res, ?d)"
    using m by (simp add: expect_st_def mk_set_position)
  have "\<alpha> d' ((t # ts) ! i) = map_option (\<lambda>m. m(pos_key \<mapsto> ne8 H (of_nat (n + i)))) (\<alpha> d ((t # ts) ! i))"
    if "i < length (t # ts)" for i
  proof (cases i)
    case 0
    then show ?thesis using d'(3) Cons.prems(1) T m by simp
  next
    case (Suc j)
    then have "ts ! j \<noteq> t" using that Cons.prems(1) by auto
    with Suc that d'(2) T show ?thesis by simp
  qed
  moreover have "\<forall>u. u \<notin> set (t # ts) \<longrightarrow> \<alpha> d' u = \<alpha> d u" using d'(3) T by simp
  moreover have "try_for_each (\<lambda>(i, v). expect_st msg (program_set_position H v (of_nat i)))
      (enumerate n (map (\<lambda>t. mk \<lparr>db_tree = t\<rparr>) (t # ts))) d = (Ok () :: (bpfman_error, unit) res, d')"
    using step d'(1) by (simp add: then_st_def bind_st_def)
  ultimately show ?case by blast
qed

lemma set_positions_ok:
  assumes sc: "scannable H kind view (\<alpha> d)"
  shows "\<exists>d' ts V. (set_program_positions H kind ix dir :: ('d, bpfman_error, unit) st) d = (Ok (), d')
    \<and> distinct ts \<and> set ts = {t. chosen H kind view (\<alpha> d) (Some ix) dir t}
    \<and> (\<forall>t \<in> set ts. view (the (\<alpha> d t)) (V t)) \<and> sorted (map (\<lambda>t. view_key (V t)) ts)
    \<and> (\<forall>i < length ts. \<alpha> d' (ts ! i) = map_option (\<lambda>m. m(pos_key \<mapsto> ne8 H (of_nat i))) (\<alpha> d (ts ! i)))
    \<and> (\<forall>t. t \<notin> set ts \<longrightarrow> \<alpha> d' t = \<alpha> d t)"
proof -
  let ?c = "chosen H kind view (\<alpha> d) (Some ix) dir" and ?mk = "\<lambda>t. mk \<lparr>db_tree = t\<rparr>"
  let ?us = "filter ?c (db_tree_names H d)"
  obtain d1 where d1: "(filter_programs H kind (Some ix) dir :: ('d, bpfman_error, program list) st) d = (Ok (map ?mk ?us), d1)"
    "\<alpha> d1 = \<alpha> d" using filter_programs_ok [OF sc] by blast
  have us: "set ?us = {t. ?c t}" "distinct ?us"
    using names_set names_distinct by (auto simp: chosen_def)
  have "\<exists>v. view (the (\<alpha> d t)) v" if "?c t" for t using that by (auto simp: chosen_def)
  then obtain V where V: "\<And>t. ?c t \<Longrightarrow> view (the (\<alpha> d t)) (V t)" by metis
  define ts where "ts = sort_key (\<lambda>t. view_key (V t)) ?us"
  have sort: "(sort_programs H (map ?mk ?us) d1 :: (bpfman_error, program list) res) = Ok (map ?mk ts)"
    unfolding ts_def
  proof (rule sort_programs_ok)
    fix t assume "t \<in> set ?us"
    then have c: "?c t" by simp
    then obtain m where "\<alpha> d t = Some m" by (auto simp: chosen_def)
    with V [OF c] d1(2) show "\<exists>m. \<alpha> d1 t = Some m \<and> view m (V t)" by simp
  qed
  have ts: "distinct ts" "set ts = {t. ?c t}" "sorted (map (\<lambda>t. view_key (V t)) ts)"
    using us by (simp_all add: ts_def)
  then have "set ts \<subseteq> dom (\<alpha> d1)" using d1(2) by (auto simp: chosen_def)
  then obtain d' where d': "(write_positions H (map ?mk ts) :: ('d, bpfman_error, unit) st) d1 = (Ok (), d')"
    "\<forall>i < length ts. \<alpha> d' (ts ! i) = map_option (\<lambda>m. m(pos_key \<mapsto> ne8 H (of_nat i))) (\<alpha> d1 (ts ! i))"
    "\<forall>t. t \<notin> set ts \<longrightarrow> \<alpha> d' t = \<alpha> d1 t"
    using write_positions_aux [OF ts(1), of d1 "''unable to set program position''" 0]
    by (auto simp: write_positions_def)
  have "(set_program_positions H kind ix dir :: ('d, bpfman_error, unit) st) d = (Ok (), d')"
    using d1(1) sort d'(1) by (simp add: set_program_positions_def bind_st_def)
  with ts V d'(2, 3) d1(2) show ?thesis by (intro exI [of _ d'] exI [of _ ts] exI [of _ V]) auto
qed

text \<open>Positions are no part of the view, so the same programs are found afterwards.\<close>

definition fits :: "string \<Rightarrow> tree \<Rightarrow> bool" where
  "fits t m \<longleftrightarrow> is_str t \<and> (str_contains t PROGRAM_PREFIX \<longrightarrow>
     (\<exists>i k. tree_id t = Some i \<and> k \<in> supported_kinds \<and> m ID = Some (ne4 H i)
       \<and> m KIND = Some (ne4 H (program_type_to_u32 k)) \<and> (k = kind \<longrightarrow> (\<exists>v. view m v))))"

lemma scannable_fits: "scannable H kind view T \<longleftrightarrow> (\<forall>t m. T t = Some m \<longrightarrow> fits t m)"
  by (simp add: scannable_def fits_def)

lemma positioned_same:
  assumes "\<forall>i < length ts. T' (ts ! i) = map_option (\<lambda>m. m(pos_key \<mapsto> b i)) (T (ts ! i))"
    and "\<forall>t. t \<notin> set ts \<longrightarrow> T' t = T t"
  shows "scannable H kind view T' \<longleftrightarrow> scannable H kind view T"
    and "chosen H kind view T' ix dir = chosen H kind view T ix dir"
proof -
  have T': "\<exists>c. T' t = map_option (\<lambda>m. m(pos_key \<mapsto> c)) (T t) \<or> T' t = T t" for t
    using assms by (metis in_set_conv_nth)
  have fits: "fits t (m(pos_key \<mapsto> c)) \<longleftrightarrow> fits t m" for t m c
    using pos_key_other [symmetric] by (simp add: fits_def)
  have "(\<forall>m. T' t = Some m \<longrightarrow> fits t m) \<longleftrightarrow> (\<forall>m. T t = Some m \<longrightarrow> fits t m)" for t
    using T' [of t] by (cases "T t") (auto simp: fits)
  then show "scannable H kind view T' \<longleftrightarrow> scannable H kind view T"
    unfolding scannable_fits by blast
  show "chosen H kind view T' ix dir = chosen H kind view T ix dir"
  proof
    fix t
    show "chosen H kind view T' ix dir t = chosen H kind view T ix dir t"
      using T' [of t] pos_key_other(2) [symmetric] by (cases "T t") (auto simp: chosen_def)
  qed
qed

end


subsection \<open>XDP and TC programs satisfy the contract\<close>

lemma ne_bool_inject [simp]: "ne_bool H a = ne_bool H b \<longleftrightarrow> a = b"
proof
  assume eq: "ne_bool H a = ne_bool H b"
  have "bytes_to_bool H (ne_bool H c) = (Ok c :: (unit, bool) res)" for c by simp
  with eq show "a = b" by (metis res.inject(1))
qed simp

lemma show_direction_inject [simp]: "show_direction a = show_direction b \<longleftrightarrow> a = b"
  by (cases a; cases b) simp_all

lemma ne4_inject [simp]: "ne4 H (v :: u32) = ne4 H w \<longleftrightarrow> v = w"
  using from_to_ne_bytes_widths(1) by metis

lemma ne4_option_inject [simp]: "map_option (ne4 H) (x :: u32 option) = map_option (ne4 H) y \<longleftrightarrow> x = y"
  by (cases x; cases y) simp_all

lemma ne4_option_Some [simp]: "Some (ne4 H v) = map_option (ne4 H) (y :: u32 option) \<longleftrightarrow> y = Some v"
  by (cases y) auto

lemma attached_read:
  "m \<in> (if a then {} else {None}) \<union> {Some (ne_bool H a)} \<Longrightarrow>
   ok_map (\<lambda>b. case b of None \<Rightarrow> False | Some a \<Rightarrow> a) (opt_res (bytes_to_bool H) m) = Ok a"
  by (auto split: if_splits)

lemma if_index_read: "opt_res (bytes_to_u32 H) (map_option (ne4 H) x) = Ok x"
  by (cases x) simp_all

lemma attached_unique:
  "m \<in> (if a then {} else {None}) \<union> {Some (ne_bool H a)} \<Longrightarrow>
   m \<in> (if b then {} else {None}) \<union> {Some (ne_bool H b)} \<Longrightarrow> a = b"
  by (auto split: if_splits)

lemma direction_string_round_trip [simp]: "direction_from_string (show_direction dir) = Ok dir"
  by (cases dir) (simp_all add: direction_from_string_def)

sublocale store \<subseteq> xdp_net: net_programs H \<alpha> "\<lambda>pd. Program_Xdp \<lparr>xdp_data = pd\<rparr>" ProgramType_Xdp
  XDP_CURRENT_POSITION "xdp_view H"
proof unfold_locales
  fix m and v v' :: net_view
  assume "xdp_view H m v" "xdp_view H m v'"
  then show "v = v'"
    using attached_unique [of "m XDP_ATTACHED" "nv_attached v" H "nv_attached v'"]
    by (auto simp: xdp_view_def intro!: net_view.equality simp del: Un_insert_right split del: if_split)
qed (auto simp: xdp_view_def xdp_get_priority_def xdp_get_attached_def xdp_get_if_index_def attached_read if_index_read
    xdp_set_current_position_def program_of_kind_def supported_kinds_def simp del: Un_insert_right split del: if_split)

sublocale store \<subseteq> tc_net: net_programs H \<alpha> "\<lambda>pd. Program_Tc \<lparr>tc_data = pd\<rparr>" ProgramType_Tc
  TC_CURRENT_POSITION "tc_view H"
proof unfold_locales
  fix m and v v' :: net_view
  assume "tc_view H m v" "tc_view H m v'"
  then show "v = v'"
    using attached_unique [of "m TC_ATTACHED" "nv_attached v" H "nv_attached v'"]
    by (auto simp: tc_view_def intro!: net_view.equality simp del: Un_insert_right split del: if_split)
qed (auto simp: tc_view_def tc_get_priority_def tc_get_attached_def tc_get_if_index_def tc_get_direction_def
    attached_read if_index_read tc_set_current_position_def program_of_kind_def supported_kinds_def
    simp del: Un_insert_right split del: if_split)


context store
begin

lemmas xdp_set_positions = xdp_net.set_positions_ok
lemmas tc_set_positions = tc_net.set_positions_ok

end


subsection \<open>Positions follow priority\<close>

text \<open>
  C3: \<open>set_program_positions\<close> numbers exactly the XDP programs of an interface, from 0 without
  gaps, in the order of priority (smaller first, as signed integers), then of not attached
  before attached, then of their names, and changes no other tree.
\<close>

theorem xdp_positions_by_priority:
  assumes "store H \<alpha>" and "scannable H ProgramType_Xdp (xdp_view H) (\<alpha> d)"
  shows "\<exists>d' ts V. (set_program_positions H ProgramType_Xdp ix None :: ('d, bpfman_error, unit) st) d = (Ok (), d')
    \<and> distinct ts \<and> set ts = {t. chosen H ProgramType_Xdp (xdp_view H) (\<alpha> d) (Some ix) None t}
    \<and> (\<forall>t \<in> set ts. xdp_view H (the (\<alpha> d t)) (V t)) \<and> sorted (map (\<lambda>t. view_key (V t)) ts)
    \<and> (\<forall>i < length ts. xdp_get_current_position H \<lparr>xdp_data = \<lparr>db_tree = ts ! i\<rparr>\<rparr> d' = Ok (Some (of_nat i)))
    \<and> (\<forall>t. t \<notin> set ts \<longrightarrow> \<alpha> d' t = \<alpha> d t)"
proof -
  from store.xdp_set_positions [OF assms, of ix None]
  obtain d' ts V where run: "(set_program_positions H ProgramType_Xdp ix None :: ('d, bpfman_error, unit) st) d = (Ok (), d')"
    and ts: "distinct ts" "set ts = {t. chosen H ProgramType_Xdp (xdp_view H) (\<alpha> d) (Some ix) None t}"
      "\<forall>t \<in> set ts. xdp_view H (the (\<alpha> d t)) (V t)" "sorted (map (\<lambda>t. view_key (V t)) ts)"
    and pos: "\<forall>i < length ts. \<alpha> d' (ts ! i) = map_option (\<lambda>m. m(XDP_CURRENT_POSITION \<mapsto> ne8 H (of_nat i))) (\<alpha> d (ts ! i))"
    and other: "\<forall>t. t \<notin> set ts \<longrightarrow> \<alpha> d' t = \<alpha> d t"
    by blast
  have "xdp_get_current_position H \<lparr>xdp_data = \<lparr>db_tree = ts ! i\<rparr>\<rparr> d' = Ok (Some (of_nat i))" if "i < length ts" for i
  proof -
    have "ts ! i \<in> set ts" using that by simp
    then obtain m where "\<alpha> d (ts ! i) = Some m" unfolding ts(2) by (auto simp: chosen_def)
    then have "\<alpha> d' (db_tree \<lparr>db_tree = ts ! i\<rparr>) = Some (m(XDP_CURRENT_POSITION \<mapsto> ne8 H (of_nat i)))" using pos that by simp
    then show ?thesis by (simp add: xdp_get_current_position_def store.get_opt_ok [OF assms(1)])
  qed
  with run ts other show ?thesis by blast
qed

text \<open>
  C4: the positions of the TC programs of an interface and a direction follow the same order;
  programs of the other direction are not touched.
\<close>

theorem tc_positions_by_priority:
  assumes "store H \<alpha>" and "scannable H ProgramType_Tc (tc_view H) (\<alpha> d)"
  shows "\<exists>d' ts V. (set_program_positions H ProgramType_Tc ix (Some dir) :: ('d, bpfman_error, unit) st) d = (Ok (), d')
    \<and> distinct ts \<and> set ts = {t. chosen H ProgramType_Tc (tc_view H) (\<alpha> d) (Some ix) (Some dir) t}
    \<and> (\<forall>t \<in> set ts. tc_view H (the (\<alpha> d t)) (V t)) \<and> sorted (map (\<lambda>t. view_key (V t)) ts)
    \<and> (\<forall>i < length ts. tc_get_current_position H \<lparr>tc_data = \<lparr>db_tree = ts ! i\<rparr>\<rparr> d' = Ok (Some (of_nat i)))
    \<and> (\<forall>t. t \<notin> set ts \<longrightarrow> \<alpha> d' t = \<alpha> d t)"
proof -
  from store.tc_set_positions [OF assms, of ix "Some dir"]
  obtain d' ts V where run: "(set_program_positions H ProgramType_Tc ix (Some dir) :: ('d, bpfman_error, unit) st) d = (Ok (), d')"
    and ts: "distinct ts" "set ts = {t. chosen H ProgramType_Tc (tc_view H) (\<alpha> d) (Some ix) (Some dir) t}"
      "\<forall>t \<in> set ts. tc_view H (the (\<alpha> d t)) (V t)" "sorted (map (\<lambda>t. view_key (V t)) ts)"
    and pos: "\<forall>i < length ts. \<alpha> d' (ts ! i) = map_option (\<lambda>m. m(TC_CURRENT_POSITION \<mapsto> ne8 H (of_nat i))) (\<alpha> d (ts ! i))"
    and other: "\<forall>t. t \<notin> set ts \<longrightarrow> \<alpha> d' t = \<alpha> d t"
    by blast
  have "tc_get_current_position H \<lparr>tc_data = \<lparr>db_tree = ts ! i\<rparr>\<rparr> d' = Ok (Some (of_nat i))" if "i < length ts" for i
  proof -
    have "ts ! i \<in> set ts" using that by simp
    then obtain m where "\<alpha> d (ts ! i) = Some m" unfolding ts(2) by (auto simp: chosen_def)
    then have "\<alpha> d' (db_tree \<lparr>db_tree = ts ! i\<rparr>) = Some (m(TC_CURRENT_POSITION \<mapsto> ne8 H (of_nat i)))" using pos that by simp
    then show ?thesis by (simp add: tc_get_current_position_def store.get_opt_ok [OF assms(1)])
  qed
  with run ts other show ?thesis by blast
qed


text \<open>Two XDP programs on one interface, a loaded one and one being added, and a TC program.\<close>

lemma tree_id_simps [simp]: "tree_id (prog_tree i) = Some i" "tree_id (pre_load_tree i) = Some i"
proof -
  have "tree_id (p @ CHR ''_'' # show_u32 i) = Some i" for p
    by (simp add: tree_id_def last_split_on)
  from this [of "''program''"] this [of "''pre_load_program''"]
  show "tree_id (prog_tree i) = Some i" "tree_id (pre_load_tree i) = Some i"
    by (simp_all add: prog_tree_def pre_load_tree_def)
qed

definition demo_xdp_entries :: "u32 \<Rightarrow> string \<Rightarrow> i32 \<Rightarrow> bool \<Rightarrow> (string \<times> bytes) list" where
  "demo_xdp_entries i n pr att = [(ID, ne4 ref_host i), (KIND, ne4 ref_host (program_type_to_u32 ProgramType_Xdp)),
     (NAME, as_bytes n), (XDP_PRIORITY, ne4 ref_host pr), (XDP_ATTACHED, ne_bool ref_host att),
     (XDP_IF_INDEX, ne4 ref_host 4), (PREFIX_XDP_PROCEED_ON @ ''0'', ne4 ref_host 2)]"

definition demo_tc_entries :: "u32 \<Rightarrow> string \<Rightarrow> i32 \<Rightarrow> (string \<times> bytes) list" where
  "demo_tc_entries i n pr = [(ID, ne4 ref_host i), (KIND, ne4 ref_host (program_type_to_u32 ProgramType_Tc)),
     (NAME, as_bytes n), (TC_PRIORITY, ne4 ref_host pr), (TC_IF_INDEX, ne4 ref_host 4),
     (TC_DIRECTION, as_bytes ''ingress'')]"

definition demo_order_db :: ref_db where
  "demo_order_db = [(prog_tree 3, demo_xdp_entries 3 ''b'' 50 True),
     (pre_load_tree 7, demo_xdp_entries 7 ''a'' 10 False), (prog_tree 5, demo_tc_entries 5 ''c'' 1)]"

lemma demo_xdp_view:
  "is_str n \<Longrightarrow> xdp_view ref_host (map_of (demo_xdp_entries i n pr att)) v \<longleftrightarrow>
   v = \<lparr>nv_prio = pr, nv_attached = att, nv_name = n, nv_if_index = Some 4, nv_direction = None\<rparr>"
  by (cases v) (auto simp: xdp_view_def demo_xdp_entries_def split: if_splits)

lemma demo_tc_view:
  "is_str n \<Longrightarrow> tc_view ref_host (map_of (demo_tc_entries i n pr))
   \<lparr>nv_prio = pr, nv_attached = False, nv_name = n, nv_if_index = Some 4, nv_direction = Some Direction_Ingress\<rparr>"
  by (auto simp: tc_view_def demo_tc_entries_def)

lemma demo_keys:
  "map_of (demo_xdp_entries i n pr att) ID = Some (ne4 ref_host i)"
  "map_of (demo_xdp_entries i n pr att) KIND = Some (ne4 ref_host (program_type_to_u32 ProgramType_Xdp))"
  "map_of (demo_tc_entries i n pr) ID = Some (ne4 ref_host i)"
  "map_of (demo_tc_entries i n pr) KIND = Some (ne4 ref_host (program_type_to_u32 ProgramType_Tc))"
  by (simp_all add: demo_xdp_entries_def demo_tc_entries_def)

lemma demo_trees:
  "ref_abs demo_order_db = [prog_tree 3 \<mapsto> map_of (demo_xdp_entries 3 ''b'' 50 True),
     pre_load_tree 7 \<mapsto> map_of (demo_xdp_entries 7 ''a'' 10 False), prog_tree 5 \<mapsto> map_of (demo_tc_entries 5 ''c'' 1)]"
  by (auto simp: ref_abs_def demo_order_db_def)

lemma prog_tree_contains [simp]:
  "str_contains (prog_tree i) PROGRAM_PREFIX" "str_contains (pre_load_tree i) PROGRAM_PREFIX"
proof -
  have "sublist PROGRAM_PREFIX (p @ PROGRAM_PREFIX @ s)" for p s by (auto simp: sublist_def)
  from this [of "''pre_load_''" "show_u32 i"] this [of "[]" "show_u32 i"]
  show "str_contains (prog_tree i) PROGRAM_PREFIX" "str_contains (pre_load_tree i) PROGRAM_PREFIX"
    by (simp_all add: str_contains_def prog_tree_def pre_load_tree_def)
qed

lemma demo_scannable:
  "scannable ref_host ProgramType_Xdp (xdp_view ref_host) (ref_abs demo_order_db)"
  "scannable ref_host ProgramType_Tc (tc_view ref_host) (ref_abs demo_order_db)"
proof -
  have str: "is_str ''a''" "is_str ''b''" "is_str ''c''" by simp_all
  have kinds: "ProgramType_Xdp \<in> supported_kinds" "ProgramType_Tc \<in> supported_kinds"
    by (simp_all add: supported_kinds_def)
  show "scannable ref_host ProgramType_Xdp (xdp_view ref_host) (ref_abs demo_order_db)"
    unfolding scannable_def demo_trees
    by (auto simp: demo_keys demo_xdp_view str program_type_u32_inject kinds split: if_splits
        simp del: program_type_to_u32.simps)
  show "scannable ref_host ProgramType_Tc (tc_view ref_host) (ref_abs demo_order_db)"
    unfolding scannable_def demo_trees
    by (auto simp: demo_keys program_type_u32_inject kinds split: if_splits
        simp del: program_type_to_u32.simps intro!: exI demo_tc_view)
qed

theorem xdp_positions_by_priority_witness:
  "\<exists>d' ts V. (set_program_positions ref_host ProgramType_Xdp 4 None :: (ref_db, bpfman_error, unit) st) demo_order_db = (Ok (), d')
    \<and> set ts = {prog_tree 3, pre_load_tree 7} \<and> sorted (map (\<lambda>t. view_key (V t)) ts)
    \<and> (\<forall>i < length ts. xdp_get_current_position ref_host \<lparr>xdp_data = \<lparr>db_tree = ts ! i\<rparr>\<rparr> d' = Ok (Some (of_nat i)))"
proof -
  have str: "is_str ''a''" "is_str ''b''" by simp_all
  have eq: "{t. chosen ref_host ProgramType_Xdp (xdp_view ref_host) (ref_abs demo_order_db) (Some 4) None t} =
      {prog_tree 3, pre_load_tree 7}"
    by (auto simp: chosen_def demo_trees demo_keys demo_xdp_view str program_type_u32_inject split: if_splits
        simp del: program_type_to_u32.simps)
  from xdp_positions_by_priority [OF ref_store demo_scannable(1), of 4, unfolded eq] show ?thesis by metis
qed

theorem tc_positions_by_priority_witness:
  "\<exists>d' ts V. (set_program_positions ref_host ProgramType_Tc 4 (Some Direction_Egress) :: (ref_db, bpfman_error, unit) st)
      demo_order_db = (Ok (), d')
    \<and> distinct ts \<and> sorted (map (\<lambda>t. view_key (V t)) ts)
    \<and> (\<forall>i < length ts. tc_get_current_position ref_host \<lparr>tc_data = \<lparr>db_tree = ts ! i\<rparr>\<rparr> d' = Ok (Some (of_nat i)))"
  using tc_positions_by_priority [OF ref_store demo_scannable(2), of 4 Direction_Egress] by blast

end
