(* ===== verification/Dispatcher_Chain.thy ===== *)
theory Dispatcher_Chain
  imports Dispatchers
begin

text \<open>
  What a dispatcher does with a packet. The BPF programs \<open>bpf/xdp_dispatcher_v2.bpf.c\<close> and
  \<open>bpf/tc_dispatcher.bpf.c\<close> read the configuration that \<open>multiprog\<close> computes and call the
  slots \<open>prog0\<close> to \<open>prog9\<close>, each replaced by the program attached to it. The abstract
  specification is a chain: the programs run in order, each decides by its proceed-on
  actions whether the next one runs, and the first that does not proceed gives the result.
\<close>


subsection \<open>The dispatcher programs\<close>

text \<open>
  A slot takes the packet and returns its verdict with the packet it leaves. A shift of a
  32-bit value uses the low five bits of its amount.
\<close>

type_synonym 'c slot = "'c \<Rightarrow> i32 \<times> 'c"

definition shl1 :: "i32 \<Rightarrow> u32" where
  "shl1 n = push_bit (unat n mod 32) 1"

fun dispatch_from ::
  "(i32 \<Rightarrow> u32) \<Rightarrow> i32 \<Rightarrow> u8 \<Rightarrow> u32 list \<Rightarrow> (nat \<Rightarrow> 'c slot) \<Rightarrow> nat list \<Rightarrow> 'c slot" where
  "dispatch_from flag fin n acts slot [] c = (fin, c)"
| "dispatch_from flag fin n acts slot (k # ks) c =
     (if unat n < k + 1 then (fin, c)
      else case slot k c of (r, c') \<Rightarrow>
        if flag r AND acts ! k = 0 then (r, c') else dispatch_from flag fin n acts slot ks c')"

abbreviation (input) XDP_PASS :: i32 where "XDP_PASS \<equiv> 2"
abbreviation (input) TC_ACT_OK :: i32 where "TC_ACT_OK \<equiv> 0"

definition xdp_dispatcher_prog :: "xdp_dispatcher_config \<Rightarrow> (nat \<Rightarrow> 'c slot) \<Rightarrow> 'c slot" where
  "xdp_dispatcher_prog conf slot =
     dispatch_from shl1 XDP_PASS (num_progs_enabled conf) (chain_call_actions conf) slot [0..<10]"

definition tc_dispatcher_prog :: "tc_dispatcher_config \<Rightarrow> (nat \<Rightarrow> 'c slot) \<Rightarrow> 'c slot" where
  "tc_dispatcher_prog conf slot =
     dispatch_from (\<lambda>r. shl1 (r + 1)) TC_ACT_OK (tc_num_progs_enabled conf) (tc_chain_call_actions conf) slot [0..<10]"


subsection \<open>The chain\<close>

fun run_chain :: "i32 \<Rightarrow> ('c slot \<times> i32 set) list \<Rightarrow> 'c slot" where
  "run_chain fin [] c = (fin, c)"
| "run_chain fin ((f, S) # ps) c = (case f c of (r, c') \<Rightarrow>
     if r \<in> S then run_chain fin ps c' else (r, c'))"

lemma shl1_and: "unat n < 32 \<Longrightarrow> shl1 n AND m = 0 \<longleftrightarrow> \<not> bit m (unat n)"
  by (simp add: shl1_def and.commute [of _ m] and_exp_eq_0_iff_not_bit)

text \<open>
  Slots 0 to \<open>n - 1\<close> whose configured actions are exactly the verdicts in \<open>S\<close> run as a chain.
\<close>

lemma dispatch_from_chain:
  assumes "n \<le> 10" and "k \<le> n"
    and "\<And>i c. i < n \<Longrightarrow> (flag (fst (slot i c)) AND acts ! i \<noteq> 0) = (fst (slot i c) \<in> S i)"
  shows "dispatch_from flag fin (of_nat n) acts slot [k..<10] c
    = run_chain fin (map (\<lambda>i. (slot i, S i)) [k..<n]) c"
  using assms(2)
proof (induction "n - k" arbitrary: k c)
  case 0
  then have "k = n" by simp
  then show ?case using assms(1) by (cases "n = 10") (auto simp: upt_conv_Cons take_bit_nat_eq_self_iff unat_of_nat take_bit_eq_mod)
next
  case (Suc m)
  then have k: "k < n" "k < 10" using assms(1) by simp_all
  have n: "unat (of_nat n :: u8) = n" using assms(1) by (simp add: unat_of_nat take_bit_eq_mod)
  obtain r c' where r: "slot k c = (r, c')" by fastforce
  have "dispatch_from flag fin (of_nat n) acts slot [Suc k..<10] c'
      = run_chain fin (map (\<lambda>i. (slot i, S i)) [Suc k..<n]) c'"
    using Suc.hyps k by (intro Suc.hyps(1)) auto
  moreover have "(flag r AND acts ! k \<noteq> 0) = (r \<in> S k)" using assms(3) [of k c] k r by simp
  ultimately show ?case
    using k r n by (auto simp: upt_conv_Cons)
qed


text \<open>The masks of \<open>types.rs\<close> are the verdicts on which the chain goes on.\<close>

lemma xdp_flag_mask:
  assumes "unat r < 32"
  shows "shl1 r AND xdp_mask po = 0 \<longleftrightarrow> (r \<notin> set (xdp_as_action_vec po))"
proof -
  have "unat (xdp_entry_to_i32 e) = unat r \<longleftrightarrow> r = xdp_entry_to_i32 e" for e
    by (metis word_unat_eq_iff)
  then show ?thesis using assms by (auto simp: shl1_and xdp_mask_bit xdp_as_action_vec_def)
qed

lemma tc_flag_mask:
  assumes "unat (r + 1) < 32"
  shows "shl1 (r + 1) AND tc_mask po = 0 \<longleftrightarrow> (r \<notin> set (tc_as_action_vec po))"
proof -
  have "unat (tc_entry_to_i32 e + 1) = unat (r + 1) \<longleftrightarrow> r = tc_entry_to_i32 e" for e
    by (metis add_right_cancel word_unat_eq_iff)
  then show ?thesis using assms by (auto simp: shl1_and tc_mask_bit tc_as_action_vec_def)
qed


subsection \<open>The configuration\<close>

text \<open>
  \<open>fill_actions\<close> on programs at distinct positions below ten: the mask of each program is
  stored at its position, the other actions keep their value.
\<close>

lemma fill_actions_ok:
  assumes "\<And>p. p \<in> set ps \<Longrightarrow> pos p d = Ok (Some (of_nat (q p)))"
    and "\<And>p. p \<in> set ps \<Longrightarrow> msk p d = Ok (m p)"
    and "\<And>p. p \<in> set ps \<Longrightarrow> q p < length acts" and "length acts < 2 ^ 64" and "distinct (map q ps)"
  shows "\<exists>acts'. fill_actions pos msk ps acts d = Ok acts' \<and> length acts' = length acts
    \<and> (\<forall>p \<in> set ps. acts' ! q p = m p) \<and> (\<forall>i. i \<notin> q ` set ps \<longrightarrow> acts' ! i = acts ! i)"
  using assms
proof (induction ps arbitrary: acts)
  case Nil
  then show ?case by simp
next
  case (Cons p ps)
  let ?a = "acts[q p := m p]"
  have q: "unat (of_nat (q p) :: usize) = q p" "q p < length acts"
    using Cons.prems(3) [of p] Cons.prems(4) by (simp_all add: unat_of_nat take_bit_eq_mod)
  obtain a where a: "fill_actions pos msk ps ?a d = Ok a" "length a = length ?a"
      "\<forall>p \<in> set ps. a ! q p = m p" "\<forall>i. i \<notin> q ` set ps \<longrightarrow> a ! i = ?a ! i"
    using Cons.IH [of ?a] Cons.prems by auto
  have "fill_actions pos msk (p # ps) acts d = Ok a"
    using Cons.prems(1, 2) [of p] q a(1) by simp
  moreover have "a ! q p = m p" using a(4) Cons.prems(5) q(2) by auto
  moreover have "\<forall>i. i \<notin> q ` set (p # ps) \<longrightarrow> a ! i = acts ! i" using a(4) by auto
  ultimately show ?case using a by auto
qed

text \<open>
  Programs in any order, at the positions 0 to n - 1: slot \<open>i\<close> gets the mask of the program
  at position \<open>i\<close>, and the slots after the last program are never reached.
\<close>

lemma fill_actions_perm:
  assumes "\<And>p. p \<in> set ps \<Longrightarrow> pos p d = Ok (Some (of_nat (q p)))"
    and "\<And>p. p \<in> set ps \<Longrightarrow> msk p d = Ok (m p)"
    and "mset (map q ps) = mset [0..<length ps]" and "length ps \<le> 10"
  shows "\<exists>acts. fill_actions pos msk ps (replicate 10 0) d = Ok acts \<and> length acts = 10
    \<and> (\<forall>p \<in> set ps. acts ! q p = m p)"
proof -
  have "distinct (map q ps)" using assms(3) by (metis distinct_upt mset_eq_imp_distinct_iff)
  moreover have "q p < length (replicate 10 (0 :: u32))" if "p \<in> set ps" for p
  proof -
    have "q p \<in># mset (map q ps)" using that by simp
    then show ?thesis unfolding assms(3) using assms(4) by simp
  qed
  ultimately show ?thesis
    using fill_actions_ok [of ps pos d q msk m "replicate 10 0"] assms(1, 2) by fastforce
qed


lemma sort_positions:
  fixes q :: "'p \<Rightarrow> nat"
  assumes "mset (map q ps) = mset [0..<length ps]"
  shows "map q (sort_key q ps) = [0..<length ps]"
proof -
  have "mset (map q (sort_key q ps)) = mset (map q ps)"
    by (simp add: mset_map)
  then have "mset (map q (sort_key q ps)) = mset [0..<length ps]" using assms by simp
  then show ?thesis using properties_for_sort [of "map q (sort_key q ps)" "[0..<length ps]"]
    by (simp add: sorted_sort_id)
qed

lemma dispatch_sorted:
  fixes q :: "'p \<Rightarrow> nat"
  assumes "mset (map q ps) = mset [0..<length ps]" and "length ps \<le> 10"
    and "\<And>p c. p \<in> set ps \<Longrightarrow> (flag (fst (slot (q p) c)) AND acts ! q p \<noteq> 0) = (fst (slot (q p) c) \<in> S p)"
  shows "dispatch_from flag fin (of_nat (length ps)) acts slot [0..<10] c
    = run_chain fin (map (\<lambda>p. (slot (q p), S p)) (sort_key q ps)) c"
proof -
  let ?ps = "sort_key q ps"
  have q: "q (?ps ! i) = i" if "i < length ps" for i
    using that sort_positions [OF assms(1)] by (metis add_0 length_map length_sort nth_map nth_upt)
  have "dispatch_from flag fin (of_nat (length ps)) acts slot [0..<10] c
      = run_chain fin (map (\<lambda>i. (slot i, S (?ps ! i))) [0..<length ps]) c"
  proof (rule dispatch_from_chain [OF assms(2)])
    fix i c assume i: "i < length ps"
    then have "?ps ! i \<in> set ps" by (metis length_sort nth_mem set_sort)
    from assms(3) [OF this, of c] q [OF i]
    show "(flag (fst (slot i c)) AND acts ! i \<noteq> 0) = (fst (slot i c) \<in> S (?ps ! i))" by simp
  qed simp
  also have "map (\<lambda>i. (slot i, S (?ps ! i))) [0..<length ps] = map (\<lambda>p. (slot (q p), S p)) ?ps"
    using q by (intro nth_equalityI) auto
  finally show ?thesis .
qed

lemma xdp_dispatcher_prog_config:
  "xdp_dispatcher_prog (xdp_config_of acts exts) slot c =
   dispatch_from shl1 XDP_PASS (of_nat (length exts)) acts slot [0..<10] c"
  unfolding xdp_dispatcher_prog_def xdp_config_of_def xdp_dispatcher_config_new_def
  by (simp del: upt_rec_numeral dispatch_from.simps)

lemma tc_dispatcher_prog_config:
  "tc_dispatcher_prog (tc_config_of acts exts) slot c =
   dispatch_from (\<lambda>r. shl1 (r + 1)) TC_ACT_OK (of_nat (length exts)) acts slot [0..<10] c"
  unfolding tc_dispatcher_prog_def tc_config_of_def
  by (simp del: upt_rec_numeral dispatch_from.simps)


subsection \<open>Dispatchers run the programs in the order of their positions\<close>

lemma xdp_chain_exists:
  assumes "\<forall>p \<in> set exts. xdp_get_current_position H p d = Ok (Some (of_nat (q p)))"
    and "\<forall>p \<in> set exts. xdp_get_proceed_on H p d = Ok (po p)"
    and "mset (map q exts) = mset [0..<length exts]" and "length exts \<le> 10"
  shows "\<exists>acts. fill_actions (xdp_get_current_position H) (xdp_position_mask H) exts (replicate 10 0) d = Ok acts
    \<and> (\<forall>slot. (\<forall>i c. unat (fst (slot i c)) < 32) \<longrightarrow>
         xdp_dispatcher_prog (xdp_config_of acts exts) slot =
         run_chain XDP_PASS (map (\<lambda>p. (slot (q p), set (xdp_as_action_vec (po p)))) (sort_key q exts)))"
proof -
  obtain acts where acts: "fill_actions (xdp_get_current_position H) (xdp_position_mask H) exts (replicate 10 0) d = Ok acts"
      "\<forall>p \<in> set exts. acts ! q p = xdp_mask (po p)"
    using fill_actions_perm [of exts "xdp_get_current_position H" d q "xdp_position_mask H" "\<lambda>p. xdp_mask (po p)"]
      assms by (auto simp: xdp_position_mask_def)
  have chain: "xdp_dispatcher_prog (xdp_config_of acts exts) slot c =
      run_chain XDP_PASS (map (\<lambda>p. (slot (q p), set (xdp_as_action_vec (po p)))) (sort_key q exts)) c"
    if "\<forall>i c. unat (fst (slot i c)) < 32" for slot :: "nat \<Rightarrow> 'c slot" and c
  proof -
    have "(shl1 (fst (slot (q p) c)) AND acts ! q p \<noteq> 0) =
        (fst (slot (q p) c) \<in> set (xdp_as_action_vec (po p)))" if "p \<in> set exts" for p c
      using acts(2) that xdp_flag_mask [of "fst (slot (q p) c)" "po p"] \<open>\<forall>i c. unat (fst (slot i c)) < 32\<close> by simp
    from dispatch_sorted [OF assms(3, 4), OF this] show ?thesis
      unfolding xdp_dispatcher_prog_config .
  qed
  show ?thesis by (rule exI [of _ acts]) (intro conjI allI impI ext, rule acts(1), erule chain)
qed

text \<open>
  C5: the configuration that the XDP dispatcher is loaded with makes it the chain of its
  programs. For at most ten programs at the positions 0 to n - 1, whatever their order in
  memory, computing the actions succeeds, and on every packet the dispatcher runs the
  programs in the order of their positions, goes on exactly when the verdict is one of the
  program's proceed-on actions, returns the first other verdict, and returns XDP_PASS when all
  proceed (verdicts are below 32, the width of the mask).
\<close>

theorem xdp_dispatcher_is_chain:
  assumes "\<forall>p \<in> set exts. xdp_get_current_position H p d = Ok (Some (of_nat (q p)))"
    and "\<forall>p \<in> set exts. xdp_get_proceed_on H p d = Ok (po p)"
    and "mset (map q exts) = mset [0..<length exts]" and "length exts \<le> 10"
  shows "\<exists>acts. fill_actions (xdp_get_current_position H) (xdp_position_mask H) exts (replicate 10 0) d = Ok acts
    \<and> (\<forall>slot. (\<forall>i c. unat (fst (slot i c)) < 32) \<longrightarrow>
         xdp_dispatcher_prog (xdp_config_of acts exts) slot =
         run_chain XDP_PASS (map (\<lambda>p. (slot (q p), set (xdp_as_action_vec (po p)))) (sort_key q exts)))"
  using assms by (rule xdp_chain_exists)

lemma tc_chain_exists:
  assumes "\<forall>p \<in> set exts. tc_get_current_position H p d = Ok (Some (of_nat (q p)))"
    and "\<forall>p \<in> set exts. tc_get_proceed_on H p d = Ok (po p)"
    and "mset (map q exts) = mset [0..<length exts]" and "length exts \<le> 10"
  shows "\<exists>acts. fill_actions (tc_get_current_position H) (tc_position_mask H) exts (replicate 10 0) d = Ok acts
    \<and> (\<forall>slot. (\<forall>i c. unat (fst (slot i c) + 1) < 32) \<longrightarrow>
         tc_dispatcher_prog (tc_config_of acts exts) slot =
         run_chain TC_ACT_OK (map (\<lambda>p. (slot (q p), set (tc_as_action_vec (po p)))) (sort_key q exts)))"
proof -
  obtain acts where acts: "fill_actions (tc_get_current_position H) (tc_position_mask H) exts (replicate 10 0) d = Ok acts"
      "\<forall>p \<in> set exts. acts ! q p = tc_mask (po p)"
    using fill_actions_perm [of exts "tc_get_current_position H" d q "tc_position_mask H" "\<lambda>p. tc_mask (po p)"]
      assms by (auto simp: tc_position_mask_def)
  have chain: "tc_dispatcher_prog (tc_config_of acts exts) slot c =
      run_chain TC_ACT_OK (map (\<lambda>p. (slot (q p), set (tc_as_action_vec (po p)))) (sort_key q exts)) c"
    if "\<forall>i c. unat (fst (slot i c) + 1) < 32" for slot :: "nat \<Rightarrow> 'c slot" and c
  proof -
    have "(shl1 (fst (slot (q p) c) + 1) AND acts ! q p \<noteq> 0) =
        (fst (slot (q p) c) \<in> set (tc_as_action_vec (po p)))" if "p \<in> set exts" for p c
      using acts(2) that tc_flag_mask [of "fst (slot (q p) c)" "po p"] \<open>\<forall>i c. unat (fst (slot i c) + 1) < 32\<close> by simp
    from dispatch_sorted [OF assms(3, 4), OF this] show ?thesis
      unfolding tc_dispatcher_prog_config .
  qed
  show ?thesis by (rule exI [of _ acts]) (intro conjI allI impI ext, rule acts(1), erule chain)
qed

text \<open>
  C6: the configuration of the TC dispatcher makes it the chain of its programs, in the same
  sense. Verdicts lie between TC_ACT_UNSPEC (-1) and 30, and a packet that all programs
  let pass gets TC_ACT_OK.
\<close>

theorem tc_dispatcher_is_chain:
  assumes "\<forall>p \<in> set exts. tc_get_current_position H p d = Ok (Some (of_nat (q p)))"
    and "\<forall>p \<in> set exts. tc_get_proceed_on H p d = Ok (po p)"
    and "mset (map q exts) = mset [0..<length exts]" and "length exts \<le> 10"
  shows "\<exists>acts. fill_actions (tc_get_current_position H) (tc_position_mask H) exts (replicate 10 0) d = Ok acts
    \<and> (\<forall>slot. (\<forall>i c. unat (fst (slot i c) + 1) < 32) \<longrightarrow>
         tc_dispatcher_prog (tc_config_of acts exts) slot =
         run_chain TC_ACT_OK (map (\<lambda>p. (slot (q p), set (tc_as_action_vec (po p)))) (sort_key q exts)))"
  using assms by (rule tc_chain_exists)


text \<open>Two programs in a database, the second one at position 0.\<close>

definition demo_chain_db :: ref_db where
  "demo_chain_db = [
     (''a'', [(XDP_CURRENT_POSITION, ne8 ref_host 1), (PREFIX_XDP_PROCEED_ON @ ''0'', ne4 ref_host 2)]),
     (''b'', [(XDP_CURRENT_POSITION, ne8 ref_host 0), (PREFIX_XDP_PROCEED_ON @ ''0'', ne4 ref_host 31)]),
     (''s'', [(TC_CURRENT_POSITION, ne8 ref_host 1), (PREFIX_TC_PROCEED_ON @ ''0'', ne4 ref_host 0)]),
     (''t'', [(TC_CURRENT_POSITION, ne8 ref_host 0), (PREFIX_TC_PROCEED_ON @ ''0'', ne4 ref_host 3)])]"

abbreviation demo_xdp :: "string \<Rightarrow> xdp_program" where "demo_xdp t \<equiv> \<lparr>xdp_data = \<lparr>db_tree = t\<rparr>\<rparr>"
abbreviation demo_tc :: "string \<Rightarrow> tc_program" where "demo_tc t \<equiv> \<lparr>tc_data = \<lparr>db_tree = t\<rparr>\<rparr>"

theorem xdp_dispatcher_is_chain_witness:
  "\<exists>acts. fill_actions (xdp_get_current_position ref_host) (xdp_position_mask ref_host)
      [demo_xdp ''a'', demo_xdp ''b''] (replicate 10 0) demo_chain_db = Ok acts
    \<and> xdp_dispatcher_prog (xdp_config_of acts [demo_xdp ''a'', demo_xdp ''b''])
        (\<lambda>i c. (if i = 0 then 31 else 1, i # c)) [] = (1, [1, 0])"
proof -
  let ?ps = "[demo_xdp ''a'', demo_xdp ''b'']"
  let ?q = "\<lambda>p. if p = demo_xdp ''a'' then 1 else (0::nat)"
  let ?po = "\<lambda>p. if p = demo_xdp ''a'' then [Xdp_Pass] else [Xdp_DispatcherReturn]"
  have "\<forall>p \<in> set ?ps. xdp_get_current_position ref_host p demo_chain_db = Ok (Some (of_nat (?q p)))"
    by code_simp
  moreover have "\<forall>p \<in> set ?ps. xdp_get_proceed_on ref_host p demo_chain_db = Ok (?po p)"
    by code_simp
  ultimately obtain acts where "fill_actions (xdp_get_current_position ref_host) (xdp_position_mask ref_host)
      ?ps (replicate 10 0) demo_chain_db = Ok acts"
    and "\<And>slot :: nat \<Rightarrow> nat list slot. \<forall>i c. unat (fst (slot i c)) < 32 \<Longrightarrow>
      xdp_dispatcher_prog (xdp_config_of acts ?ps) slot =
      run_chain XDP_PASS (map (\<lambda>p. (slot (?q p), set (xdp_as_action_vec (?po p)))) (sort_key ?q ?ps))"
    using xdp_dispatcher_is_chain [of ?ps ref_host demo_chain_db ?q ?po] by (auto simp del: fill_actions.simps)
  then show ?thesis
    by (intro exI [of _ acts]) (simp add: xdp_as_action_vec_def del: fill_actions.simps)
qed

theorem tc_dispatcher_is_chain_witness:
  "\<exists>acts. fill_actions (tc_get_current_position ref_host) (tc_position_mask ref_host)
      [demo_tc ''s'', demo_tc ''t''] (replicate 10 0) demo_chain_db = Ok acts
    \<and> tc_dispatcher_prog (tc_config_of acts [demo_tc ''s'', demo_tc ''t''])
        (\<lambda>i c. (if i = 0 then 3 else 2, i # c)) [] = (2, [1, 0])"
proof -
  let ?ps = "[demo_tc ''s'', demo_tc ''t'']"
  let ?q = "\<lambda>p. if p = demo_tc ''s'' then 1 else (0::nat)"
  let ?po = "\<lambda>p. if p = demo_tc ''s'' then [Tc_Ok] else [Tc_Pipe]"
  have "\<forall>p \<in> set ?ps. tc_get_current_position ref_host p demo_chain_db = Ok (Some (of_nat (?q p)))"
    by code_simp
  moreover have "\<forall>p \<in> set ?ps. tc_get_proceed_on ref_host p demo_chain_db = Ok (?po p)"
    by code_simp
  ultimately obtain acts where "fill_actions (tc_get_current_position ref_host) (tc_position_mask ref_host)
      ?ps (replicate 10 0) demo_chain_db = Ok acts"
    and "\<And>slot :: nat \<Rightarrow> nat list slot. \<forall>i c. unat (fst (slot i c) + 1) < 32 \<Longrightarrow>
      tc_dispatcher_prog (tc_config_of acts ?ps) slot =
      run_chain TC_ACT_OK (map (\<lambda>p. (slot (?q p), set (tc_as_action_vec (?po p)))) (sort_key ?q ?ps))"
    using tc_dispatcher_is_chain [of ?ps ref_host demo_chain_db ?q ?po] by (auto simp del: fill_actions.simps)
  then show ?thesis
    by (intro exI [of _ acts]) (simp add: tc_as_action_vec_def del: fill_actions.simps)
qed

end
