(* ===== verification/Priority_Chain.thy ===== *)
theory Priority_Chain
  imports Program_Order Dispatcher_Chain
begin

text \<open>
  From priorities to packets: the positions that \<open>lib.rs\<close> writes, the configuration that
  \<open>multiprog\<close> computes from them and the BPF dispatcher together run the programs of an
  interface in the order of their priorities.
\<close>

lemma index_of_distinct: "distinct xs \<Longrightarrow> \<exists>q. map q xs = [0..<length xs]"
proof (rule exI [of _ "the_inv_into {..<length xs} (nth xs)"], rule nth_equalityI)
  fix i assume "distinct xs" and "i < length (map (the_inv_into {..<length xs} (nth xs)) xs)"
  then show "map (the_inv_into {..<length xs} (nth xs)) xs ! i = [0..<length xs] ! i"
    using the_inv_into_f_f [of "nth xs" "{..<length xs}" i] by (simp add: inj_on_nth)
qed simp

lemma sort_by_position_ok:
  assumes "\<And>p. p \<in> set ps \<Longrightarrow> pos p d = Ok (Some (of_nat (q p)))"
    and "mset ps = mset qs" and "map q qs = [0..<length qs]" and "length qs < 2 ^ 64"
  shows "sort_by_position pos ps d = Ok qs"
proof -
  let ?k = "\<lambda>p. Some (of_nat (q p) :: usize)"
  have len: "length ps = length qs" using assms(2) by (metis size_mset)
  have q: "q (qs ! i) = i" if "i < length qs" for i
    using that assms(3) by (metis add_0 nth_map nth_upt)
  have word: "(of_nat i :: usize) \<le> of_nat j \<longleftrightarrow> i \<le> j" if "i < length qs" "j < length qs" for i j
    using that assms(4) by (simp add: word_le_nat_alt unat_of_nat take_bit_eq_mod)
  have sorted: "sorted (map ?k qs)"
    unfolding sorted_iff_nth_mono using q word by (auto simp: less_eq_option_Some)
  have "inj_on ?k (set ps)"
  proof (rule inj_onI)
    fix a b assume ab: "a \<in> set ps" "b \<in> set ps" "?k a = ?k b"
    have "set ps = set qs" using assms(2) by (metis set_mset_mset)
    with ab obtain i j where "i < length qs" "a = qs ! i" "j < length qs" "b = qs ! j"
      by (metis in_set_conv_nth)
    with ab(3) q word [of i j] word [of j i] show "a = b" by simp
  qed
  with assms(2) sorted have sort: "sort_key ?k ps = qs" by (intro sort_key_inj_key_eq) auto
  show ?thesis
  proof (cases "length ps \<le> 1")
    case True
    then have "sort_key ?k ps = ps" by (rule sort_key_short)
    with True sort show ?thesis by (simp add: sort_by_position_def)
  next
    case False
    have "collect_res (map (\<lambda>p. expect_res ''unwrap'' (pos p d)) ps) = (Ok (map ?k ps) :: (bpfman_error, usize option list) res)"
      using assms(1) by (intro collect_res_all_Ok) simp
    then show ?thesis using False sort by (simp add: sort_by_position_def sort_by_keys)
  qed
qed

lemma sort_key_already: "map q ps = [0..<length ps] \<Longrightarrow> sort_key q ps = (ps :: 'p list)"
  by (rule sort_key_id_if_sorted) simp

text \<open>
  What \<open>set_program_positions\<close> leaves behind: the programs of an interface are listed again, in some
  order, and their trees are numbered from 0 in the order of the keys.
\<close>

context net_programs
begin

lemma positions_listed:
  assumes "scannable H kind view (\<alpha> d)"
  shows "\<exists>d1 d2 us ts V. (set_program_positions H kind ix dir :: ('d, bpfman_error, unit) st) d = (Ok (), d1)
    \<and> (filter_programs H kind (Some ix) dir :: ('d, bpfman_error, program list) st) d1 =
        (Ok (map (\<lambda>t. mk \<lparr>db_tree = t\<rparr>) us), d2)
    \<and> mset us = mset ts \<and> distinct ts \<and> set ts = {t. chosen H kind view (\<alpha> d) (Some ix) dir t}
    \<and> (\<forall>t \<in> set ts. view (the (\<alpha> d t)) (V t)) \<and> sorted (map (\<lambda>t. view_key (V t)) ts)
    \<and> (\<forall>i < length ts. \<exists>m. \<alpha> d (ts ! i) = Some m \<and> \<alpha> d2 (ts ! i) = Some (m(pos_key \<mapsto> ne8 H (of_nat i))))"
proof -
  let ?c = "chosen H kind view (\<alpha> d) (Some ix) dir"
  from set_positions_ok [OF assms, of ix dir]
  obtain d1 ts V where run: "(set_program_positions H kind ix dir :: ('d, bpfman_error, unit) st) d = (Ok (), d1)"
    and ts: "distinct ts" "set ts = {t. ?c t}" "\<forall>t \<in> set ts. view (the (\<alpha> d t)) (V t)" "sorted (map (\<lambda>t. view_key (V t)) ts)"
    and pos: "\<forall>i < length ts. \<alpha> d1 (ts ! i) = map_option (\<lambda>m. m(pos_key \<mapsto> ne8 H (of_nat i))) (\<alpha> d (ts ! i))"
    and other: "\<forall>t. t \<notin> set ts \<longrightarrow> \<alpha> d1 t = \<alpha> d t"
    by blast
  note same = positioned_same [OF pos other]
  let ?us = "filter ?c (db_tree_names H d1)"
  obtain d2 where d2: "(filter_programs H kind (Some ix) dir :: ('d, bpfman_error, program list) st) d1 =
      (Ok (map (\<lambda>t. mk \<lparr>db_tree = t\<rparr>) ?us), d2)" "\<alpha> d2 = \<alpha> d1"
    using filter_programs_ok [of d1 "Some ix" dir] same assms by auto
  have tree: "\<forall>i < length ts. \<exists>m. \<alpha> d (ts ! i) = Some m \<and> \<alpha> d2 (ts ! i) = Some (m(pos_key \<mapsto> ne8 H (of_nat i)))"
  proof (intro allI impI)
    fix i assume i: "i < length ts"
    then have "?c (ts ! i)" using nth_mem [OF i] ts(2) by simp
    then show "\<exists>m. \<alpha> d (ts ! i) = Some m \<and> \<alpha> d2 (ts ! i) = Some (m(pos_key \<mapsto> ne8 H (of_nat i)))"
      using pos i d2(2) by (auto simp: chosen_def)
  qed
  then have "\<alpha> d1 t \<noteq> None" if "t \<in> set ts" for t
    using that d2(2) by (metis in_set_conv_nth option.distinct(1))
  then have "set ?us = set ts" using ts(2) names_set [of d1] by auto
  then have "mset ?us = mset ts" using ts(1) names_distinct [of d1] set_eq_iff_mset_eq_distinct [of ?us ts] by simp
  with run d2(1) ts tree show ?thesis by blast
qed

end

text \<open>
  Trees numbered from 0: whatever the order the programs are listed in, sorting by position gives
  them in the order of the trees, and a chain by position is the chain of the trees. The laws of the
  two dispatchers come in as the last assumption.
\<close>

lemma positioned_chain:
  fixes mk :: "string \<Rightarrow> 'p" and slot_ok :: "(nat \<Rightarrow> 'c) \<Rightarrow> bool"
  assumes "distinct ts" and "inj mk" and "\<forall>i < length ts. pos (mk (ts ! i)) d = Ok (Some (of_nat i))"
    and "mset exts = mset (map mk ts)" and "length ts \<le> 10"
    and chain: "\<And>q. \<forall>p \<in> set (map mk ts). pos p d = Ok (Some (of_nat (q p))) \<Longrightarrow>
      mset (map q (map mk ts)) = mset [0..<length (map mk ts)] \<Longrightarrow> \<exists>acts. F acts \<and> (\<forall>slot. slot_ok slot \<longrightarrow>
        prog acts slot = run (map (\<lambda>p. (slot (q p), A p)) (sort_key q (map mk ts))))"
  shows "sort_by_position pos exts d = Ok (map mk ts)"
    and "\<exists>acts. F acts \<and> (\<forall>slot. slot_ok slot \<longrightarrow> prog acts slot = run (map (\<lambda>(i, t). (slot i, A (mk t))) (enumerate 0 ts)))"
proof -
  let ?ps = "map mk ts"
  have "distinct ?ps" using assms(1, 2) by (simp add: distinct_map inj_on_def inj_def)
  then obtain q where q: "map q ?ps = [0..<length ?ps]" using index_of_distinct by blast
  have q_nth: "q (mk (ts ! i)) = i" if "i < length ts" for i
    using arg_cong [OF q, of "\<lambda>l. l ! i"] that by simp
  have posd: "pos p d = Ok (Some (of_nat (q p)))" if "p \<in> set ?ps" for p
    using that assms(3) q_nth by (auto simp: in_set_conv_nth)
  show "sort_by_position pos exts d = Ok ?ps"
  proof (rule sort_by_position_ok [OF _ assms(4) q])
    show "pos p d = Ok (Some (of_nat (q p)))" if "p \<in> set exts" for p
      using that mset_eq_setD [OF assms(4)] by (intro posd) simp
    show "length ?ps < 2 ^ 64" using assms(5) by simp
  qed
  have "map (\<lambda>p. (slot (q p), A p)) (sort_key q ?ps) = map (\<lambda>(i, t). (slot i, A (mk t))) (enumerate 0 ts)" for slot :: "nat \<Rightarrow> 'c"
    unfolding sort_key_already [OF q] by (rule nth_equalityI) (simp_all add: nth_enumerate_eq q_nth)
  then show "\<exists>acts. F acts \<and> (\<forall>slot. slot_ok slot \<longrightarrow> prog acts slot = run (map (\<lambda>(i, t). (slot i, A (mk t))) (enumerate 0 ts)))"
    using chain [OF ballI [OF posd] arg_cong [OF q, of mset]] by simp
qed

text \<open>
  The programs of a kind behind a dispatcher: \<open>of_data\<close> is their record, \<open>con\<close> the constructor of
  \<open>Program\<close>, and the laws are that positions and proceed-on actions are read from the numbered trees
  and that the dispatcher configured from them is the chain by position.
\<close>

locale dispatched_programs = net_programs H \<alpha> mk kind pos_key view
  for H :: "'d host" and \<alpha> :: "'d \<Rightarrow> trees" and mk :: "program_data \<Rightarrow> program" and kind and pos_key and view +
  fixes con :: "'p \<Rightarrow> program" and of_data :: "program_data \<Rightarrow> 'p"
    and get_pos :: "'p \<Rightarrow> 'd \<Rightarrow> (bpfman_error, usize option) res" and get_po :: "'p \<Rightarrow> 'd \<Rightarrow> (bpfman_error, 'a) res"
    and act_mask :: "'p \<Rightarrow> 'd \<Rightarrow> (bpfman_error, u32) res" and slot_ok :: "(nat \<Rightarrow> 'c) \<Rightarrow> bool"
    and prog :: "u32 list \<Rightarrow> nat \<Rightarrow> (nat \<Rightarrow> 'c) \<Rightarrow> 'r" and run :: "('c \<times> 'v) list \<Rightarrow> 'r" and actions :: "'a \<Rightarrow> 'v"
  assumes mk_con: "mk pd = con (of_data pd)" and inj_data: "inj of_data"
    and numbered_reads: "\<alpha> d t = Some m \<Longrightarrow> \<alpha> d2 t = Some (m(pos_key \<mapsto> ne8 H (of_nat i))) \<Longrightarrow>
      get_pos (of_data \<lparr>db_tree = t\<rparr>) d2 = Ok (Some (of_nat i))
      \<and> get_po (of_data \<lparr>db_tree = t\<rparr>) d2 = get_po (of_data \<lparr>db_tree = t\<rparr>) d"
    and chain_exists: "\<forall>p \<in> set exts. get_pos p d = Ok (Some (of_nat (q p))) \<Longrightarrow> \<forall>p \<in> set exts. get_po p d = Ok (po p) \<Longrightarrow>
      mset (map q exts) = mset [0..<length exts] \<Longrightarrow> length exts \<le> 10 \<Longrightarrow>
      \<exists>acts. fill_actions get_pos act_mask exts (replicate 10 0) d = Ok acts
        \<and> (\<forall>slot. slot_ok slot \<longrightarrow> prog acts (length exts) slot = run (map (\<lambda>p. (slot (q p), actions (po p))) (sort_key q exts)))"
begin

lemma run_by_priority:
  assumes "scannable H kind view (\<alpha> d)" and "card {t. chosen H kind view (\<alpha> d) (Some ix) dir t} \<le> 10"
    and "\<forall>t. chosen H kind view (\<alpha> d) (Some ix) dir t \<longrightarrow> get_po (of_data \<lparr>db_tree = t\<rparr>) d = Ok (po t)"
  shows "\<exists>d1 d2 exts acts ts V.
      (set_program_positions H kind ix dir :: ('d, bpfman_error, unit) st) d = (Ok (), d1)
    \<and> (filter_programs H kind (Some ix) dir :: ('d, bpfman_error, program list) st) d1 = (Ok (map con exts), d2)
    \<and> set ts = {t. chosen H kind view (\<alpha> d) (Some ix) dir t}
    \<and> (\<forall>t \<in> set ts. view (the (\<alpha> d t)) (V t)) \<and> sorted (map (\<lambda>t. view_key (V t)) ts)
    \<and> sort_by_position get_pos exts d2 = Ok (map (\<lambda>t. of_data \<lparr>db_tree = t\<rparr>) ts)
    \<and> fill_actions get_pos act_mask (map (\<lambda>t. of_data \<lparr>db_tree = t\<rparr>) ts) (replicate 10 0) d2 = Ok acts
    \<and> (\<forall>slot. slot_ok slot \<longrightarrow> prog acts (length ts) slot = run (map (\<lambda>(i, t). (slot i, actions (po t))) (enumerate 0 ts)))"
proof -
  let ?c = "chosen H kind view (\<alpha> d) (Some ix) dir" and ?mk = "\<lambda>t. of_data \<lparr>db_tree = t\<rparr>"
  from positions_listed [OF assms(1), of ix dir]
  obtain d1 d2 us ts V where pos: "(set_program_positions H kind ix dir :: ('d, bpfman_error, unit) st) d = (Ok (), d1)"
    and list: "(filter_programs H kind (Some ix) dir :: ('d, bpfman_error, program list) st) d1 =
        (Ok (map con (map ?mk us)), d2)"
    and ts: "mset us = mset ts" "distinct ts" "set ts = {t. ?c t}"
      "\<forall>t \<in> set ts. view (the (\<alpha> d t)) (V t)" "sorted (map (\<lambda>t. view_key (V t)) ts)"
    and tree: "\<forall>i < length ts. \<exists>m. \<alpha> d (ts ! i) = Some m \<and> \<alpha> d2 (ts ! i) = Some (m(pos_key \<mapsto> ne8 H (of_nat i)))"
    unfolding mk_con map_map comp_def by blast
  have len: "length ts \<le> 10" using assms(2) ts(2, 3) by (metis distinct_card)
  have reads: "\<forall>i < length ts. get_pos (?mk (ts ! i)) d2 = Ok (Some (of_nat i))"
    using tree numbered_reads by blast
  let ?key = "\<lambda>p. db_tree (inv of_data p)"
  have key: "?key (?mk t) = t" for t by (simp add: inv_f_f [OF inj_data])
  have po: "\<forall>p \<in> set (map ?mk ts). get_po p d2 = Ok (po (?key p))"
  proof
    fix p assume "p \<in> set (map ?mk ts)"
    then obtain i where i: "i < length ts" "p = ?mk (ts ! i)" by (auto simp: in_set_conv_nth)
    with tree numbered_reads have "get_po p d2 = get_po p d" by blast
    then show "get_po p d2 = Ok (po (?key p))" using assms(3) ts(3) i key nth_mem by auto
  qed
  note chain = positioned_chain [of ts ?mk get_pos d2 "map ?mk us"
      "\<lambda>acts. fill_actions get_pos act_mask (map ?mk ts) (replicate 10 0) d2 = Ok acts"
      slot_ok "\<lambda>acts. prog acts (length (map ?mk ts))" run "\<lambda>p. actions (po (?key p))", OF ts(2) _ reads _ len chain_exists [OF _ po]]
  have "inj ?mk" by (rule injI) (metis key)
  moreover have "mset (map ?mk us) = mset (map ?mk ts)" using ts(1) by simp
  ultimately have sort: "sort_by_position get_pos (map ?mk us) d2 = Ok (map ?mk ts)"
    and acts: "\<exists>acts. fill_actions get_pos act_mask (map ?mk ts) (replicate 10 0) d2 = Ok acts \<and> (\<forall>slot. slot_ok slot \<longrightarrow>
      prog acts (length ts) slot = run (map (\<lambda>(i, t). (slot i, actions (po t))) (enumerate 0 ts)))"
    using chain len by (simp_all add: key)
  from acts obtain acts where fill: "fill_actions get_pos act_mask (map ?mk ts) (replicate 10 0) d2 = Ok acts"
    and prog: "\<forall>slot. slot_ok slot \<longrightarrow> prog acts (length ts) slot = run (map (\<lambda>(i, t). (slot i, actions (po t))) (enumerate 0 ts))"
    by (elim exE conjE)
  show ?thesis
    by (intro exI conjI, rule pos, rule list, rule ts(3), rule ts(4), rule ts(5), rule sort, rule fill, rule prog)
qed

end

context store
begin

lemmas xdp_net_contract = xdp_net.net_programs_axioms
lemmas tc_net_contract = tc_net.net_programs_axioms

end

text \<open>XDP and TC programs with their dispatchers satisfy the contract.\<close>

lemma config_of_upt: "xdp_config_of acts [0..<length ps] = xdp_config_of acts ps" "tc_config_of acts [0..<length ps] = tc_config_of acts ps"
  by (simp_all add: xdp_config_of_def tc_config_of_def)

lemma xdp_dispatched:
  assumes "store H \<alpha>"
  shows "dispatched_programs H \<alpha> (\<lambda>pd. Program_Xdp \<lparr>xdp_data = pd\<rparr>) ProgramType_Xdp XDP_CURRENT_POSITION (xdp_view H)
    Program_Xdp (\<lambda>pd. \<lparr>xdp_data = pd\<rparr>) (xdp_get_current_position H) (xdp_get_proceed_on H) (xdp_position_mask H)
    (\<lambda>slot :: nat \<Rightarrow> 'c slot. \<forall>i c. unat (fst (slot i c)) < 32)
    (\<lambda>acts n. xdp_dispatcher_prog (xdp_config_of acts [0..<n])) (run_chain XDP_PASS) (\<lambda>po. set (xdp_as_action_vec po))"
proof (rule dispatched_programs.intro [OF store.xdp_net_contract [OF assms]], unfold_locales)
  fix d t m d2 i
  assume "\<alpha> d t = Some m" "\<alpha> d2 t = Some (m(XDP_CURRENT_POSITION \<mapsto> ne8 H (of_nat i)))"
  then show "xdp_get_current_position H \<lparr>xdp_data = \<lparr>db_tree = t\<rparr>\<rparr> d2 = Ok (Some (of_nat i))
      \<and> xdp_get_proceed_on H \<lparr>xdp_data = \<lparr>db_tree = t\<rparr>\<rparr> d2 = xdp_get_proceed_on H \<lparr>xdp_data = \<lparr>db_tree = t\<rparr>\<rparr> d"
    by (simp add: xdp_get_current_position_def xdp_get_proceed_on_def store.get_opt_ok [OF assms] store.scan_ok [OF assms])
next
  fix exts d q po
  assume "\<forall>p \<in> set exts. xdp_get_current_position H p d = Ok (Some (of_nat (q p)))"
    "\<forall>p \<in> set exts. xdp_get_proceed_on H p d = Ok (po p)" "mset (map q exts) = mset [0..<length exts]" "length exts \<le> 10"
  from xdp_chain_exists [OF this]
  show "\<exists>acts. fill_actions (xdp_get_current_position H) (xdp_position_mask H) exts (replicate 10 0) d = Ok acts
    \<and> (\<forall>slot :: nat \<Rightarrow> 'c slot. (\<forall>i c. unat (fst (slot i c)) < 32) \<longrightarrow> xdp_dispatcher_prog (xdp_config_of acts [0..<length exts]) slot =
         run_chain XDP_PASS (map (\<lambda>p. (slot (q p), set (xdp_as_action_vec (po p)))) (sort_key q exts)))"
    unfolding config_of_upt .
qed (simp_all add: inj_def)

lemma tc_dispatched:
  assumes "store H \<alpha>"
  shows "dispatched_programs H \<alpha> (\<lambda>pd. Program_Tc \<lparr>tc_data = pd\<rparr>) ProgramType_Tc TC_CURRENT_POSITION (tc_view H)
    Program_Tc (\<lambda>pd. \<lparr>tc_data = pd\<rparr>) (tc_get_current_position H) (tc_get_proceed_on H) (tc_position_mask H)
    (\<lambda>slot :: nat \<Rightarrow> 'c slot. \<forall>i c. unat (fst (slot i c) + 1) < 32)
    (\<lambda>acts n. tc_dispatcher_prog (tc_config_of acts [0..<n])) (run_chain TC_ACT_OK) (\<lambda>po. set (tc_as_action_vec po))"
proof (rule dispatched_programs.intro [OF store.tc_net_contract [OF assms]], unfold_locales)
  fix d t m d2 i
  assume "\<alpha> d t = Some m" "\<alpha> d2 t = Some (m(TC_CURRENT_POSITION \<mapsto> ne8 H (of_nat i)))"
  then show "tc_get_current_position H \<lparr>tc_data = \<lparr>db_tree = t\<rparr>\<rparr> d2 = Ok (Some (of_nat i))
      \<and> tc_get_proceed_on H \<lparr>tc_data = \<lparr>db_tree = t\<rparr>\<rparr> d2 = tc_get_proceed_on H \<lparr>tc_data = \<lparr>db_tree = t\<rparr>\<rparr> d"
    by (simp add: tc_get_current_position_def tc_get_proceed_on_def scan_values_def
        store.get_opt_ok [OF assms] store.scan_ok [OF assms])
next
  fix exts d q po
  assume "\<forall>p \<in> set exts. tc_get_current_position H p d = Ok (Some (of_nat (q p)))"
    "\<forall>p \<in> set exts. tc_get_proceed_on H p d = Ok (po p)" "mset (map q exts) = mset [0..<length exts]" "length exts \<le> 10"
  from tc_chain_exists [OF this]
  show "\<exists>acts. fill_actions (tc_get_current_position H) (tc_position_mask H) exts (replicate 10 0) d = Ok acts
    \<and> (\<forall>slot :: nat \<Rightarrow> 'c slot. (\<forall>i c. unat (fst (slot i c) + 1) < 32) \<longrightarrow> tc_dispatcher_prog (tc_config_of acts [0..<length exts]) slot =
         run_chain TC_ACT_OK (map (\<lambda>p. (slot (q p), set (tc_as_action_vec (po p)))) (sort_key q exts)))"
    unfolding config_of_upt .
qed (simp_all add: inj_def)

interpretation ref_xdp_chain: dispatched_programs ref_host ref_abs "\<lambda>pd. Program_Xdp \<lparr>xdp_data = pd\<rparr>" ProgramType_Xdp
  XDP_CURRENT_POSITION "xdp_view ref_host" Program_Xdp "\<lambda>pd. \<lparr>xdp_data = pd\<rparr>" "xdp_get_current_position ref_host"
  "xdp_get_proceed_on ref_host" "xdp_position_mask ref_host" "\<lambda>slot. \<forall>i c. unat (fst (slot i c)) < 32"
  "\<lambda>acts n. xdp_dispatcher_prog (xdp_config_of acts [0..<n])" "run_chain XDP_PASS" "\<lambda>po. set (xdp_as_action_vec po)"
  by (rule xdp_dispatched [OF ref_store])

interpretation ref_tc_chain: dispatched_programs ref_host ref_abs "\<lambda>pd. Program_Tc \<lparr>tc_data = pd\<rparr>" ProgramType_Tc
  TC_CURRENT_POSITION "tc_view ref_host" Program_Tc "\<lambda>pd. \<lparr>tc_data = pd\<rparr>" "tc_get_current_position ref_host"
  "tc_get_proceed_on ref_host" "tc_position_mask ref_host" "\<lambda>slot. \<forall>i c. unat (fst (slot i c) + 1) < 32"
  "\<lambda>acts n. tc_dispatcher_prog (tc_config_of acts [0..<n])" "run_chain TC_ACT_OK" "\<lambda>po. set (tc_as_action_vec po)"
  by (rule tc_dispatched [OF ref_store])

text \<open>
  C1: XDP programs run by priority. For at most ten programs on an interface, numbering them,
  listing them again, sorting them by position and computing the actions all succeed, and the
  dispatcher configured this way runs on every packet the programs in the order of their keys
  (priority, not attached before attached, name): slot \<open>i\<close> belongs to the i-th program, and
  the chain goes on exactly on that program's proceed-on actions.
\<close>

theorem xdp_programs_run_by_priority:
  assumes "store H \<alpha>" and "scannable H ProgramType_Xdp (xdp_view H) (\<alpha> d)"
    and "card {t. chosen H ProgramType_Xdp (xdp_view H) (\<alpha> d) (Some ix) None t} \<le> 10"
    and "\<forall>t. chosen H ProgramType_Xdp (xdp_view H) (\<alpha> d) (Some ix) None t \<longrightarrow>
      xdp_get_proceed_on H \<lparr>xdp_data = \<lparr>db_tree = t\<rparr>\<rparr> d = Ok (po t)"
  shows "\<exists>d1 d2 exts acts ts V.
      (set_program_positions H ProgramType_Xdp ix None :: ('d, bpfman_error, unit) st) d = (Ok (), d1)
    \<and> (filter_programs H ProgramType_Xdp (Some ix) None :: ('d, bpfman_error, program list) st) d1 = (Ok (map Program_Xdp exts), d2)
    \<and> set ts = {t. chosen H ProgramType_Xdp (xdp_view H) (\<alpha> d) (Some ix) None t}
    \<and> (\<forall>t \<in> set ts. xdp_view H (the (\<alpha> d t)) (V t)) \<and> sorted (map (\<lambda>t. view_key (V t)) ts)
    \<and> sort_by_position (xdp_get_current_position H) exts d2 = Ok (map (\<lambda>t. \<lparr>xdp_data = \<lparr>db_tree = t\<rparr>\<rparr>) ts)
    \<and> fill_actions (xdp_get_current_position H) (xdp_position_mask H)
        (map (\<lambda>t. \<lparr>xdp_data = \<lparr>db_tree = t\<rparr>\<rparr>) ts) (replicate 10 0) d2 = Ok acts
    \<and> (\<forall>slot :: nat \<Rightarrow> 'c slot. (\<forall>i c. unat (fst (slot i c)) < 32) \<longrightarrow>
         xdp_dispatcher_prog (xdp_config_of acts ts) slot =
         run_chain XDP_PASS (map (\<lambda>(i, t). (slot i, set (xdp_as_action_vec (po t)))) (enumerate 0 ts)))"
  using dispatched_programs.run_by_priority [OF xdp_dispatched [where 'c = 'c, OF assms(1)] assms(2-4), unfolded config_of_upt] .

text \<open>
  C2: TC programs of an interface and a direction run by priority, in the same sense: numbered, listed,
  sorted by position and configured, the TC dispatcher runs them in the order of their keys, each
  handing on exactly on its proceed-on actions.
\<close>

theorem tc_programs_run_by_priority:
  assumes "store H \<alpha>" and "scannable H ProgramType_Tc (tc_view H) (\<alpha> d)"
    and "card {t. chosen H ProgramType_Tc (tc_view H) (\<alpha> d) (Some ix) (Some dir) t} \<le> 10"
    and "\<forall>t. chosen H ProgramType_Tc (tc_view H) (\<alpha> d) (Some ix) (Some dir) t \<longrightarrow>
      tc_get_proceed_on H \<lparr>tc_data = \<lparr>db_tree = t\<rparr>\<rparr> d = Ok (po t)"
  shows "\<exists>d1 d2 exts acts ts V.
      (set_program_positions H ProgramType_Tc ix (Some dir) :: ('d, bpfman_error, unit) st) d = (Ok (), d1)
    \<and> (filter_programs H ProgramType_Tc (Some ix) (Some dir) :: ('d, bpfman_error, program list) st) d1 = (Ok (map Program_Tc exts), d2)
    \<and> set ts = {t. chosen H ProgramType_Tc (tc_view H) (\<alpha> d) (Some ix) (Some dir) t}
    \<and> (\<forall>t \<in> set ts. tc_view H (the (\<alpha> d t)) (V t)) \<and> sorted (map (\<lambda>t. view_key (V t)) ts)
    \<and> sort_by_position (tc_get_current_position H) exts d2 = Ok (map (\<lambda>t. \<lparr>tc_data = \<lparr>db_tree = t\<rparr>\<rparr>) ts)
    \<and> fill_actions (tc_get_current_position H) (tc_position_mask H)
        (map (\<lambda>t. \<lparr>tc_data = \<lparr>db_tree = t\<rparr>\<rparr>) ts) (replicate 10 0) d2 = Ok acts
    \<and> (\<forall>slot :: nat \<Rightarrow> 'c slot. (\<forall>i c. unat (fst (slot i c) + 1) < 32) \<longrightarrow>
         tc_dispatcher_prog (tc_config_of acts ts) slot =
         run_chain TC_ACT_OK (map (\<lambda>(i, t). (slot i, set (tc_as_action_vec (po t)))) (enumerate 0 ts)))"
  using dispatched_programs.run_by_priority [OF tc_dispatched [where 'c = 'c, OF assms(1)] assms(2-4), unfolded config_of_upt] .

lemma demo_proceed_on:
  "collect_res (map (\<lambda>n. case n of Inl (e :: string) \<Rightarrow> Panic ''unwrap'' | Inr (k :: string, v) \<Rightarrow> xdp_entry_of_bytes ref_host v)
    (map Inr (entries PREFIX_XDP_PROCEED_ON (map_of (demo_xdp_entries i n pr att))))) = Ok [Xdp_Pass]"
proof -
  have "ref_entries PREFIX_XDP_PROCEED_ON (demo_xdp_entries i n pr att) = [(PREFIX_XDP_PROCEED_ON @ ''0'', ne4 ref_host 2)]"
    by (simp add: ref_entries_def demo_xdp_entries_def)
  moreover have "xdp_entry_of_bytes ref_host (ne4 ref_host 2) = Ok Xdp_Pass" by code_simp
  ultimately show ?thesis by (simp flip: ref_entries_eq)
qed

lemma demo_order_proceed_on:
  "xdp_get_proceed_on ref_host (demo_xdp (prog_tree 3)) demo_order_db = Ok [Xdp_Pass]"
  "xdp_get_proceed_on ref_host (demo_xdp (pre_load_tree 7)) demo_order_db = Ok [Xdp_Pass]"
proof -
  have *: "xdp_get_proceed_on ref_host (demo_xdp t) demo_order_db = Ok [Xdp_Pass]"
    if "ref_abs demo_order_db t = Some (map_of (demo_xdp_entries i n pr att))" for t i n pr att
    using that demo_proceed_on by (simp add: xdp_get_proceed_on_def ref.scan_ok xdp_proceed_on_from_iter_def)
  show "xdp_get_proceed_on ref_host (demo_xdp (prog_tree 3)) demo_order_db = Ok [Xdp_Pass]"
    by (rule *) (simp add: demo_trees)
  show "xdp_get_proceed_on ref_host (demo_xdp (pre_load_tree 7)) demo_order_db = Ok [Xdp_Pass]"
    by (rule *) (simp add: demo_trees)
qed

theorem xdp_programs_run_by_priority_witness:
  "\<exists>d1 d2 exts acts ts V.
      (set_program_positions ref_host ProgramType_Xdp 4 None :: (ref_db, bpfman_error, unit) st) demo_order_db = (Ok (), d1)
    \<and> (filter_programs ref_host ProgramType_Xdp (Some 4) None :: (ref_db, bpfman_error, program list) st) d1
        = (Ok (map Program_Xdp exts), d2)
    \<and> set ts = {prog_tree 3, pre_load_tree 7} \<and> sorted (map (\<lambda>t. view_key (V t)) ts)
    \<and> sort_by_position (xdp_get_current_position ref_host) exts d2 = Ok (map demo_xdp ts)
    \<and> (\<forall>slot :: nat \<Rightarrow> nat slot. (\<forall>i c. unat (fst (slot i c)) < 32) \<longrightarrow>
         xdp_dispatcher_prog (xdp_config_of acts ts) slot =
         run_chain XDP_PASS (map (\<lambda>(i, t). (slot i, set (xdp_as_action_vec [Xdp_Pass]))) (enumerate 0 ts)))"
proof -
  let ?c = "chosen ref_host ProgramType_Xdp (xdp_view ref_host) (ref_abs demo_order_db) (Some 4) None"
  have str: "is_str ''a''" "is_str ''b''" by simp_all
  have eq: "{t. ?c t} = {prog_tree 3, pre_load_tree 7}"
    by (auto simp: chosen_def demo_trees demo_keys demo_xdp_view str program_type_u32_inject split: if_splits
        simp del: program_type_to_u32.simps)
  have card: "card {t. ?c t} \<le> 10" unfolding eq by (simp add: card_insert_if)
  have po: "\<forall>t. ?c t \<longrightarrow> xdp_get_proceed_on ref_host (demo_xdp t) demo_order_db = Ok [Xdp_Pass]"
  proof (intro allI impI)
    fix t assume "?c t"
    then have "t = prog_tree 3 \<or> t = pre_load_tree 7" using eq by blast
    then show "xdp_get_proceed_on ref_host (demo_xdp t) demo_order_db = Ok [Xdp_Pass]"
      using demo_order_proceed_on by metis
  qed
  show ?thesis
    using xdp_programs_run_by_priority [OF ref_store demo_scannable(1) card po, where 'c = nat]
    unfolding eq by (elim exE conjE) (intro exI conjI, assumption+)
qed

text \<open>The one TC program of the example has no proceed-on entries and so the default ones.\<close>

lemma demo_tc_proceed_on:
  "tc_get_proceed_on ref_host (demo_tc (prog_tree 5)) demo_order_db = Ok tc_proceed_on_default"
proof -
  have "entries PREFIX_TC_PROCEED_ON (map_of (demo_tc_entries 5 ''c'' 1)) = []"
    by (simp add: demo_tc_entries_def ref_entries_def flip: ref_entries_eq)
  then show ?thesis
    by (simp add: tc_get_proceed_on_def scan_values_def ref.scan_ok demo_trees tc_proceed_on_from_iter_def)
qed

lemma demo_tc_chosen:
  "{t. chosen ref_host ProgramType_Tc (tc_view ref_host) (ref_abs demo_order_db) (Some 4) (Some Direction_Ingress) t} = {prog_tree 5}"
proof -
  let ?v = "\<lparr>nv_prio = 1, nv_attached = False, nv_name = ''c'', nv_if_index = Some 4, nv_direction = Some Direction_Ingress\<rparr>"
  have "tc_view ref_host (map_of (demo_tc_entries 5 ''c'' 1)) ?v" by (rule demo_tc_view) simp
  then have "chosen ref_host ProgramType_Tc (tc_view ref_host) (ref_abs demo_order_db) (Some 4) (Some Direction_Ingress) (prog_tree 5)"
    unfolding chosen_def demo_trees by (auto simp: demo_keys intro!: exI [of _ ?v])
  moreover have "t = prog_tree 5"
    if "chosen ref_host ProgramType_Tc (tc_view ref_host) (ref_abs demo_order_db) (Some 4) (Some Direction_Ingress) t" for t
    using that by (auto simp: chosen_def demo_trees demo_keys program_type_u32_inject split: if_splits
        simp del: program_type_to_u32.simps)
  ultimately show ?thesis by blast
qed

theorem tc_programs_run_by_priority_witness:
  "\<exists>d1 d2 exts acts ts.
      (set_program_positions ref_host ProgramType_Tc 4 (Some Direction_Ingress) :: (ref_db, bpfman_error, unit) st) demo_order_db = (Ok (), d1)
    \<and> (filter_programs ref_host ProgramType_Tc (Some 4) (Some Direction_Ingress) :: (ref_db, bpfman_error, program list) st) d1
        = (Ok (map Program_Tc exts), d2)
    \<and> set ts = {prog_tree 5}
    \<and> sort_by_position (tc_get_current_position ref_host) exts d2 = Ok (map demo_tc ts)
    \<and> (\<forall>slot :: nat \<Rightarrow> nat slot. (\<forall>i c. unat (fst (slot i c) + 1) < 32) \<longrightarrow>
         tc_dispatcher_prog (tc_config_of acts ts) slot =
         run_chain TC_ACT_OK (map (\<lambda>(i, t). (slot i, set (tc_as_action_vec tc_proceed_on_default))) (enumerate 0 ts)))"
proof -
  let ?c = "chosen ref_host ProgramType_Tc (tc_view ref_host) (ref_abs demo_order_db) (Some 4) (Some Direction_Ingress)"
  have card: "card {t. ?c t} \<le> 10" unfolding demo_tc_chosen by simp
  have po: "\<forall>t. ?c t \<longrightarrow> tc_get_proceed_on ref_host (demo_tc t) demo_order_db = Ok tc_proceed_on_default"
  proof (intro allI impI)
    fix t assume "?c t"
    then have "t = prog_tree 5" using demo_tc_chosen by blast
    then show "tc_get_proceed_on ref_host (demo_tc t) demo_order_db = Ok tc_proceed_on_default"
      using demo_tc_proceed_on by simp
  qed
  show ?thesis
    using tc_programs_run_by_priority [OF ref_store demo_scannable(2) card po, where 'c = nat]
    unfolding demo_tc_chosen by (elim exE conjE) (intro exI conjI, assumption+)
qed

end
