(* ===== verification/Bpf_Manager.thy ===== *)
theory Bpf_Manager
  imports Program_Positions
begin

text \<open>
  The operations of \<open>bpfman/src/lib.rs\<close>: adding, removing, listing and getting programs and
  pulling bytecode, over the world of the database, the file system and the log of kernel
  calls. What was done before an error stays done, as in the code.
\<close>


subsection \<open>setup\<close>

definition setup_bpfman :: "('d, 'sig, 'layer) env \<Rightarrow> ('d kworld, bpfman_error, config) st" where
  "setup_bpfman E =
     then_st (map_err_st RpcSendError (on_fs (initialize_bpfman (e_start E) (e_fault E)))) (
     let cfg = open_config_file (e_toml E) (e_config_file E) in
     then_st (reads (\<lambda>_. expect_res ''Unable to open root database'' (fst (init_database cfg (e_db_open E)))))
       (ret cfg))"

definition the_image_manager :: "('d, 'sig, 'layer) env \<Rightarrow> ('e, image_manager) res" where
  "the_image_manager E = init_image_manager (open_config_file (e_toml E) (e_config_file E)) (e_sigstore E)"


subsection \<open>Programs attached through a dispatcher\<close>

definition if_config_of :: "config \<Rightarrow> string \<Rightarrow> interface_config option" where
  "if_config_of cfg if_name = (case interfaces cfg of Some m \<Rightarrow> map_of m if_name | None \<Rightarrow> None)"

definition revision_after :: "'d host \<Rightarrow> dispatcher option \<Rightarrow> 'd \<Rightarrow> ('e, u32) res" where
  "revision_after H old d = (case old of Some o' \<Rightarrow> next_revision H o' d | None \<Rightarrow> Ok 1)"

text \<open>\<open>or_else\<close> of a failed dispatcher: the program is deleted when its id is known.\<close>

definition delete_if_known ::
  "('d, 'sig, 'layer) env \<Rightarrow> program \<Rightarrow> ('d kworld, bpfman_error, 'a) st \<Rightarrow> ('d kworld, bpfman_error, 'a) st" where
  "delete_if_known E program m w = (case m w of
     (Err e, w') \<Rightarrow> (case get_id (e_db E) (program_get_data program) (wdb w') of
         Ok _ \<Rightarrow> then_st (map_err_st BpfmanProgramDeleteError (program_delete (e_os E) program)) (throw e) w'
       | Err _ \<Rightarrow> (Err e, w')
       | Panic p \<Rightarrow> (Panic p, w'))
   | (r, w') \<Rightarrow> (r, w'))"

definition add_multi_attach_program ::
  "('d, 'sig, 'layer) env \<Rightarrow> image_manager \<Rightarrow> config \<Rightarrow> program \<Rightarrow> ('d kworld, bpfman_error, u32) st" where
  "add_multi_attach_program E im cfg program =
     (let H = e_db E; data = program_get_data program in
     bind_st (from_db (get_name H data)) (\<lambda>name.
     bind_st (from_db (get_program_bytes H data)) (\<lambda>bs.
     bind_st (map_err_st BpfLoadError (k_load (e_aya E)
       (bpf_loader_new\<lparr>bl_allow_unsupported_maps := True, bl_extensions := [name]\<rparr>) bs)) (\<lambda>ext_loader.
     then_st (reads (\<lambda>_. ok_or (BpfFunctionNameNotValid name) (program_mut ext_loader name))) (
     bind_st (from_db (program_dispatcher_id H program)) (\<lambda>did.
     bind_st (reads (\<lambda>_. ok_or DispatcherNotRequired did)) (\<lambda>did.
     bind_st (on_db (num_attached_programs H did)) (\<lambda>next_available_id.
     if 10 \<le> next_available_id then throw TooManyPrograms else
     bind_st (from_db (program_kind H program)) (\<lambda>program_type.
     bind_st (from_db (program_if_index H program)) (\<lambda>if_index.
     bind_st (from_db (\<lambda>d. expect_res ''unwrap'' (program_if_name H program d))) (\<lambda>if_name.
     bind_st (from_db (program_direction H program)) (\<lambda>direction.
     then_st (on_db (add_and_set_program_positions H program)) (
     bind_st (on_db (filter_programs H program_type if_index direction)) (\<lambda>programs.
     bind_st (on_db (get_dispatcher H did)) (\<lambda>old_dispatcher.
     bind_st (from_db (revision_after H old_dispatcher)) (\<lambda>revision.
     then_st (delete_if_known E program
       (dispatcher_new E im (if_config_of cfg if_name) programs revision old_dispatcher)) (
     bind_st (from_db (get_id H data)) (\<lambda>i.
     then_st (on_db (program_set_attached H program)) (ret i)))))))))))))))))))"

text \<open>
  \<open>num_attached_programs(..) - 1\<close> overflows when the dispatcher is gone: a panic in a build
  with overflow checks, \<open>usize::MAX\<close> otherwise.
\<close>

definition sub_one :: "bool \<Rightarrow> usize \<Rightarrow> ('e, usize) res" where
  "sub_one checks n = (if n = 0 \<and> checks then Panic ''attempt to subtract with overflow'' else Ok (n - 1))"

definition remove_multi_attach_program ::
  "('d, 'sig, 'layer) env \<Rightarrow> config \<Rightarrow> dispatcher_id \<Rightarrow> program_type \<Rightarrow> u32 option \<Rightarrow> string \<Rightarrow>
   direction option \<Rightarrow> ('d kworld, bpfman_error, unit) st" where
  "remove_multi_attach_program E cfg did program_type if_index if_name direction =
     (let H = e_db E in
     bind_st (reads (\<lambda>_. the_image_manager E)) (\<lambda>im.
     bind_st (on_db (num_attached_programs H did)) (\<lambda>n.
     bind_st (reads (\<lambda>_. sub_one (e_overflow_checks E) n)) (\<lambda>next_available_id.
     bind_st (on_db (get_dispatcher H did)) (\<lambda>old_dispatcher.
     let rebuild =
       bind_st (reads (\<lambda>_. expect_opt ''unwrap'' if_index)) (\<lambda>ix.
       then_st (on_db (set_program_positions H program_type ix direction)) (
       bind_st (on_db (filter_programs H program_type if_index direction)) (\<lambda>programs.
       bind_st (from_db (revision_after H old_dispatcher)) (\<lambda>revision.
       then_st (dispatcher_new E im (if_config_of cfg if_name) programs revision old_dispatcher) (ret ())))))
     in (case old_dispatcher of
          Some old \<Rightarrow> if next_available_id = 0 then dispatcher_delete E old True else rebuild
        | None \<Rightarrow> rebuild))))))"


subsection \<open>Programs attached on their own\<close>

text \<open>The link of a program is taken, turned into a file descriptor and pinned.\<close>

definition pin_link ::
  "aya \<Rightarrow> prog_ref \<Rightarrow> string \<Rightarrow> nat \<Rightarrow> u32 \<Rightarrow> ('d kworld, bpfman_error, unit) st" where
  "pin_link A p msg link_id i =
     bind_st (map_err_st BpfProgramError (k_num A (K_Take_Link p link_id))) (\<lambda>owned_link.
     bind_st (expect_st msg (k_num A (K_Into_Fd_Link owned_link))) (\<lambda>fd_link.
     map_err_st UnableToPinLink (k_pin A (K_Pin_Link fd_link (prog_link_pin i)) (prog_link_pin i))))"

definition pin_program :: "aya \<Rightarrow> prog_ref \<Rightarrow> u32 \<Rightarrow> ('d kworld, bpfman_error, unit) st" where
  "pin_program A p i = map_err_st UnableToPinProgram (k_pin A (K_Pin_Prog p (prog_pin i)) (prog_pin i))"

definition record_kernel_info ::
  "('d, 'sig, 'layer) env \<Rightarrow> prog_ref \<Rightarrow> program_data \<Rightarrow> ('d kworld, bpfman_error, u32) st" where
  "record_kernel_info E p pd =
     bind_st (map_err_st BpfProgramError (k_info (e_aya E) p)) (\<lambda>info.
     then_st (on_db (set_kernel_info (e_db E) pd info))
       (from_db (get_id (e_db E) pd)))"

definition attach_tracepoint ::
  "('d, 'sig, 'layer) env \<Rightarrow> prog_ref \<Rightarrow> aya_kind \<Rightarrow> tracepoint_program \<Rightarrow> ('d kworld, bpfman_error, u32) st" where
  "attach_tracepoint E p k program =
     (let A = e_aya E in
     bind_st (from_db (tracepoint_get_tracepoint (e_db E) program)) (\<lambda>tracepoint.
     case split_on (CHR ''/'') tracepoint of
       [category, name] \<Rightarrow>
         then_st (reads (\<lambda>_. try_into (\<lambda>k. k = Is_TracePoint) k)) (
         then_st (map_err_st BpfProgramError (k_unit A (K_Prog_Load p Load_Plain))) (
         bind_st (record_kernel_info E p (tracepoint_data program)) (\<lambda>i.
         bind_st (map_err_st BpfProgramError (k_num A (K_Attach p (Attach_TracePoint category name)))) (\<lambda>link_id.
         then_st (pin_link A p ''unable to get owned tracepoint attach link'' link_id i) (
         then_st (pin_program A p i) (ret i))))))
     | _ \<Rightarrow> throw (InvalidAttach tracepoint)))"

fun probe_kind_of :: "aya_kind \<Rightarrow> probe_kind option" where
  "probe_kind_of (Is_KProbe k) = Some k"
| "probe_kind_of (Is_UProbe k) = Some k"
| "probe_kind_of _ = None"

definition check_probe_type :: "probe_type \<Rightarrow> aya_kind \<Rightarrow> (bpfman_error, unit) res" where
  "check_probe_type requested k = (case probe_kind_of k of
     None \<Rightarrow> Ok ()
   | Some pk \<Rightarrow> (let loaded = probe_type_from_kind pk in
       if requested \<noteq> loaded then Err (Error (''expected '' @ show_probe_type requested @
         '', loaded program is '' @ show_probe_type loaded)) else Ok ()))"

definition attach_kprobe ::
  "('d, 'sig, 'layer) env \<Rightarrow> prog_ref \<Rightarrow> aya_kind \<Rightarrow> kprobe_program \<Rightarrow> ('d kworld, bpfman_error, u32) st" where
  "attach_kprobe E p k program =
     (let A = e_aya E; H = e_db E in
     bind_st (from_db (kprobe_get_retprobe H program)) (\<lambda>retprobe.
     let requested = (if retprobe then ProbeType_Kretprobe else ProbeType_Kprobe) in
     bind_st (if requested = ProbeType_Kretprobe
       then bind_st (from_db (kprobe_get_offset H program)) (\<lambda>offset. ret (offset \<noteq> 0)) else ret False) (\<lambda>bad.
     if bad then throw (Error (''offset not allowed for '' @ show_probe_type ProbeType_Kretprobe)) else
     then_st (reads (\<lambda>_. try_into (\<lambda>k. case k of Is_KProbe _ \<Rightarrow> True | _ \<Rightarrow> False) k)) (
     then_st (map_err_st BpfProgramError (k_unit A (K_Prog_Load p Load_Plain))) (
     then_st (reads (\<lambda>_. check_probe_type requested k)) (
     bind_st (record_kernel_info E p (kprobe_data program)) (\<lambda>i.
     bind_st (from_db (kprobe_get_fn_name H program)) (\<lambda>fn_name.
     bind_st (from_db (kprobe_get_offset H program)) (\<lambda>offset.
     bind_st (map_err_st BpfProgramError (k_num A (K_Attach p (Attach_KProbe fn_name offset)))) (\<lambda>link_id.
     then_st (pin_link A p ''unable to get owned kprobe attach link'' link_id i) (
     then_st (pin_program A p i) (ret i))))))))))))"

text \<open>Attaching a uprobe in another container runs the helper \<open>bpfman-ns\<close>.\<close>

definition uprobe_ns_args ::
  "string \<Rightarrow> u64 \<Rightarrow> string \<Rightarrow> i32 \<Rightarrow> string option \<Rightarrow> bool \<Rightarrow> i32 option \<Rightarrow> string list" where
  "uprobe_ns_args pin offset target container_pid fn_name retprobe pid =
     [''uprobe'', ''--program-pin-path'', pin, ''--offset'', show_nat (unat offset), ''--target'', target,
      ''--container-pid'', show_int (sint container_pid)]
     @ (case fn_name of Some f \<Rightarrow> [''--fn-name'', f] | None \<Rightarrow> [])
     @ (if retprobe then [''--retprobe''] else [])
     @ (case pid of Some q \<Rightarrow> [''--pid'', show_int (sint q)] | None \<Rightarrow> [])"

definition bpfman_ns_path :: "fs \<Rightarrow> string" where
  "bpfman_ns_path f =
     (if path_exists f ''./target/debug/bpfman-ns'' then ''./target/debug/bpfman-ns''
      else if path_exists f ''./bpfman-ns'' then ''./bpfman-ns'' else ''bpfman-ns'')"

definition attach_uprobe_in_container ::
  "('d, 'sig, 'layer) env \<Rightarrow> uprobe_program \<Rightarrow> u32 \<Rightarrow> i32 \<Rightarrow> ('d kworld, bpfman_error, unit) st" where
  "attach_uprobe_in_container E program i container_pid =
     (let H = e_db E in
     bind_st (from_db (uprobe_get_offset H program)) (\<lambda>offset.
     bind_st (from_db (uprobe_get_target H program)) (\<lambda>target.
     bind_st (from_db (uprobe_get_fn_name H program)) (\<lambda>fn_name.
     bind_st (from_db (uprobe_get_retprobe H program)) (\<lambda>retprobe.
     bind_st (from_db (uprobe_get_pid H program)) (\<lambda>pid.
     bind_st (reads (\<lambda>w. Ok (K_Command (bpfman_ns_path (wfs w))
       (uprobe_ns_args (prog_pin i) offset target container_pid fn_name retprobe pid)))) (\<lambda>cmd.
     bind_st (k_tell (\<lambda>l. a_command (e_aya E) l cmd) cmd) (\<lambda>output.
     case output of
       Inr (True, _) \<Rightarrow> ret ()
     | _ \<Rightarrow> bind_st (from_db (uprobe_get_container_pid H program)) (\<lambda>c.
         bind_st (reads (\<lambda>_. expect_opt ''unwrap'' c)) (\<lambda>c. throw (ContainerAttachError ''uprobe'' c)))))))))))"


definition attach_uprobe ::
  "('d, 'sig, 'layer) env \<Rightarrow> prog_ref \<Rightarrow> aya_kind \<Rightarrow> uprobe_program \<Rightarrow> ('d kworld, bpfman_error, u32) st" where
  "attach_uprobe E p k program =
     (let A = e_aya E; H = e_db E in
     bind_st (from_db (uprobe_get_retprobe H program)) (\<lambda>retprobe.
     let requested = (if retprobe then ProbeType_Uretprobe else ProbeType_Uprobe) in
     then_st (reads (\<lambda>_. try_into (\<lambda>k. case k of Is_UProbe _ \<Rightarrow> True | _ \<Rightarrow> False) k)) (
     then_st (map_err_st BpfProgramError (k_unit A (K_Prog_Load p Load_Plain))) (
     then_st (reads (\<lambda>_. check_probe_type requested k)) (
     bind_st (record_kernel_info E p (uprobe_data program)) (\<lambda>i.
     bind_st (from_db (uprobe_get_fn_name H program)) (\<lambda>fn_name.
     then_st (pin_program A p i) (
     bind_st (from_db (uprobe_get_container_pid H program)) (\<lambda>container_pid.
     then_st (case container_pid of
       None \<Rightarrow>
         bind_st (from_db (uprobe_get_offset H program)) (\<lambda>offset.
         bind_st (from_db (uprobe_get_target H program)) (\<lambda>target.
         bind_st (map_err_st BpfProgramError (k_num A (K_Attach p (Attach_UProbe fn_name offset target)))) (\<lambda>link_id.
         pin_link A p ''unable to get owned uprobe attach link'' link_id i)))
     | Some c \<Rightarrow> attach_uprobe_in_container E program i c)
     (ret i))))))))))"

text \<open>Fentry and fexit programs are loaded for a kernel function by its BTF type.\<close>

definition attach_fn ::
  "('d, 'sig, 'layer) env \<Rightarrow> prog_ref \<Rightarrow> aya_kind \<Rightarrow> aya_kind \<Rightarrow>
   ('d \<Rightarrow> (bpfman_error, string) res) \<Rightarrow> program_data \<Rightarrow> ('d kworld, bpfman_error, u32) st" where
  "attach_fn E p k wanted get_fn_name pd =
     (let A = e_aya E in
     bind_st (from_db get_fn_name) (\<lambda>fn_name.
     then_st (map_err_st BtfError (k_unit A K_Btf)) (
     then_st (reads (\<lambda>_. try_into (\<lambda>k. k = wanted) k)) (
     then_st (map_err_st BpfProgramError (k_unit A (K_Prog_Load p (Load_Fn fn_name)))) (
     bind_st (record_kernel_info E p pd) (\<lambda>i.
     bind_st (map_err_st BpfProgramError (k_num A (K_Attach p Attach_Loaded))) (\<lambda>link_id.
     bind_st (map_err_st BpfProgramError (k_num A (K_Take_Link p link_id))) (\<lambda>fd_link.
     then_st (map_err_st UnableToPinLink (k_pin A (K_Pin_Link fd_link (prog_link_pin i)) (prog_link_pin i))) (
     then_st (pin_program A p i) (ret i))))))))))"

fun attach_single ::
  "('d, 'sig, 'layer) env \<Rightarrow> prog_ref \<Rightarrow> aya_kind \<Rightarrow> program \<Rightarrow> ('d kworld, bpfman_error, u32) st" where
  "attach_single E p k (Program_Tracepoint t) = attach_tracepoint E p k t"
| "attach_single E p k (Program_Kprobe t) = attach_kprobe E p k t"
| "attach_single E p k (Program_Uprobe t) = attach_uprobe E p k t"
| "attach_single E p k (Program_Fentry t) =
     attach_fn E p k Is_FEntry (fentry_get_fn_name (e_db E) t) (fentry_data t)"
| "attach_single E p k (Program_Fexit t) =
     attach_fn E p k Is_FExit (fexit_get_fn_name (e_db E) t) (fexit_data t)"
| "attach_single E p k _ = panic ''not a supported single attach program''"

text \<open>
  Every failure inside the match over the kinds returns from the function at once, so the
  cleanup the code has for an error result is never reached; only the success branch follows.
\<close>

definition add_single_attach_program ::
  "('d, 'sig, 'layer) env \<Rightarrow> program \<Rightarrow> ('d kworld, bpfman_error, u32) st" where
  "add_single_attach_program E program =
     (let H = e_db E; data = program_get_data program in
     bind_st (from_db (get_name H data)) (\<lambda>name.
     bind_st (from_db (get_global_data H data)) (\<lambda>global_data.
     bind_st (from_db (get_map_pin_path H data)) (\<lambda>pin_path.
     bind_st (from_db (get_program_bytes H data)) (\<lambda>bs.
     bind_st (map_err_st BpfLoadError (k_load (e_aya E)
       \<lparr>bl_globals = map (\<lambda>(k, v). (k, Global_Bytes v)) global_data, bl_extensions = [],
        bl_allow_unsupported_maps = True, bl_map_pin_path = pin_path\<rparr> bs)) (\<lambda>obj.
     bind_st (reads (\<lambda>_. ok_or (BpfFunctionNameNotValid name) (program_mut obj name))) (\<lambda>k.
     bind_st (attach_single E (In_Obj (obj_handle obj) name) k program) (\<lambda>i.
     then_st (pin_own_maps E data i obj) (ret i)))))))))"


subsection \<open>The public operations\<close>

fun is_multi :: "program \<Rightarrow> bool" where
  "is_multi (Program_Xdp _) = True"
| "is_multi (Program_Tc _) = True"
| "is_multi _ = False"

definition add_by_kind ::
  "('d, 'sig, 'layer) env \<Rightarrow> image_manager \<Rightarrow> config \<Rightarrow> program \<Rightarrow> ('d kworld, bpfman_error, u32) st" where
  "add_by_kind E im cfg program = (case program of
     Program_Unsupported _ \<Rightarrow> panic ''Cannot add unsupported program''
   | _ \<Rightarrow> if is_multi program then add_multi_attach_program E im cfg program
          else add_single_attach_program E program)"

text \<open>
  The interface index is looked up and stored before the match on the result, so its errors
  leave \<open>add_program\<close> at once.
\<close>

definition store_if_index ::
  "('d, 'sig, 'layer) env \<Rightarrow> program \<Rightarrow> ('d kworld, bpfman_error, unit) st" where
  "store_if_index E program =
     (if is_multi program then
        bind_st (from_db (\<lambda>d. expect_res ''unwrap'' (program_if_name (e_db E) program d))) (\<lambda>n.
        bind_st (reads (\<lambda>_. get_ifindex (e_nametoindex E) n)) (\<lambda>ix.
        on_db (program_set_if_index (e_db E) program ix)))
      else ret ())"

definition cleanup_failed_add ::
  "('d, 'sig, 'layer) env \<Rightarrow> program \<Rightarrow> u32 option \<Rightarrow> bpfman_error \<Rightarrow> ('d kworld, bpfman_error, 'a) st" where
  "cleanup_failed_add E program map_owner_id e =
     bind_st (from_db (get_map_pin_path (e_db E) (program_get_data program))) (\<lambda>pin_path.
     then_st (case pin_path of
         Some path \<Rightarrow> ignore_st (on_fs (cleanup_map_pin_path (e_fault E) path map_owner_id))
       | None \<Rightarrow> ret ()) (
     then_st (ignore_st (program_delete (e_os E) program)) (throw e)))"

definition finish_add ::
  "('d, 'sig, 'layer) env \<Rightarrow> program \<Rightarrow> u32 option \<Rightarrow> u32 \<Rightarrow> ('d kworld, bpfman_error, program) st" where
  "finish_add E program map_owner_id i =
     then_st (from_db (program_kind (e_db E) program)) (
     then_st (from_db (get_name (e_db E) (program_get_data program))) (
     then_st (save_map (e_os E) program i map_owner_id) (
     bind_st (on_db (swap_tree (e_db E) (program_get_data program) i)) (\<lambda>data.
     ret (program_set_data data program)))))"

text \<open>\<open>tmp\<close> is the temporary database the caller built the program in.\<close>

definition add_program ::
  "('d, 'sig, 'layer) env \<Rightarrow> 'd \<Rightarrow> program \<Rightarrow> ('d kworld, bpfman_error, program) st" where
  "add_program E tmp program0 =
     (let H = e_db E in
     bind_st (setup_bpfman E) (\<lambda>cfg.
     bind_st (reads (\<lambda>_. the_image_manager E)) (\<lambda>im.
     bind_st (on_db (program_data_load H tmp (program_get_data program0))) (\<lambda>data.
     let program = program_set_data data program0 in
     bind_st (from_db (get_map_owner_id H data)) (\<lambda>map_owner_id.
     then_st (case map_owner_id of
         Some o' \<Rightarrow> bind_st (from_db (is_map_owner_id_valid H o')) (\<lambda>path. on_db (set_map_pin_path H data path))
       | None \<Rightarrow> ret ()) (
     then_st (on_db (set_program_bytes H (e_oci E) (e_open_file E) im data)) (
     then_st (store_if_index E program) (
     \<lambda>w. (case add_by_kind E im cfg program w of
         (Ok i, w') \<Rightarrow> finish_add E program map_owner_id i w'
       | (Err e, w') \<Rightarrow> cleanup_failed_add E program map_owner_id e w'
       | (Panic p, w') \<Rightarrow> (Panic p, w'))))))))))"

definition remove_program :: "('d, 'sig, 'layer) env \<Rightarrow> u32 \<Rightarrow> ('d kworld, bpfman_error, unit) st" where
  "remove_program E i =
     (let H = e_db E in
     bind_st (setup_bpfman E) (\<lambda>cfg.
     bind_st (on_db (get_by_id H i)) (\<lambda>prog. case prog of
       None \<Rightarrow> throw (Error (''Program '' @ show_u32 i @ '' does not exist or was not created by bpfman''))
     | Some prog \<Rightarrow>
         bind_st (from_db (get_map_owner_id H (program_get_data prog))) (\<lambda>map_owner_id.
         then_st (
           if is_multi prog then
             bind_st (from_db (program_dispatcher_id H prog)) (\<lambda>did.
             bind_st (reads (\<lambda>_. ok_or DispatcherNotRequired did)) (\<lambda>did.
             bind_st (from_db (program_kind H prog)) (\<lambda>program_type.
             bind_st (from_db (program_if_index H prog)) (\<lambda>if_index.
             bind_st (from_db (\<lambda>d. expect_res ''unwrap'' (program_if_name H prog d))) (\<lambda>if_name.
             bind_st (from_db (program_direction H prog)) (\<lambda>direction.
             then_st (map_err_st BpfmanProgramDeleteError (program_delete (e_os E) prog))
               (remove_multi_attach_program E cfg did program_type if_index if_name direction)))))))
           else map_err_st BpfmanProgramDeleteError (program_delete (e_os E) prog))
         (delete_map (e_os E) i map_owner_id)))))"

definition unsupported_program ::
  "'d host \<Rightarrow> aya_prog_info \<Rightarrow> (program_data \<Rightarrow> ('d, 'e, unit) st) \<Rightarrow> ('d, 'e, program) st" where
  "unsupported_program H prog put =
     (let data = new_empty (show_u32 (api_id prog)) in
      then_st (open_tree H ''Unable to open program database tree for listing programs'' (db_tree data)) (
      then_st (put data) (ret (Program_Unsupported data))))"

text \<open>The programs the kernel reports, those of bpfman looked up once each in the hash map.\<close>

fun list_loaded ::
  "'d host \<Rightarrow> list_filter \<Rightarrow> (u32, program) hashmap \<Rightarrow> (string + aya_prog_info) list \<Rightarrow> ('d, 'e, program list) st" where
  "list_loaded H lf known [] = ret []"
| "list_loaded H lf known (Inl e # ps) = list_loaded H lf known ps"
| "list_loaded H lf known (Inr prog # ps) =
     bind_st (case map_of known (api_id prog) of
         Some p \<Rightarrow> ret p
       | None \<Rightarrow> unsupported_program H prog (\<lambda>data. ignore_st (set_kernel_info H data prog))) (\<lambda>p.
     bind_st (reads (list_filter_matches H lf p)) (\<lambda>keep.
     bind_st (list_loaded H lf (filter (\<lambda>kv. fst kv \<noteq> api_id prog) known) ps) (\<lambda>rest.
     ret (if keep then p # rest else rest))))"

definition list_programs ::
  "('d, 'sig, 'layer) env \<Rightarrow> list_filter \<Rightarrow> ('d kworld, bpfman_error, program list) st" where
  "list_programs E lf =
     bind_st (setup_bpfman E) (\<lambda>_.
     bind_st (on_db (get_programs_iter (e_db E))) (\<lambda>known.
     bind_st (k_tell (a_loaded (e_aya E)) K_Loaded_Programs) (\<lambda>loaded.
     on_db (list_loaded (e_db E) lf (rev known) loaded))))"

fun find_loaded ::
  "'d host \<Rightarrow> u32 \<Rightarrow> (string + aya_prog_info) list \<Rightarrow> ('d, 'e, program option) st" where
  "find_loaded H i [] = ret None"
| "find_loaded H i (Inl e # ps) = find_loaded H i ps"
| "find_loaded H i (Inr prog # ps) =
     (if api_id prog = i then
        bind_st (unsupported_program H prog (\<lambda>data. expect_st ''unable to set kernel info'' (set_kernel_info H data prog)))
          (\<lambda>p. ret (Some p))
      else find_loaded H i ps)"

definition get_program :: "('d, 'sig, 'layer) env \<Rightarrow> u32 \<Rightarrow> ('d kworld, bpfman_error, program) st" where
  "get_program E i =
     bind_st (setup_bpfman E) (\<lambda>_.
     bind_st (on_db (get_by_id (e_db E) i)) (\<lambda>p. case p of
       Some p \<Rightarrow> ret p
     | None \<Rightarrow>
         bind_st (k_tell (a_loaded (e_aya E)) K_Loaded_Programs) (\<lambda>loaded.
         bind_st (on_db (find_loaded (e_db E) i loaded)) (\<lambda>p.
         reads (\<lambda>_. ok_or (Error (''Program '' @ show_u32 i @ '' does not exist'')) p)))))"

definition pull_bytecode ::
  "('d, 'sig, 'layer) env \<Rightarrow> bytecode_image \<Rightarrow> ('d kworld, string, unit) st" where
  "pull_bytecode E img =
     then_st (map_err_st show_bpfman_error (setup_bpfman E)) (
     bind_st (reads (\<lambda>_. the_image_manager E)) (\<lambda>im.
     then_st (map_err_st show_image_error (on_db (get_image (e_db E) (e_oci E) im (image_url img)
       (bi_image_pull_policy img) (username img) (password img)))) (ret ())))"

end
