(* ===== verification/Kernel_Protocol.thy ===== *)
theory Kernel_Protocol
  imports Bpf_Manager Dispatcher_Lifecycle
begin

text \<open>
  The order of the kernel calls. Whatever the kernel answers, and on every error path, the
  manager asks for information on a program, attaches it or pins it only after it asked to load
  that program, and takes a link only after an attach. \<open>obeys F m\<close> is the judgement the
  proofs are made in: run after the calls \<open>F\<close> were made, \<open>m\<close> only appends to the log and keeps
  it in order.
\<close>


subsection \<open>The protocol\<close>

fun needs :: "kcall \<Rightarrow> (kcall \<Rightarrow> bool) option" where
  "needs (K_Info p) = Some (\<lambda>c. \<exists>a. c = K_Prog_Load p a)"
| "needs (K_Attach (In_Obj h n) a) = Some (\<lambda>c. \<exists>n' b. c = K_Prog_Load (In_Obj h n') b)"
| "needs (K_Attach (Pinned_Ext n) a) = Some (\<lambda>c. \<exists>path. c = K_Prog_From_Pin path)"
| "needs (K_Take_Link p l) = Some (\<lambda>c. \<exists>a. c = K_Attach p a)"
| "needs (K_Pin_Prog p path) = Some (\<lambda>c. \<exists>a. c = K_Prog_Load p a)"
| "needs (K_Pin_Link l path) = Some (\<lambda>c. \<exists>p i. c = K_Take_Link p i)"
| "needs (K_Pin_Map h n path) = Some (\<lambda>c. \<exists>b bs. c = K_Load b bs)"
| "needs _ = None"

definition served :: "kcall set \<Rightarrow> kcall \<Rightarrow> bool" where
  "served F c \<longleftrightarrow> (case needs c of None \<Rightarrow> True | Some P \<Rightarrow> \<exists>x \<in> F. P x)"

definition in_order :: "klog \<Rightarrow> bool" where
  "in_order l \<longleftrightarrow> (\<forall>i < length l. served (set (take i l)) (l ! i))"

lemma in_order_simps [simp]:
  "in_order []" "in_order (l @ [c]) \<longleftrightarrow> in_order l \<and> served (set l) c"
proof -
  show "in_order []" by (simp add: in_order_def)
  show "in_order (l @ [c]) \<longleftrightarrow> in_order l \<and> served (set l) c"
    by (auto simp: in_order_def nth_append less_Suc_eq)
qed

lemma served_mono: "served F c \<Longrightarrow> F \<subseteq> G \<Longrightarrow> served G c"
  by (auto simp: served_def split: option.splits)


subsection \<open>The judgement\<close>

definition obeys :: "kcall set \<Rightarrow> ('d kworld, 'e, 'a) st \<Rightarrow> bool" where
  "obeys F m \<longleftrightarrow> (\<forall>w. F \<subseteq> set (wkern w) \<longrightarrow> in_order (wkern w) \<longrightarrow>
     prefix (wkern w) (wkern (snd (m w))) \<and> in_order (wkern (snd (m w))))"

text \<open>A call that is made whatever its answer: it is the last of the log afterwards.\<close>

definition makes :: "kcall \<Rightarrow> ('d kworld, 'e, 'a) st \<Rightarrow> bool" where
  "makes c m \<longleftrightarrow> (\<forall>w. wkern (snd (m w)) = wkern w @ [c])"

named_theorems protocol_rules \<open>the judgement on each construct\<close>

lemma obeysI:
  assumes "\<And>w. F \<subseteq> set (wkern w) \<Longrightarrow> in_order (wkern w) \<Longrightarrow>
      prefix (wkern w) (wkern (snd (m w))) \<and> in_order (wkern (snd (m w)))"
  shows "obeys F m"
  using assms by (simp add: obeys_def)

lemma obeysD:
  "obeys F m \<Longrightarrow> F \<subseteq> set (wkern w) \<Longrightarrow> in_order (wkern w) \<Longrightarrow>
     prefix (wkern w) (wkern (snd (m w))) \<and> in_order (wkern (snd (m w)))"
  by (simp add: obeys_def)

lemma obeys_bind:
  assumes "obeys F m" and "\<And>a. obeys F (f a)"
  shows "obeys F (bind_st m f)"
proof (rule obeysI)
  fix w :: "'a kworld"
  assume F: "F \<subseteq> set (wkern w)" and o: "in_order (wkern w)"
  note m = obeysD [OF assms(1) F o]
  then have "F \<subseteq> set (wkern (snd (m w)))" using F set_mono_prefix by blast
  from obeysD [OF assms(2) this conjunct2 [OF m]] m
  show "prefix (wkern w) (wkern (snd (bind_st m f w))) \<and> in_order (wkern (snd (bind_st m f w)))"
    by (cases "m w"; cases "fst (m w)") (auto simp: bind_st_def intro: prefix_order.trans)
qed

lemma obeys_then: "obeys F m \<Longrightarrow> obeys F n \<Longrightarrow> obeys F (then_st m n)"
  unfolding then_st_def by (rule obeys_bind)

lemma obeys_makes: "makes c m \<Longrightarrow> served F c \<Longrightarrow> obeys F m"
  by (rule obeysI) (auto simp: makes_def intro: served_mono)

lemma obeys_call_bind:
  assumes "makes c m" and "served F c" and "\<And>a. obeys (insert c F) (f a)"
  shows "obeys F (bind_st m f)"
proof (rule obeysI)
  fix w :: "'a kworld"
  assume F: "F \<subseteq> set (wkern w)" and o: "in_order (wkern w)"
  have k: "wkern (snd (m w)) = wkern w @ [c]" using assms(1) by (simp add: makes_def)
  have "insert c F \<subseteq> set (wkern (snd (m w)))" "in_order (wkern (snd (m w)))"
    using F o k served_mono [OF assms(2) F] by auto
  from obeysD [OF assms(3) this] k served_mono [OF assms(2) F] o
  show "prefix (wkern w) (wkern (snd (bind_st m f w))) \<and> in_order (wkern (snd (bind_st m f w)))"
    by (cases "m w"; cases "fst (m w)") (auto simp: bind_st_def dest: append_prefixD)
qed

lemma obeys_call_then:
  "makes c m \<Longrightarrow> served F c \<Longrightarrow> obeys (insert c F) n \<Longrightarrow> obeys F (then_st m n)"
  unfolding then_st_def by (rule obeys_call_bind)

lemma makes_calls [protocol_rules]:
  "makes c (k_unit A c)" "makes c (k_num A c)" "makes (K_Load b bs) (k_load A b bs)"
  "makes (K_Info p) (k_info A p)" "makes c (k_pin A c path)" "makes c (k_tell f c)"
  by (auto simp: makes_def k_defs k_pin_def split: sum.splits)

lemma snd_wrapped [simp]:
  "snd (map_err_st g m w) = snd (m w)" "snd (unwrap_st m w) = snd (m w)"
  "snd (expect_st p m w) = snd (m w)" "snd (ignore_st m w) = snd (m w)"
  by (auto simp: map_err_st_def unwrap_st_app expect_st_def ignore_st_def split: prod.splits res.splits)

lemma makes_wrapped [protocol_rules]:
  "makes c m \<Longrightarrow> makes c (map_err_st g m)" "makes c m \<Longrightarrow> makes c (unwrap_st m)"
  "makes c m \<Longrightarrow> makes c (expect_st p m)" "makes c m \<Longrightarrow> makes c (ignore_st m)"
  by (simp_all add: makes_def)

text \<open>Calls that do not reach the kernel.\<close>

definition no_kcall :: "('d kworld, 'e, 'a) st \<Rightarrow> bool" where
  "no_kcall m \<longleftrightarrow> (\<forall>w. wkern (snd (m w)) = wkern w)"

lemma no_kcall_basic [protocol_rules]:
  "no_kcall (ret a)" "no_kcall (reads g)" "no_kcall (from_db h)" "no_kcall (on_db k)" "no_kcall (on_fs n)"
  "no_kcall (throw e)" "no_kcall (panic q)"
  by (auto simp: no_kcall_def)

lemma no_kcall_wrapped [protocol_rules]:
  "no_kcall m \<Longrightarrow> no_kcall (map_err_st g m)" "no_kcall m \<Longrightarrow> no_kcall (unwrap_st m)"
  "no_kcall m \<Longrightarrow> no_kcall (expect_st p m)" "no_kcall m \<Longrightarrow> no_kcall (ignore_st m)"
  by (simp_all add: no_kcall_def)

lemma no_kcall_bind [protocol_rules]:
  "no_kcall m \<Longrightarrow> (\<And>a. no_kcall (f a)) \<Longrightarrow> no_kcall (bind_st m f)"
  by (auto simp: no_kcall_def bind_st_def split: prod.splits res.splits) (metis snd_conv)+

lemma no_kcall_then [protocol_rules]: "no_kcall m \<Longrightarrow> no_kcall n \<Longrightarrow> no_kcall (then_st m n)"
  unfolding then_st_def by (rule no_kcall_bind)

lemma no_kcall_obeys: "no_kcall m \<Longrightarrow> obeys F m"
  by (rule obeysI) (simp add: no_kcall_def)

lemma obeys_for_each: "(\<And>x. obeys F (f x)) \<Longrightarrow> obeys F (try_for_each f xs)"
  by (induction xs) (auto intro: obeys_then no_kcall_obeys protocol_rules)


lemma obeys_quiet_bind: "no_kcall m \<Longrightarrow> (\<And>a. obeys F (f a)) \<Longrightarrow> obeys F (bind_st m f)"
  by (rule obeys_bind [OF no_kcall_obeys])

lemma obeys_quiet_then: "no_kcall m \<Longrightarrow> obeys F n \<Longrightarrow> obeys F (then_st m n)"
  by (rule obeys_then [OF no_kcall_obeys])

lemma obeys_match:
  fixes m :: "('d kworld, 'e, 'a) st"
  assumes "obeys F m" and "\<And>a. obeys F (f a)" and "\<And>e. obeys F (g e)"
  shows "obeys F (\<lambda>w. case m w of (Ok a, w') \<Rightarrow> f a w' | (Err e, w') \<Rightarrow> g e w' | (Panic p, w') \<Rightarrow> (Panic p, w'))"
proof (rule obeysI)
  fix w :: "'d kworld" assume F: "F \<subseteq> set (wkern w)" and o: "in_order (wkern w)"
  note m = obeysD [OF assms(1) F o]
  then have F': "F \<subseteq> set (wkern (snd (m w)))" using F set_mono_prefix by blast
  let ?r = "\<lambda>w. case m w of (Ok a, w') \<Rightarrow> f a w' | (Err e, w') \<Rightarrow> g e w' | (Panic p, w') \<Rightarrow> (Panic p, w')"
  from obeysD [OF assms(2) F' conjunct2 [OF m]] obeysD [OF assms(3) F' conjunct2 [OF m]] m
  show "prefix (wkern w) (wkern (snd (?r w))) \<and> in_order (wkern (snd (?r w)))"
    by (cases "m w"; cases "fst (m w)") (auto intro: prefix_order.trans)
qed

lemma obeys_if: "obeys F m \<Longrightarrow> obeys F n \<Longrightarrow> obeys F (if b then m else n)"
  by simp

lemma obeys_option: "obeys F m \<Longrightarrow> (\<And>a. obeys F (f a)) \<Longrightarrow> obeys F (case x of None \<Rightarrow> m | Some a \<Rightarrow> f a)"
  by (cases x) simp_all

lemma obeys_prod: "(\<And>a b. obeys F (f a b)) \<Longrightarrow> obeys F (case p of (a, b) \<Rightarrow> f a b)"
  by (cases p) simp

lemma obeys_map_err: "obeys F m \<Longrightarrow> obeys F (map_err_st g m)"
  by (simp add: obeys_def)

lemma obeys_ignore: "obeys F m \<Longrightarrow> obeys F (ignore_st m)"
  by (simp add: obeys_def)

text \<open>A value that was read is one that the reading function gives.\<close>

lemma obeys_reads_bind:
  fixes g :: "'d kworld \<Rightarrow> ('e, 'a) res"
  assumes "\<And>a w. g w = Ok a \<Longrightarrow> obeys F (f a)"
  shows "obeys F (bind_st (reads g) f)"
proof (rule obeysI)
  fix w :: "'d kworld"
  assume "F \<subseteq> set (wkern w)" and "in_order (wkern w)"
  with assms [of w] show "prefix (wkern w) (wkern (snd (bind_st (reads g) f w))) \<and> in_order (wkern (snd (bind_st (reads g) f w)))"
    by (cases "g w") (auto simp: bind_st_def dest: obeysD)
qed

text \<open>
  The rules of a sequence, by its first call: a kernel call, in one of the forms the sources have,
  must be served and is known to be made afterwards; other calls change nothing of the log.
\<close>

lemmas call_steps =
  makes_calls [THEN obeys_call_bind] makes_calls [THEN obeys_call_then]
  makes_calls [THEN makes_wrapped(1), THEN obeys_call_bind] makes_calls [THEN makes_wrapped(1), THEN obeys_call_then]
  makes_calls [THEN makes_wrapped(2), THEN obeys_call_bind] makes_calls [THEN makes_wrapped(2), THEN obeys_call_then]
  makes_calls [THEN makes_wrapped(3), THEN obeys_call_bind] makes_calls [THEN makes_wrapped(3), THEN obeys_call_then]
  makes_calls [THEN obeys_makes] makes_calls [THEN makes_wrapped(1), THEN obeys_makes]

lemmas quiet_steps =
  no_kcall_basic [THEN obeys_quiet_bind] no_kcall_basic [THEN obeys_quiet_then]
  no_kcall_basic(5) [THEN no_kcall_wrapped(1), THEN obeys_quiet_then]
  no_kcall_basic(5) [THEN no_kcall_wrapped(2), THEN obeys_quiet_then] no_kcall_basic [THEN no_kcall_obeys]

lemmas obeys_steps = call_steps quiet_steps obeys_if obeys_option obeys_prod

lemma served_simps [simp]:
  "served F c \<longleftrightarrow> (case needs c of None \<Rightarrow> True | Some P \<Rightarrow> \<exists>x \<in> F. P x)"
  by (simp add: served_def)

lemma record_kernel_info_obeys: "served F (K_Info p) \<Longrightarrow> obeys F (record_kernel_info E p pd)"
  unfolding record_kernel_info_def by (intro obeys_steps)

lemma pin_link_obeys: "served F (K_Take_Link p l) \<Longrightarrow> obeys F (pin_link A p msg l i)"
  unfolding pin_link_def by (intro obeys_steps) simp_all

lemma pin_program_obeys: "served F (K_Pin_Prog p (prog_pin i)) \<Longrightarrow> obeys F (pin_program A p i)"
  unfolding pin_program_def by (intro obeys_steps)

lemmas part_steps =
  record_kernel_info_obeys [THEN obeys_bind] pin_link_obeys [THEN obeys_then] pin_program_obeys [THEN obeys_then]
  pin_link_obeys

lemma obeys_pair_of_list:
  "obeys F m \<Longrightarrow> (\<And>a b. obeys F (f a b)) \<Longrightarrow> obeys F (case xs of [a, b] \<Rightarrow> f a b | _ \<Rightarrow> m)"
  by (auto split: list.split)

lemma attach_tracepoint_obeys: "obeys F (attach_tracepoint E (In_Obj h n) k program)"
  unfolding attach_tracepoint_def Let_def
  by (intro obeys_steps part_steps obeys_pair_of_list; simp)

lemma attach_kprobe_obeys: "obeys F (attach_kprobe E (In_Obj h n) k program)"
  unfolding attach_kprobe_def Let_def
  by (intro obeys_steps part_steps obeys_bind [OF obeys_if]; simp)

lemma attach_uprobe_in_container_obeys: "obeys F (attach_uprobe_in_container E program i c)"
proof -
  have "obeys F (case out of Inr (True, _) \<Rightarrow> ret () | _ \<Rightarrow> m)" if "obeys F m"
    for out :: "string + bool \<times> bytes" and m :: "('a kworld, bpfman_error, unit) st" and F
    using that by (auto split: sum.split prod.split bool.split intro: no_kcall_obeys protocol_rules)
  note out = this
  have "obeys F (bind_st (reads (\<lambda>w. Ok (K_Command (path w) args))) f)" if "\<And>path. obeys F (f (K_Command path args))"
    for path args and f :: "kcall \<Rightarrow> ('a kworld, bpfman_error, unit) st" and F
    using that by (intro obeys_reads_bind) auto
  note command = this
  show ?thesis
    unfolding attach_uprobe_in_container_def Let_def
    by (intro command obeys_steps out; simp)
qed

lemma attach_uprobe_obeys: "obeys F (attach_uprobe E (In_Obj h n) k program)"
  unfolding attach_uprobe_def Let_def
  by (intro obeys_steps part_steps obeys_then [OF obeys_option] attach_uprobe_in_container_obeys; simp)

lemma attach_fn_obeys: "obeys F (attach_fn E (In_Obj h n) k wanted get pd)"
  unfolding attach_fn_def Let_def by (intro obeys_steps part_steps; simp)

lemma attach_single_obeys: "obeys F (attach_single E (In_Obj h n) k program)"
  by (cases program)
    (simp_all add: attach_tracepoint_obeys attach_kprobe_obeys attach_uprobe_obeys attach_fn_obeys quiet_steps)

lemma pin_maps_obeys: "served F (K_Pin_Map 0 [] []) \<Longrightarrow> obeys F (pin_maps A obj dir)"
  unfolding pin_maps_def by (rule obeys_for_each) (intro obeys_steps; simp)

lemma pin_own_maps_obeys: "served F (K_Pin_Map 0 [] []) \<Longrightarrow> obeys F (pin_own_maps E pd i obj)"
  unfolding pin_own_maps_def Let_def by (intro obeys_steps pin_maps_obeys; simp)

lemma add_single_obeys: "obeys F (add_single_attach_program E program)"
  unfolding add_single_attach_program_def Let_def
  by (intro obeys_steps obeys_bind [OF attach_single_obeys] obeys_then [OF pin_own_maps_obeys]; simp)



subsection \<open>Dispatchers\<close>

lemma attach_pinned_obeys: "obeys F (attach_pinned E disp base ix rv i pd)"
  unfolding attach_pinned_def Let_def by (intro obeys_steps; simp)

lemma attach_new_obeys: "obeys F (attach_new E disp base ix rv i pd)"
  unfolding attach_new_def Let_def by (intro obeys_steps pin_own_maps_obeys; simp)

lemma attach_extension_obeys: "obeys F (attach_extension E disp base ix rv at v)"
  unfolding attach_extension_def by (intro obeys_steps attach_pinned_obeys attach_new_obeys)

lemma attach_extensions_obeys:
  "obeys F (xd_attach_extensions E x exts)" "obeys F (td_attach_extensions E y exts')"
  unfolding xd_attach_extensions_def td_attach_extensions_def
  by (intro obeys_steps obeys_for_each attach_extension_obeys)+


text \<open>The dispatcher of a loaded object is attached after the object's program was loaded.\<close>

lemma dispatcher_prog_bind:
  assumes "\<And>name. obeys F (f (In_Obj (obj_handle obj) name))"
  shows "obeys F (bind_st (reads (\<lambda>_. dispatcher_prog P (Some obj) name)) f)"
  using assms by (intro obeys_reads_bind) (auto dest: dispatcher_prog_Ok)

lemma xd_attach_obeys:
  "xd_loader x = Some obj \<Longrightarrow> served F (K_Attach (In_Obj (obj_handle obj) []) Attach_Ext) \<Longrightarrow> obeys F (xd_attach E x)"
  unfolding xd_attach_def Let_def
  by (simp only:) (intro dispatcher_prog_bind obeys_steps; auto)

lemma has_qdisc_obeys: "obeys F (has_qdisc A name ix)"
  unfolding has_qdisc_def by (intro obeys_steps; simp)

lemma obeys_ignore_call: "served F c \<Longrightarrow> obeys F (ignore_st (k_unit A c))"
  by (rule obeys_makes [OF makes_wrapped(4) [OF makes_calls(1)]])

lemma detach_obeys:
  "obeys F (\<lambda>w. case k_num A (K_Tc_Attached n dir pr h) w of (Ok l, w') \<Rightarrow> ignore_st (k_unit A (K_Detach l)) w'
     | (Err e, w') \<Rightarrow> (Ok (), w') | (Panic p, w') \<Rightarrow> (Panic p, w'))"
proof -
  have "obeys F (\<lambda>w. (Ok (), w))" for F using no_kcall_obeys [OF no_kcall_basic(1), of F "()"] by (simp add: ret_def)
  then show ?thesis by (intro obeys_match obeys_steps obeys_ignore_call) simp_all
qed

lemma delete_obeys: "obeys F (xd_delete E x full)" "obeys F (td_delete E y full)" "obeys F (dispatcher_delete E d full)"
proof -
  show x: "obeys F (xd_delete E x full)" for x
    unfolding xd_delete_def by (intro obeys_steps no_kcall_obeys [OF no_kcall_wrapped(1)] protocol_rules)
  show y: "obeys F (td_delete E y full)" for y
    unfolding td_delete_def by (intro obeys_steps detach_obeys)
  show "obeys F (dispatcher_delete E d full)" using x y by (cases d) simp_all
qed

lemma dispatcher_image_obeys: "obeys F (dispatcher_image E im url)"
  unfolding dispatcher_image_def
  by (rule no_kcall_obeys) (auto intro!: protocol_rules split: prod.split)

lemma load_dispatcher_bind:
  assumes "\<And>obj G. served G (K_Attach (In_Obj (obj_handle obj) []) Attach_Ext) \<Longrightarrow> obeys G (f obj)"
  shows "obeys F (bind_st (load_dispatcher_prog A P g conf name bs) f)"
  unfolding load_dispatcher_prog_def bind_st_assoc then_st_def
  by (intro dispatcher_prog_bind call_steps; simp) (auto simp: bind_st_def intro: assms)

lemma xd_load_obeys: "obeys F (xd_load E im x programs old)"
  unfolding xd_load_def Let_def
  by (intro load_dispatcher_bind obeys_steps obeys_bind [OF dispatcher_image_obeys]
      obeys_then [OF attach_extensions_obeys(1)] obeys_then [OF xd_attach_obeys]
      obeys_then [OF obeys_option] delete_obeys; auto)

lemma td_attach_obeys:
  assumes "td_loader x = Some obj" and "served F (K_Attach (In_Obj (obj_handle obj) []) Attach_Ext)"
  shows "obeys F (td_attach E x old)"
proof -
  have old: "obeys F (case old of Some (Dispatcher_Tc d) \<Rightarrow> f d | _ \<Rightarrow> ret ())" if "\<And>d. obeys F (f d)"
    for f :: "tc_dispatcher \<Rightarrow> ('a kworld, bpfman_error, unit) st" and F
    using that by (auto split: option.split dispatcher.split intro: quiet_steps)
  show ?thesis
    unfolding td_attach_def Let_def assms(1)
    using assms(2)
    by (intro old dispatcher_prog_bind obeys_steps obeys_bind [OF obeys_map_err [OF has_qdisc_obeys]]
        obeys_then [OF obeys_if] obeys_ignore_call delete_obeys; auto)
qed

lemma td_load_obeys: "obeys F (td_load E im x programs old)"
  unfolding td_load_def Let_def
  by (intro load_dispatcher_bind obeys_steps obeys_bind [OF dispatcher_image_obeys]
      obeys_then [OF attach_extensions_obeys(2)] obeys_then [OF td_attach_obeys]; auto)

lemma dispatcher_new_obeys: "obeys F (dispatcher_new E im config programs revision old)"
proof -
  have kind: "obeys F (case k of ProgramType_Xdp \<Rightarrow> m | ProgramType_Tc \<Rightarrow> n | _ \<Rightarrow> throw e)"
    if "obeys F m" "obeys F n" for k e and m n :: "('a kworld, bpfman_error, dispatcher) st" and F
    using that by (auto split: program_type.split intro: quiet_steps)
  show ?thesis
    unfolding dispatcher_new_def Let_def
    by (intro kind obeys_steps obeys_bind [OF xd_load_obeys] obeys_bind [OF td_load_obeys])
qed



subsection \<open>The manager\<close>

lemma setup_no_kcall: "no_kcall (setup_bpfman E)"
  unfolding setup_bpfman_def Let_def by (intro protocol_rules)

lemma program_delete_no_kcall: "no_kcall (program_delete X p)"
  unfolding program_delete_def by (intro protocol_rules)

lemma delete_if_known_obeys:
  fixes m :: "('d kworld, bpfman_error, 'a) st"
  assumes "obeys F m"
  shows "obeys F (delete_if_known E program m)"
proof -
  let ?g = "\<lambda>e. \<lambda>w :: 'd kworld. case get_id (e_db E) (program_get_data program) (wdb w) of
         Ok _ \<Rightarrow> then_st (map_err_st BpfmanProgramDeleteError (program_delete (e_os E) program)) (throw e) w
       | Err _ \<Rightarrow> (Err e, w) | Panic p \<Rightarrow> (Panic p, w)"
  have eq: "delete_if_known E program m =
      (\<lambda>w. case m w of (Ok a, w') \<Rightarrow> ret a w' | (Err e, w') \<Rightarrow> ?g e w' | (Panic p, w') \<Rightarrow> (Panic p, w'))"
    by (auto simp: delete_if_known_def fun_eq_iff split: prod.split res.split)
  have "no_kcall (then_st (map_err_st BpfmanProgramDeleteError (program_delete (e_os E) program))
      (throw e :: ('d kworld, bpfman_error, 'a) st))" for e
    by (intro protocol_rules program_delete_no_kcall)
  then have quiet: "no_kcall (?g e :: ('d kworld, bpfman_error, 'a) st)" for e
    by (auto simp: no_kcall_def split: res.split)
  show ?thesis unfolding eq by (intro obeys_match assms no_kcall_obeys [OF quiet] quiet_steps)
qed

lemma add_multi_obeys: "obeys F (add_multi_attach_program E im cfg program)"
  unfolding add_multi_attach_program_def Let_def
  by (intro obeys_steps obeys_then [OF delete_if_known_obeys] dispatcher_new_obeys; simp)


lemma no_kcall_cases [protocol_rules]:
  "no_kcall m \<Longrightarrow> no_kcall n \<Longrightarrow> no_kcall (if b then m else n)"
  "no_kcall m \<Longrightarrow> (\<And>a. no_kcall (f a)) \<Longrightarrow> no_kcall (case x of None \<Rightarrow> m | Some a \<Rightarrow> f a)"
  by (auto split: option.split)

lemma maps_no_kcall [protocol_rules]:
  "no_kcall (save_map X p i o')" "no_kcall (delete_map X i o')" "no_kcall (program_delete X p)"
  unfolding save_map_def delete_map_def Let_def by (intro protocol_rules program_delete_no_kcall)+

lemma finish_add_no_kcall: "no_kcall (finish_add E program o' i)" "no_kcall (cleanup_failed_add E program o' e)"
  unfolding finish_add_def cleanup_failed_add_def by (intro protocol_rules)+

lemma add_by_kind_obeys: "obeys F (add_by_kind E im cfg program)"
  unfolding add_by_kind_def
  by (cases program) (auto intro: quiet_steps add_single_obeys add_multi_obeys)

lemma store_if_index_no_kcall: "no_kcall (store_if_index E program)"
  unfolding store_if_index_def by (intro protocol_rules)

lemma add_program_obeys: "obeys F (add_program E tmp program)"
  unfolding add_program_def Let_def
  by (intro obeys_match add_by_kind_obeys no_kcall_obeys [OF finish_add_no_kcall(1)] no_kcall_obeys [OF finish_add_no_kcall(2)]
      obeys_quiet_bind [OF setup_no_kcall] obeys_quiet_then [OF store_if_index_no_kcall]
      obeys_quiet_then [OF no_kcall_cases(2)] protocol_rules quiet_steps)

lemma remove_multi_obeys: "obeys F (remove_multi_attach_program E cfg did k ix n dir)"
  unfolding remove_multi_attach_program_def Let_def
  by (intro obeys_steps delete_obeys obeys_then [OF dispatcher_new_obeys])

lemma remove_program_obeys: "obeys F (remove_program E i)"
  unfolding remove_program_def Let_def
  by (intro obeys_quiet_bind [OF setup_no_kcall] obeys_steps obeys_then [OF obeys_if] remove_multi_obeys
      obeys_map_err no_kcall_obeys [OF maps_no_kcall(2)] no_kcall_obeys [OF maps_no_kcall(3)]
      obeys_quiet_then [OF no_kcall_wrapped(1) [OF maps_no_kcall(3)]])

lemma query_obeys: "obeys F (list_programs E lf)" "obeys F (get_program E i)" "obeys F (pull_bytecode E img)"
  unfolding list_programs_def get_program_def pull_bytecode_def
  by (intro obeys_quiet_bind [OF setup_no_kcall] obeys_quiet_then [OF no_kcall_wrapped(1) [OF setup_no_kcall]]
      obeys_steps obeys_then [OF obeys_map_err]; simp)+



subsection \<open>The manager as a state machine\<close>

text \<open>
  One request to the manager, whatever its outcome: the world moves to what the request leaves.
\<close>

inductive manager_step :: "('d, 'sig, 'layer) env \<Rightarrow> 'd kworld \<Rightarrow> 'd kworld \<Rightarrow> bool" for E where
  Step_Add: "manager_step E w (snd (add_program E tmp program w))"
| Step_Remove: "manager_step E w (snd (remove_program E i w))"
| Step_List: "manager_step E w (snd (list_programs E lf w))"
| Step_Get: "manager_step E w (snd (get_program E i w))"
| Step_Pull: "manager_step E w (snd (pull_bytecode E img w))"

inductive_cases manager_stepE: "manager_step E w w'"

lemma obeys_run:
  "obeys {} m \<Longrightarrow> in_order (wkern w) \<Longrightarrow> prefix (wkern w) (wkern (snd (m w))) \<and> in_order (wkern (snd (m w)))"
  by (simp add: obeysD)

lemma manager_step_in_order:
  assumes "manager_step E w w'" and "in_order (wkern w)"
  shows "prefix (wkern w) (wkern w') \<and> in_order (wkern w')"
  using assms
  by (elim manager_stepE) (simp_all add: obeys_run add_program_obeys remove_program_obeys query_obeys)

text \<open>
  C7: the kernel calls of the manager are always in order. Over any sequence of requests, each with
  any outcome and whatever the kernel, the file system, the database and the registry answer, the
  log of kernel calls only grows, and in it a program is inspected or pinned only after a call that
  loads this program, attached only after a call that loads a program of its object (or opens it from
  its pin), its link taken only after it was attached, a link pinned only after one was taken, and a
  map pinned only after an object was loaded.
\<close>

theorem manager_calls_in_order:
  assumes "(manager_step E)\<^sup>*\<^sup>* w w'" and "in_order (wkern w)"
  shows "prefix (wkern w) (wkern w') \<and> in_order (wkern w')"
  using assms
proof (induction rule: rtranclp_induct)
  case base
  then show ?case by simp
next
  case (step u v)
  from step.IH [OF step.prems] manager_step_in_order [OF step.hyps(2)] show ?case
    by (auto intro: prefix_order.trans)
qed

theorem manager_calls_in_order_witness:
  "\<exists>w'. (manager_step demo_env)\<^sup>*\<^sup>* demo_slot_world w' \<and> in_order (wkern w')"
proof -
  let ?w = "snd (add_program demo_env [] (Program_Xdp \<lparr>xdp_data = \<lparr>db_tree = ''a''\<rparr>\<rparr>) demo_slot_world)"
  have run: "(manager_step demo_env)\<^sup>*\<^sup>* demo_slot_world ?w"
    by (rule r_into_rtranclp) (rule Step_Add)
  have "in_order (wkern demo_slot_world)" by (simp add: demo_slot_world_def)
  from manager_calls_in_order [OF run this] run show ?thesis by blast
qed

end
