(* ===== verification/Map_Histories.thy ===== *)
theory Map_Histories
  imports Program_Maps
begin

text \<open>
  Histories of the map bookkeeping. Programs are saved and deleted one after the other, in any
  order, with any outcome of the file operations; the abstract state follows, and no map is left
  without a user.
\<close>

datatype map_event = Saved u32 "u32 option" | Deleted u32 "u32 option"

fun spec_event :: "map_event \<Rightarrow> map_users \<Rightarrow> map_users" where
  "spec_event (Saved i owner) U = spec_save i owner U"
| "spec_event (Deleted i owner) U = spec_delete i owner U"

definition owner_of :: "u32 \<Rightarrow> u32 option \<Rightarrow> u32" where
  "owner_of i owner = (case owner of Some o' \<Rightarrow> o' | None \<Rightarrow> i)"

text \<open>
  A step of a history: a program in its temporary tree is saved, as the first user of new maps or
  as a further user of maps that exist, or a user of maps that exist is deleted.
\<close>

inductive map_step ::
  "'d os_host \<Rightarrow> ('d \<Rightarrow> trees) \<Rightarrow> ('d, 'k) world \<Rightarrow> map_event \<Rightarrow> ('d, 'k) world \<Rightarrow> bool" for E \<alpha> where
  Save_Own: "\<alpha> (wdb w) (map_tree i) = None \<Longrightarrow> db_tree (program_get_data p) = pre_load_tree r \<Longrightarrow>
    \<alpha> (wdb w) (pre_load_tree r) = Some pm \<Longrightarrow> pm MAP_PIN_PATH = Some (as_bytes path) \<Longrightarrow> is_str path \<Longrightarrow>
    map_step E \<alpha> w (Saved i None) (snd (save_map E p i None w))"
| Save_Shared: "\<alpha> (wdb w) (map_tree x) \<noteq> None \<Longrightarrow> db_tree (program_get_data p) = pre_load_tree r \<Longrightarrow>
    \<alpha> (wdb w) (pre_load_tree r) \<noteq> None \<Longrightarrow>
    map_step E \<alpha> w (Saved i (Some x)) (snd (save_map E p i (Some x) w))"
| Delete: "\<alpha> (wdb w) (map_tree (owner_of i owner)) \<noteq> None \<Longrightarrow>
    map_step E \<alpha> w (Deleted i owner) (snd (delete_map E i owner w))"

inductive map_history ::
  "'d os_host \<Rightarrow> ('d \<Rightarrow> trees) \<Rightarrow> ('d, 'k) world \<Rightarrow> map_event list \<Rightarrow> ('d, 'k) world \<Rightarrow> bool" for E \<alpha> where
  History_Nil: "map_history E \<alpha> w [] w"
| History_Snoc: "map_history E \<alpha> w evs v \<Longrightarrow> map_step E \<alpha> v ev w' \<Longrightarrow> map_history E \<alpha> w (evs @ [ev]) w'"

definition no_orphans :: "map_users \<Rightarrow> bool" where
  "no_orphans U \<longleftrightarrow> (\<forall>x. U x \<noteq> Some {#})"

lemma spec_event_no_orphans: "no_orphans U \<Longrightarrow> no_orphans (spec_event ev U)"
  by (cases ev) (auto simp: no_orphans_def spec_save_def spec_delete_def Let_def split: option.splits if_splits)

lemma db_inv_tree: "db_inv H T U \<Longrightarrow> T (map_tree x) = None \<longleftrightarrow> U x = None"
proof -
  assume "db_inv H T U"
  then have "rel_option (users H) (T (map_tree x)) (U x)" by (simp add: db_inv_def maps_abs_def)
  then show ?thesis by (cases "T (map_tree x)"; cases "U x") simp_all
qed

lemma map_step_refines:
  assumes "store (os_db E) \<alpha>" and "map_step E \<alpha> w ev w'" and "db_inv (os_db E) (\<alpha> (wdb w)) U"
  shows "db_inv (os_db E) (\<alpha> (wdb w')) (spec_event ev U)"
  using assms(2)
proof cases
  case (Save_Own i p r pm path)
  then have "U i = None" "\<alpha> (wdb w) (db_tree (program_get_data p)) = Some pm"
    using db_inv_tree [OF assms(3)] by simp_all
  with Save_Own obtain d' where "save_map E p i None w =
      (case set_dir_permissions (io_fault E) path MAPS_MODE (wfs w) of (r, f) \<Rightarrow> (r, w\<lparr>wdb := d', wfs := f\<rparr>))"
    and "db_inv (os_db E) (\<alpha> d') (spec_save i None U)"
    using store.save_own_ok [OF assms(1) refl assms(3)] by metis
  with Save_Own show ?thesis by (simp add: case_prod_beta)
next
  case (Save_Shared x p r i)
  then obtain M pm where "U x = Some M" "\<alpha> (wdb w) (db_tree (program_get_data p)) = Some pm"
    using db_inv_tree [OF assms(3), of x] by (cases "U x") auto
  with Save_Shared obtain d' where "save_map E p i (Some x) w = (Ok (), w\<lparr>wdb := d'\<rparr>)"
    and "db_inv (os_db E) (\<alpha> d') (spec_save i (Some x) U)"
    using store.save_shared_ok [OF assms(1) refl assms(3)] by metis
  with Save_Shared show ?thesis by simp
next
  case (Delete i owner)
  then obtain M where M: "U (owner_of i owner) = Some M"
    using db_inv_tree [OF assms(3), of "owner_of i owner"] by (cases "U (owner_of i owner)") auto
  note del = store.delete_ok [OF assms(1) refl assms(3) owner_of_def M]
  obtain d' where "db_inv (os_db E) (\<alpha> d') (spec_delete i owner U)" and "wdb (snd (delete_map E i owner w)) = d'"
  proof (rule del)
    fix d' assume inv: "db_inv (os_db E) (\<alpha> d') (spec_delete i owner U)"
      and "M - {#i#} = {#} \<longrightarrow> delete_map E i owner w =
        (case remove_dir_all (io_fault E) (calc_map_pin_path (owner_of i owner)) (wfs w) of (r, f) \<Rightarrow>
          (map_err (\<lambda>e. Error (''can't delete map dir: '' @ e)) r, w\<lparr>wdb := d', wfs := f\<rparr>))"
      and "M - {#i#} \<noteq> {#} \<longrightarrow> delete_map E i owner w = (Ok (), w\<lparr>wdb := d'\<rparr>) \<and> users_agree (os_db E) d' (owner_of i owner)"
    then have "wdb (snd (delete_map E i owner w)) = d'" by (cases "M - {#i#} = {#}") (simp_all add: case_prod_beta)
    with inv that show thesis by blast
  qed
  with Delete show ?thesis by simp
qed

text \<open>
  C9: along every history of saved and deleted programs, each step with any outcome, the database is
  related to the abstract state that the events give, so the tree of a map exists exactly while the
  map has users, and no map that is kept is without a user.
\<close>

theorem map_history_refines:
  assumes "store (os_db E) \<alpha>" and "map_history E \<alpha> w evs w'"
    and "db_inv (os_db E) (\<alpha> (wdb w)) U" and "no_orphans U"
  shows "db_inv (os_db E) (\<alpha> (wdb w')) (fold spec_event evs U)
    \<and> (\<forall>x. \<alpha> (wdb w') (map_tree x) \<noteq> None \<longleftrightarrow> (\<exists>M. fold spec_event evs U x = Some M \<and> M \<noteq> {#}))"
proof -
  have "db_inv (os_db E) (\<alpha> (wdb w')) (fold spec_event evs U) \<and> no_orphans (fold spec_event evs U)"
    using assms(2, 3)
  proof induction
    case (History_Nil w)
    then show ?case using assms(4) by simp
  next
    case (History_Snoc w evs v ev w')
    then show ?case by (auto intro: map_step_refines [OF assms(1)] spec_event_no_orphans)
  qed
  then show ?thesis using db_inv_tree [of "os_db E" "\<alpha> (wdb w')" "fold spec_event evs U"]
    by (auto simp: no_orphans_def)
qed

theorem map_history_refines_witness:
  "\<exists>w'. map_history demo_os ref_abs demo_map_world [Saved 8 (Some 3), Deleted 3 None] w'
    \<and> ref_abs (wdb w') (map_tree 3) \<noteq> None"
proof -
  let ?v = "snd (save_map demo_os demo_new_prog 8 (Some 3) demo_map_world)"
  let ?w = "snd (delete_map demo_os 3 None ?v)"
  have st: "store (os_db demo_os) ref_abs" using ref_store by simp
  have orphans: "no_orphans [3 \<mapsto> {#3#}]" by (simp add: no_orphans_def)
  have one: "map_history demo_os ref_abs demo_map_world ([] @ [Saved 8 (Some 3)]) ?v"
    by (rule History_Snoc [OF History_Nil], rule Save_Shared) (simp_all add: demo_map_db_def ref_abs_def)
  from map_history_refines [OF st one demo_map_world_inv orphans]
  have "ref_abs (wdb ?v) (map_tree 3) \<noteq> None" by (simp add: spec_save_def)
  then have "ref_abs (wdb ?v) (map_tree (owner_of 3 None)) \<noteq> None" by (simp add: owner_of_def)
  note step = map_step.Delete [of ref_abs ?v 3 None demo_os, OF this]
  have two: "map_history demo_os ref_abs demo_map_world (([] @ [Saved 8 (Some 3)]) @ [Deleted 3 None]) ?w"
    by (rule History_Snoc [OF one step])
  from map_history_refines [OF st two demo_map_world_inv orphans]
  have "ref_abs (wdb ?w) (map_tree 3) \<noteq> None" by (simp add: spec_save_def spec_delete_def)
  with two show ?thesis by auto
qed

end
