(* ===== verification/Db_Evolution.thy ===== *)
theory Db_Evolution
  imports Bpf_Manager Dispatcher_Lifecycle Map_Histories
begin

text \<open>
  How a request changes the database. \<open>hoare V P m Q E\<close> is a Hoare triple over the trees that \<open>V\<close>
  reads off the state: run where \<open>P\<close> holds, \<open>m\<close> ends in \<open>Q\<close> with its value, or in \<open>E\<close> with an
  error or a panic. \<open>evolves\<close> is the preorder on databases that every call of the manager
  respects except those that end a request: maps keep their users, program trees keep their id
  and their kind and stay attached, new trees have a name of a known form. The lemmas say so
  of each operation of the manager and of the dispatchers.
\<close>


subsection \<open>Triples\<close>

definition hoare ::
  "('s \<Rightarrow> trees) \<Rightarrow> (trees \<Rightarrow> bool) \<Rightarrow> ('s, 'e, 'a) st \<Rightarrow> ('a \<Rightarrow> trees \<Rightarrow> bool) \<Rightarrow> (trees \<Rightarrow> bool) \<Rightarrow> bool" where
  "hoare V P m Q E \<longleftrightarrow> (\<forall>s r s'. P (V s) \<longrightarrow> m s = (r, s') \<longrightarrow>
     (\<forall>a. r = Ok a \<longrightarrow> Q a (V s')) \<and> ((\<forall>a. r \<noteq> Ok a) \<longrightarrow> E (V s')))"

abbreviation stable :: "('s \<Rightarrow> trees) \<Rightarrow> (trees \<Rightarrow> bool) \<Rightarrow> ('s, 'e, 'a) st \<Rightarrow> bool" where
  "stable V P m \<equiv> hoare V P m (\<lambda>_. P) P"

text \<open>A call that leaves the database as it is.\<close>

definition quiet :: "('s \<Rightarrow> trees) \<Rightarrow> ('s, 'e, 'a) st \<Rightarrow> bool" where
  "quiet V m \<longleftrightarrow> (\<forall>s. V (snd (m s)) = V s)"

named_theorems evo_rules \<open>the calls that keep an assertion\<close>
named_theorems quiet_rules \<open>the calls that leave the database\<close>

lemma hoareI:
  assumes "\<And>s a s'. P (V s) \<Longrightarrow> m s = (Ok a, s') \<Longrightarrow> Q a (V s')"
    and "\<And>s r s'. P (V s) \<Longrightarrow> m s = (r, s') \<Longrightarrow> (\<forall>a. r \<noteq> Ok a) \<Longrightarrow> E (V s')"
  shows "hoare V P m Q E"
  using assms by (simp add: hoare_def)

lemma hoareD:
  assumes "hoare V P m Q E" and "P (V s)"
  shows "m s = (Ok a, s') \<Longrightarrow> Q a (V s')" and "m s = (r, s') \<Longrightarrow> (\<forall>a. r \<noteq> Ok a) \<Longrightarrow> E (V s')"
  using assms by (auto simp: hoare_def)

lemma hoareD_any: "hoare V P m (\<lambda>_. Q) Q \<Longrightarrow> P (V s) \<Longrightarrow> m s = (r, s') \<Longrightarrow> Q (V s')"
  unfolding hoare_def by blast

lemma stableI: "(\<And>s. P (V s) \<Longrightarrow> P (V (snd (m s)))) \<Longrightarrow> stable V P m"
  by (rule hoareI) (metis snd_conv)+

lemma stableD: "stable V P m \<Longrightarrow> P (V s) \<Longrightarrow> P (V (snd (m s)))"
  by (rule hoareD_any [where P = P and s = s and r = "fst (m s)"]) simp_all

lemma hoare_bind:
  assumes "hoare V P m Q E" and "\<And>a. hoare V (Q a) (f a) R E"
  shows "hoare V P (bind_st m f) R E"
proof (rule hoareI)
  fix s b s2 assume P: "P (V s)" and "bind_st m f s = (Ok b, s2)"
  then obtain a s1 where "m s = (Ok a, s1)" "f a s1 = (Ok b, s2)" by (auto simp: bind_st_eq_Ok)
  then show "R b (V s2)" using hoareD(1) [OF assms(1) P] hoareD(1) [OF assms(2)] by blast
next
  fix s r s2 assume P: "P (V s)" and run: "bind_st m f s = (r, s2)" and r: "\<forall>a. r \<noteq> Ok a"
  obtain q s1 where m: "m s = (q, s1)" by fastforce
  show "E (V s2)"
  proof (cases q)
    case (Ok a)
    with run m have "f a s1 = (r, s2)" by (simp add: bind_st_def)
    then show ?thesis using hoareD(1) [OF assms(1) P] m Ok r hoareD(2) [OF assms(2)] by blast
  next
    case (Err e)
    with run m have "s2 = s1" by (simp add: bind_st_def)
    then show ?thesis using hoareD(2) [OF assms(1) P m] Err by simp
  next
    case (Panic p)
    with run m have "s2 = s1" by (simp add: bind_st_def)
    then show ?thesis using hoareD(2) [OF assms(1) P m] Panic by simp
  qed
qed

lemma hoare_then: "hoare V P m (\<lambda>_. Q) E \<Longrightarrow> hoare V Q n R E \<Longrightarrow> hoare V P (then_st m n) R E"
  unfolding then_st_def by (rule hoare_bind)

lemma hoare_weaken:
  assumes "hoare V P m Q E" and "\<And>T. P' T \<Longrightarrow> P T" and "\<And>a T. Q a T \<Longrightarrow> Q' a T" and "\<And>T. E T \<Longrightarrow> E' T"
  shows "hoare V P' m Q' E'"
  by (rule hoareI) (use hoareD [OF assms(1)] assms(2-4) in blast)+

lemma hoare_at: "(\<And>s. P (V s) \<Longrightarrow> hoare V ((=) (V s)) (m s) Q E) \<Longrightarrow> hoare V P (\<lambda>s. m s s) Q E"
  by (auto simp: hoare_def)

lemma hoare_pure: "(R \<Longrightarrow> hoare V P m Q E) \<Longrightarrow> hoare V (\<lambda>T. P T \<and> R) m Q E"
  by (auto simp: hoare_def)

lemma hoare_ret: "(\<And>T. P T \<Longrightarrow> Q a T) \<Longrightarrow> hoare V P (ret a) Q E"
  by (rule hoareI) auto

lemma hoare_reads: "hoare V P (reads g) (\<lambda>a T. P T \<and> (\<exists>s. g s = Ok a)) P"
  by (rule hoareI) auto

lemma hoare_quiet: "quiet V m \<Longrightarrow> (\<And>T. P T \<Longrightarrow> E T) \<Longrightarrow> hoare V P m (\<lambda>_. P) E"
  by (rule hoareI) (metis quiet_def snd_conv)+

lemma stable_quiet: "quiet V m \<Longrightarrow> stable V P m"
  by (rule hoare_quiet)

lemma stable_bind [evo_rules]: "stable V P m \<Longrightarrow> (\<And>a. stable V P (f a)) \<Longrightarrow> stable V P (bind_st m f)"
  by (rule hoare_bind)

lemma stable_then [evo_rules]: "stable V P m \<Longrightarrow> stable V P n \<Longrightarrow> stable V P (then_st m n)"
  by (rule hoare_then)

lemma stable_cases [evo_rules]:
  "stable V P m \<Longrightarrow> stable V P n \<Longrightarrow> stable V P (if b then m else n)"
  "stable V P m \<Longrightarrow> (\<And>a. stable V P (f a)) \<Longrightarrow> stable V P (case x of None \<Rightarrow> m | Some a \<Rightarrow> f a)"
  "(\<And>a b. stable V P (g a b)) \<Longrightarrow> stable V P (case y of (a, b) \<Rightarrow> g a b)"
  "(\<And>e. stable V P (h e)) \<Longrightarrow> (\<And>a. stable V P (k a)) \<Longrightarrow> stable V P (case z of Inl e \<Rightarrow> h e | Inr a \<Rightarrow> k a)"
  by (auto split: option.split prod.split sum.split)

lemma stable_list_pair [evo_rules]:
  "stable V P m \<Longrightarrow> (\<And>a b. stable V P (f a b)) \<Longrightarrow> stable V P (case xs of [a, b] \<Rightarrow> f a b | _ \<Rightarrow> m)"
  by (auto split: list.split)

lemma snd_wrapped' [simp]:
  "snd (map_err_st g m w) = snd (m w)" "snd (unwrap_st m w) = snd (m w)"
  "snd (expect_st p m w) = snd (m w)" "snd (ignore_st m w) = snd (m w)"
  by (auto simp: map_err_st_def unwrap_st_app expect_st_def ignore_st_def split: prod.splits res.splits)

lemma stable_wrapped [evo_rules]:
  "stable V P m \<Longrightarrow> stable V P (map_err_st g m)" "stable V P m \<Longrightarrow> stable V P (unwrap_st m)"
  "stable V P m \<Longrightarrow> stable V P (expect_st p m)" "stable V P m \<Longrightarrow> stable V P (ignore_st m)"
  by (rule stableI, auto dest: stableD)+

lemma stable_for_each: "(\<And>x. x \<in> set xs \<Longrightarrow> stable V P (f x)) \<Longrightarrow> stable V P (try_for_each f xs)"
proof (induction xs)
  case Nil
  then show ?case by (simp add: hoare_def)
next
  case (Cons x xs)
  then show ?case by (auto intro: stable_then)
qed

lemma stable_match:
  assumes "stable V P m" and "\<And>a. stable V P (f a)" and "\<And>e. stable V P (g e)"
  shows "stable V P (\<lambda>w. case m w of (Ok a, w') \<Rightarrow> f a w' | (Err e, w') \<Rightarrow> g e w' | (Panic p, w') \<Rightarrow> (Panic p, w'))"
proof (rule stableI)
  fix s assume "P (V s)"
  with assms show "P (V (snd (case m s of (Ok a, w') \<Rightarrow> f a w' | (Err e, w') \<Rightarrow> g e w' | (Panic p, w') \<Rightarrow> (Panic p, w'))))"
    by (cases "m s"; cases "fst (m s)") (force dest: stableD)+
qed

lemma quiet_basic [quiet_rules]:
  "quiet V (ret a)" "quiet V (reads g)" "quiet V (throw e)" "quiet V (panic q)"
  by (simp_all add: quiet_def)

lemma quiet_wrapped [quiet_rules]:
  "quiet V m \<Longrightarrow> quiet V (map_err_st g m)" "quiet V m \<Longrightarrow> quiet V (unwrap_st m)"
  "quiet V m \<Longrightarrow> quiet V (expect_st p m)" "quiet V m \<Longrightarrow> quiet V (ignore_st m)"
  by (simp_all add: quiet_def)

lemma quiet_bind [quiet_rules]: "quiet V m \<Longrightarrow> (\<And>a. quiet V (f a)) \<Longrightarrow> quiet V (bind_st m f)"
  by (auto simp: quiet_def bind_st_def split: prod.splits res.splits) (metis snd_conv)+

lemma quiet_then [quiet_rules]: "quiet V m \<Longrightarrow> quiet V n \<Longrightarrow> quiet V (then_st m n)"
  unfolding then_st_def by (rule quiet_bind)

lemma quiet_cases [quiet_rules]:
  "quiet V m \<Longrightarrow> quiet V n \<Longrightarrow> quiet V (if b then m else n)"
  "quiet V m \<Longrightarrow> (\<And>a. quiet V (f a)) \<Longrightarrow> quiet V (case x of None \<Rightarrow> m | Some a \<Rightarrow> f a)"
  "(\<And>a b. quiet V (g a b)) \<Longrightarrow> quiet V (case y of (a, b) \<Rightarrow> g a b)"
  by (auto split: option.split prod.split)

lemma quiet_for_each: "(\<And>x. quiet V (f x)) \<Longrightarrow> quiet V (try_for_each f xs)"
  by (induction xs) (auto intro: quiet_rules)

text \<open>The calls of the manager that do not reach the database.\<close>

lemma quiet_world [quiet_rules]:
  "quiet (\<lambda>w. \<alpha> (wdb w)) (from_db h)" "quiet (\<lambda>w. \<alpha> (wdb w)) (on_fs n)"
  "quiet (\<lambda>w. \<alpha> (wdb w)) (k_unit A c)" "quiet (\<lambda>w. \<alpha> (wdb w)) (k_num A c)"
  "quiet (\<lambda>w. \<alpha> (wdb w)) (k_load A b bs)" "quiet (\<lambda>w. \<alpha> (wdb w)) (k_info A q)"
  "quiet (\<lambda>w. \<alpha> (wdb w)) (k_pin A c path)" "quiet (\<lambda>w. \<alpha> (wdb w)) (k_tell ans c)"
  by (auto simp: quiet_def k_defs k_pin_def split: sum.split)

lemma stable_on_db [evo_rules]: "stable \<alpha> P m \<Longrightarrow> stable (\<lambda>w. \<alpha> (wdb w)) P (on_db m)"
  by (rule stableI) (auto dest: stableD)

lemma quiet_on_db [quiet_rules]: "quiet \<alpha> m \<Longrightarrow> quiet (\<lambda>w. \<alpha> (wdb w)) (on_db m)"
  by (simp add: quiet_def)

lemma hoare_on_db: "hoare \<alpha> P m Q E \<Longrightarrow> hoare (\<lambda>w. \<alpha> (wdb w)) P (on_db m) Q E"
  by (rule hoareI) (auto simp: hoare_def prod_eq_iff)


lemmas stable_leaves [evo_rules] = quiet_basic [THEN stable_quiet] quiet_world [THEN stable_quiet]


subsection \<open>The preorder on databases\<close>

text \<open>The names a tree may have.\<close>

definition known_tree :: "string \<Rightarrow> bool" where
  "known_tree t \<longleftrightarrow> t \<in> range prog_tree \<union> range pre_load_tree \<union> range map_tree \<union> {default_tree} \<union>
     range (\<lambda>(i, r). xdp_disp_tree i r) \<union> range (\<lambda>(i, dir, r). tc_disp_tree i dir r) \<union> range show_u32"

abbreviation prog_trees :: "string set" where
  "prog_trees \<equiv> range prog_tree \<union> range pre_load_tree"

abbreviation core :: "string set" where
  "core \<equiv> insert default_tree prog_trees"

abbreviation att_keys :: "string set" where
  "att_keys \<equiv> {XDP_ATTACHED, TC_ATTACHED}"

text \<open>The keys the manager writes in the tree of a program; the others are those of the request.\<close>

definition plain_key :: "string \<Rightarrow> bool" where
  "plain_key k \<longleftrightarrow> k \<in> {NAME, PROGRAM_BYTES, MAP_PIN_PATH, XDP_CURRENT_POSITION, TC_CURRENT_POSITION,
     XDP_IF_INDEX, TC_IF_INDEX} \<or> prefix ''kernel_'' k \<or> prefix PREFIX_MAPS_USED_BY k"

definition fixed_key :: "string \<Rightarrow> bool" where
  "fixed_key k \<longleftrightarrow> \<not> plain_key k \<and> k \<notin> insert ID att_keys"

definition tree_evolves :: "'d host \<Rightarrow> u32 set \<Rightarrow> string \<Rightarrow> tree \<Rightarrow> tree \<Rightarrow> bool" where
  "tree_evolves H F t m m' \<longleftrightarrow>
     (t \<in> range prog_tree \<longrightarrow> m' ID = m ID) \<and>
     (t \<in> range pre_load_tree \<longrightarrow> m' ID = m ID \<or> (\<exists>i \<in> F. m' ID = Some (ne4 H i))) \<and>
     (t \<in> prog_trees \<longrightarrow> (\<forall>k. fixed_key k \<longrightarrow> m' k = m k) \<and>
        (\<forall>k \<in> att_keys. m k = Some (ne_bool H True) \<longrightarrow> m' k = Some (ne_bool H True)))"

text \<open>
  \<open>evolves H F X T T'\<close>: from \<open>T\<close> to \<open>T'\<close> the maps stay, no tree of \<open>X\<close> goes, the trees that come
  have a known name and are not those of programs, and a program that is being loaded takes an id
  of \<open>F\<close>.
\<close>

definition evolves :: "'d host \<Rightarrow> u32 set \<Rightarrow> string set \<Rightarrow> trees \<Rightarrow> trees \<Rightarrow> bool" where
  "evolves H F X T T' \<longleftrightarrow> (\<forall>i. T' (map_tree i) = T (map_tree i)) \<and>
     (\<forall>t. T' t \<noteq> None \<longrightarrow> T t = None \<longrightarrow> known_tree t \<and> t \<notin> prog_trees) \<and>
     (\<forall>t. T t \<noteq> None \<longrightarrow> T' t = None \<longrightarrow> t \<notin> X) \<and>
     (\<forall>t m m'. T t = Some m \<longrightarrow> T' t = Some m' \<longrightarrow> tree_evolves H F t m m')"

lemma evolvesI:
  assumes "\<And>i. T' (map_tree i) = T (map_tree i)"
    and "\<And>t. T' t \<noteq> None \<Longrightarrow> T t = None \<Longrightarrow> known_tree t \<and> t \<notin> prog_trees"
    and "\<And>t. T t \<noteq> None \<Longrightarrow> T' t = None \<Longrightarrow> t \<notin> X"
    and "\<And>t m m'. T t = Some m \<Longrightarrow> T' t = Some m' \<Longrightarrow> tree_evolves H F t m m'"
  shows "evolves H F X T T'"
  using assms unfolding evolves_def by blast

lemma evolvesD:
  assumes "evolves H F X T T'"
  shows "T' (map_tree i) = T (map_tree i)"
    and "T' t \<noteq> None \<Longrightarrow> T t = None \<Longrightarrow> known_tree t \<and> t \<notin> prog_trees"
    and "T t \<noteq> None \<Longrightarrow> T' t = None \<Longrightarrow> t \<notin> X"
    and "T t = Some m \<Longrightarrow> T' t = Some m' \<Longrightarrow> tree_evolves H F t m m'"
  using assms unfolding evolves_def by blast+

text \<open>Which names a substring excludes.\<close>

lemma show_u32_digits: "c \<in> set (show_u32 i) \<Longrightarrow> is_digit c"
  using show_nat_digits [of "unat i"] by (simp add: show_u32_def)

lemma letters_notin_show [simp]: "CHR ''c'' \<notin> set (show_u32 i)" "CHR ''o'' \<notin> set (show_u32 i)"
  using show_u32_digits [of "CHR ''c''" i] show_u32_digits [of "CHR ''o''" i] by (auto simp: is_digit_def)

lemma str_contains_letter: "str_contains s t \<Longrightarrow> c \<in> set t \<Longrightarrow> c \<in> set s"
  by (auto simp: str_contains_def sublist_def)

lemma no_c_in_core: "t \<in> core \<union> range map_tree \<Longrightarrow> CHR ''c'' \<notin> set t"
  by (auto simp: prog_tree_def pre_load_tree_def map_tree_def default_tree_def)

lemma disp_tree_names [simp]:
  "xdp_disp_tree i r \<notin> core" "tc_disp_tree i dir r \<notin> core" "show_u32 i \<notin> core"
  "xdp_disp_tree i r \<notin> range map_tree" "tc_disp_tree i dir r \<notin> range map_tree" "show_u32 i \<notin> range map_tree"
proof -
  have "CHR ''c'' \<in> set (xdp_disp_tree i r)" "CHR ''c'' \<in> set (tc_disp_tree i dir r)"
    by (simp_all add: xdp_disp_tree_def tc_disp_tree_def)
  then show "xdp_disp_tree i r \<notin> core" "tc_disp_tree i dir r \<notin> core"
    "xdp_disp_tree i r \<notin> range map_tree" "tc_disp_tree i dir r \<notin> range map_tree"
    using no_c_in_core by blast+
  have "CHR ''_'' \<in> set t" if "t \<in> core \<union> range map_tree" for t
    using that by (auto simp: prog_tree_def pre_load_tree_def map_tree_def default_tree_def)
  then show "show_u32 i \<notin> core" "show_u32 i \<notin> range map_tree" using underscore_notin_show_u32 by blast+
qed

lemma dispatcher_not_core:
  assumes "dispatcher_tree_prefix did = Some pre" and "str_contains t pre"
  shows "t \<notin> core" and "t \<notin> range map_tree"
proof -
  have "CHR ''c'' \<in> set pre" using assms(1) by (cases did rule: dispatcher_tree_prefix.cases) auto
  then have "CHR ''c'' \<in> set t" using assms(2) by (rule str_contains_letter [rotated])
  then show "t \<notin> core" "t \<notin> range map_tree" using no_c_in_core by blast+
qed

lemma known_program:
  assumes "known_tree t" and "str_contains t PROGRAM_PREFIX"
  shows "t \<in> prog_trees"
proof -
  have "CHR ''o'' \<in> set t" using str_contains_letter [OF assms(2), of "CHR ''o''"] by simp
  moreover have "CHR ''o'' \<notin> set (show_direction dir)" for dir by (cases dir) simp_all
  ultimately show ?thesis
    using assms(1)
    by (auto simp: known_tree_def map_tree_def default_tree_def xdp_disp_tree_def tc_disp_tree_def)
qed

lemma known_tree_intros [simp]:
  "known_tree (prog_tree i)" "known_tree (pre_load_tree i)" "known_tree (map_tree i)" "known_tree default_tree"
  "known_tree (xdp_disp_tree i r)" "known_tree (tc_disp_tree i dir r)" "known_tree (show_u32 i)"
  by (auto simp: known_tree_def image_iff split: prod.splits intro: exI)

lemma known_is_str: "known_tree t \<Longrightarrow> is_str t"
proof -
  have "ascii (show_direction dir)" for dir by (cases dir) simp_all
  then show "known_tree t \<Longrightarrow> is_str t"
    by (auto simp: known_tree_def default_tree_def xdp_disp_tree_def tc_disp_tree_def)
qed

lemma tree_evolves_refl: "tree_evolves H F t m m"
  by (simp add: tree_evolves_def)

lemma tree_evolves_trans:
  assumes "tree_evolves H F t m m'" and "tree_evolves H F t m' m''"
  shows "tree_evolves H F t m m''"
proof -
  have id: "t \<in> range prog_tree \<Longrightarrow> m'' ID = m ID"
    using assms unfolding tree_evolves_def by metis
  have new: "m'' ID = m ID \<or> (\<exists>i \<in> F. m'' ID = Some (ne4 H i))" if "t \<in> range pre_load_tree"
    using assms that unfolding tree_evolves_def by metis
  have "\<And>k. fixed_key k \<Longrightarrow> m'' k = m k" and "\<And>k. k \<in> att_keys \<Longrightarrow> m k = Some (ne_bool H True) \<Longrightarrow> m'' k = Some (ne_bool H True)"
    if "t \<in> prog_trees"
    using assms that unfolding tree_evolves_def by metis+
  with id new show ?thesis unfolding tree_evolves_def by blast
qed

lemma evolves_refl: "evolves H F X T T"
  by (rule evolvesI) (auto simp: tree_evolves_refl)

lemma evolves_trans:
  assumes "evolves H F X T T'" and "evolves H F Y T' T''" and "Y \<subseteq> X"
  shows "evolves H F Y T T''"
proof (rule evolvesI)
  show "T'' (map_tree i) = T (map_tree i)" for i
    using evolvesD(1) [OF assms(1), of i] evolvesD(1) [OF assms(2), of i] by simp
  show "known_tree t \<and> t \<notin> prog_trees" if "T'' t \<noteq> None" "T t = None" for t
    using evolvesD(2) [OF assms(1), of t] evolvesD(2) [OF assms(2), of t] that by (cases "T' t") auto
  show "t \<notin> Y" if "T t \<noteq> None" "T'' t = None" for t
    using evolvesD(3) [OF assms(1), of t] evolvesD(3) [OF assms(2), of t] that assms(3) by (cases "T' t") auto
  show "tree_evolves H F t m m''" if t: "T t = Some m" "T'' t = Some m''" for t m m''
  proof (cases "T' t")
    case None
    with evolvesD(2) [OF assms(2), of t] t show ?thesis by (auto simp: tree_evolves_def)
  next
    case (Some m')
    with evolvesD(4) [OF assms(1) t(1)] evolvesD(4) [OF assms(2) _ t(2)] show ?thesis
      by (blast intro: tree_evolves_trans)
  qed
qed

lemma evolves_mono: "evolves H F X T T' \<Longrightarrow> Y \<subseteq> X \<Longrightarrow> evolves H F Y T T'"
  by (rule evolves_trans [OF _ evolves_refl])

lemma evolves_live: "evolves H F X T T' \<Longrightarrow> t \<in> X \<Longrightarrow> T t \<noteq> None \<Longrightarrow> \<exists>m. T' t = Some m"
  using evolvesD(3) [of H F X T T' t] by (cases "T' t") auto

definition may_write :: "'d host \<Rightarrow> u32 set \<Rightarrow> string \<Rightarrow> string \<Rightarrow> bytes \<Rightarrow> bool" where
  "may_write H F t k v \<longleftrightarrow> t \<notin> range map_tree \<and> (t \<in> range prog_tree \<longrightarrow> k \<noteq> ID) \<and>
     (t \<in> range pre_load_tree \<longrightarrow> k = ID \<longrightarrow> (\<exists>i \<in> F. v = ne4 H i)) \<and>
     (t \<in> prog_trees \<longrightarrow> \<not> fixed_key k \<and> (k \<in> att_keys \<longrightarrow> v = ne_bool H True))"

lemma evolves_insert:
  assumes "T t = Some m" and "may_write H F t k v"
  shows "evolves H F X T (T(t \<mapsto> m(k \<mapsto> v)))"
proof (rule evolvesI)
  show "(T(t \<mapsto> m(k \<mapsto> v))) (map_tree i) = T (map_tree i)" for i
    using assms(2) by (auto simp: may_write_def)
  show "tree_evolves H F s m1 m2" if "T s = Some m1" "(T(t \<mapsto> m(k \<mapsto> v))) s = Some m2" for s m1 m2
  proof (cases "s = t")
    case True
    then have "m1 = m" "m2 = m(k \<mapsto> v)" using that assms(1) by auto
    then show ?thesis using assms(2) True by (auto simp: may_write_def tree_evolves_def)
  next
    case False
    then show ?thesis using that by (simp add: tree_evolves_refl)
  qed
qed (use assms(1) in \<open>auto split: if_splits\<close>)

lemma evolves_open:
  assumes "T t = None" and "known_tree t" and "t \<notin> prog_trees" and "t \<notin> range map_tree"
  shows "evolves H F X T (T(t \<mapsto> m))"
  by (rule evolvesI) (use assms in \<open>auto simp: tree_evolves_refl split: if_splits\<close>)

lemma evolves_drop: "t \<notin> X \<Longrightarrow> t \<notin> range map_tree \<Longrightarrow> evolves H F X T (T(t := None))"
  by (rule evolvesI) (auto simp: tree_evolves_refl split: if_splits)


subsection \<open>Operations on one tree\<close>

lemma plain_write: "plain_key k \<Longrightarrow> t \<notin> range map_tree \<Longrightarrow> may_write H F t k v"
  by (auto simp: fixed_key_def may_write_def plain_key_def)

lemma disp_write: "t \<notin> prog_trees \<Longrightarrow> t \<notin> range map_tree \<Longrightarrow> may_write H F t k v"
  by (simp add: may_write_def)

lemma plain_numbered [simp]: "plain_key (PREFIX_KERNEL_MAP_IDS @ k)"
  by (simp add: plain_key_def prefix_defs)

lemma fixed_kind [simp]: "fixed_key KIND" "fixed_key UPROBE_OFFSET" "fixed_key FENTRY_FN_NAME" "fixed_key MAP_OWNER_ID"
  by (simp_all add: fixed_key_def plain_key_def)

lemma not_fixed [simp]: "\<not> fixed_key ID" "\<not> fixed_key XDP_ATTACHED" "\<not> fixed_key TC_ATTACHED"
  by (simp_all add: fixed_key_def)

context store
begin

lemma insert_evo:
  assumes "t \<in> X" and "T0 t \<noteq> None" and "may_write H F t k v"
  shows "stable \<alpha> (evolves H F X T0) (sled_insert H t k v)"
proof (rule stableI)
  fix d assume e: "evolves H F X T0 (\<alpha> d)"
  then obtain m where m: "\<alpha> d t = Some m" using evolves_live [OF e assms(1, 2)] by blast
  then have "\<alpha> (snd (sled_insert H t k v d)) = (\<alpha> d)(t \<mapsto> m(k \<mapsto> v))" by (simp add: sled_insert_def)
  then show "evolves H F X T0 (\<alpha> (snd (sled_insert H t k v d)))"
    using evolves_trans [OF e evolves_insert [of "\<alpha> d" t m, OF m assms(3)] subset_refl] by simp
qed

lemma root_insert_evo:
  assumes "default_tree \<in> X" and "T0 default_tree \<noteq> None"
  shows "stable \<alpha> (evolves H F X T0) (root_insert H k v)"
proof (rule stableI)
  fix d assume e: "evolves H F X T0 (\<alpha> d)"
  then obtain m where m: "\<alpha> d default_tree = Some m" using evolves_live [OF e assms] by blast
  have w: "may_write H F default_tree k v" by (auto simp: may_write_def)
  have "\<alpha> (snd (root_insert H k v d)) = (\<alpha> d)(default_tree \<mapsto> m(k \<mapsto> v))" using m by simp
  then show "evolves H F X T0 (\<alpha> (snd (root_insert H k v d)))"
    using evolves_trans [OF e evolves_insert [of "\<alpha> d" default_tree m, OF m w] subset_refl] by simp
qed

lemma open_evo:
  assumes "known_tree t" and "t \<notin> prog_trees" and "t \<notin> range map_tree"
  shows "stable \<alpha> (evolves H F X T0) (open_tree H msg t)"
proof (rule stableI)
  fix d assume e: "evolves H F X T0 (\<alpha> d)"
  show "evolves H F X T0 (\<alpha> (snd (open_tree H msg t d)))"
  proof (cases "\<alpha> d t")
    case None
    then have "\<alpha> (snd (open_tree H msg t d)) = (\<alpha> d)(t \<mapsto> Map.empty)" by (simp add: open_tree_def)
    then show ?thesis using evolves_trans [OF e evolves_open [of "\<alpha> d" t, OF None assms] subset_refl] by simp
  next
    case (Some m)
    then show ?thesis using e abs_opened_old [OF Some] by (simp add: open_tree_def)
  qed
qed

lemma drop_evo:
  assumes "t \<notin> X" and "t \<notin> range map_tree" and "t \<noteq> default_tree"
  shows "stable \<alpha> (evolves H F X T0) (drop_dispatcher_tree H msg t)"
    and "stable \<alpha> (evolves H F X T0) (\<lambda>d. case db_drop_tree H t d of Inl e \<Rightarrow> (Err e, d) | Inr d' \<Rightarrow> (Ok (), d'))"
  using evolves_trans [OF _ evolves_drop [OF assms(1, 2)] subset_refl] assms(3)
  by (auto simp: drop_dispatcher_tree_def intro!: stableI)

lemma insert_numbered_evo:
  assumes "t \<in> X" and "T0 t \<noteq> None" and "t \<notin> range map_tree" and "\<And>n. plain_key (p @ n)"
  shows "stable \<alpha> (evolves H F X T0) (insert_numbered H t p vs)"
  unfolding insert_numbered_def by (rule stable_for_each, rule insert_evo) (use assms in \<open>auto intro: plain_write\<close>)

text \<open>The information of the kernel goes into a tree that is not that of a loaded program.\<close>

lemma set_kernel_info_evo:
  assumes "db_tree pd \<in> X" and "T0 (db_tree pd) \<noteq> None" and "db_tree pd \<notin> range map_tree"
    and "db_tree pd \<notin> range prog_tree" and "api_id info \<in> F"
  shows "stable \<alpha> (evolves H F X T0) (set_kernel_info H pd info)"
proof -
  have "stable \<alpha> (evolves H F X T0) (sled_insert H (db_tree pd) k v)" if "plain_key k" for k v
    using insert_evo [of "db_tree pd" X T0, OF assms(1, 2)] plain_write [OF that assms(3)] by blast
  note plain = this
  have id: "stable \<alpha> (evolves H F X T0) (set_id H pd (api_id info))"
    unfolding set_id_def
    by (rule insert_evo [of "db_tree pd" X T0, OF assms(1, 2)]) (use assms(3-5) in \<open>auto simp: may_write_def\<close>)
  have ids: "stable \<alpha> (evolves H F X T0) (set_kernel_map_ids H pd ids)" for ids
    unfolding set_kernel_map_ids_def by (rule insert_numbered_evo [of "db_tree pd" X T0, OF assms(1-3)]) simp
  show ?thesis
    unfolding set_kernel_info_def set_kernel_name_def set_kernel_program_type_def set_kernel_loaded_at_def
      set_kernel_tag_def set_kernel_gpl_compatible_def set_kernel_btf_id_def set_kernel_bytes_xlated_def
      set_kernel_jited_def set_kernel_bytes_jited_def set_kernel_bytes_memlock_def set_kernel_verified_insns_def
    by (intro evo_rules id ids plain; simp add: plain_key_def)
qed


subsection \<open>Images and program bytes\<close>

lemma pull_image_evo:
  assumes "default_tree \<in> X" and "T0 default_tree \<noteq> None"
  shows "stable \<alpha> (evolves H F X T0) (pull_image H C img key user pass)"
  unfolding pull_image_def Let_def by (intro evo_rules root_insert_evo assms)

lemma get_image_evo:
  assumes "default_tree \<in> X" and "T0 default_tree \<noteq> None"
  shows "stable \<alpha> (evolves H F X T0) (get_image H C im url policy user pass)"
proof -
  have "stable \<alpha> P (case policy of ImagePullPolicy_Always \<Rightarrow> l | ImagePullPolicy_IfNotPresent \<Rightarrow> m | ImagePullPolicy_Never \<Rightarrow> n)"
    if "stable \<alpha> P l" "stable \<alpha> P m" "stable \<alpha> P n"
    for P and l m n :: "('d, image_error, container_image_metadata) st"
    using that by (cases policy) simp_all
  note policy = this
  show ?thesis unfolding get_image_def Let_def by (intro evo_rules policy pull_image_evo assms)
qed

lemma location_get_program_bytes_evo:
  assumes "default_tree \<in> X" and "T0 default_tree \<noteq> None"
  shows "stable \<alpha> (evolves H F X T0) (location_get_program_bytes H C open_file im loc)"
  unfolding location_get_program_bytes_def
  by (cases loc) (simp_all, (intro evo_rules get_image_evo assms)+)

lemma set_program_bytes_evo:
  assumes "default_tree \<in> X" and "T0 default_tree \<noteq> None"
    and "db_tree pd \<in> X" and "T0 (db_tree pd) \<noteq> None" and "db_tree pd \<notin> range map_tree"
  shows "stable \<alpha> (evolves H F X T0) (set_program_bytes H C open_file im pd)"
proof -
  have "stable \<alpha> (evolves H F X T0) (sled_insert H (db_tree pd) k v)" if "plain_key k" for k v
    using insert_evo [of "db_tree pd" X T0, OF assms(3, 4)] plain_write [OF that assms(5)] by blast
  note plain = this
  have "stable \<alpha> P (case loc of Location_Image l \<Rightarrow> m l | Location_File l \<Rightarrow> ret ())"
    if "\<And>l. stable \<alpha> P (m l)" for P loc and m :: "bytecode_image \<Rightarrow> ('d, bpfman_error, unit) st"
    using that by (cases loc) (simp_all add: evo_rules)
  note loc = this
  show ?thesis
    unfolding set_program_bytes_def set_name_def
    by (intro evo_rules loc plain location_get_program_bytes_evo assms; simp add: plain_key_def)
qed

end


subsection \<open>The invariant of the database\<close>

text \<open>
  Every tree has a known name, a program tree has its id, a supported kind and, for a program of an
  interface, is attached, and every map tree lists its users, of which there is one at least.
\<close>

definition attached_ok :: "'d host \<Rightarrow> tree \<Rightarrow> bool" where
  "attached_ok H m \<longleftrightarrow>
     (m KIND = Some (ne4 H (program_type_to_u32 ProgramType_Xdp)) \<longrightarrow> m XDP_ATTACHED = Some (ne_bool H True)) \<and>
     (m KIND = Some (ne4 H (program_type_to_u32 ProgramType_Tc)) \<longrightarrow> m TC_ATTACHED = Some (ne_bool H True))"

definition wf_db :: "'d host \<Rightarrow> trees \<Rightarrow> bool" where
  "wf_db H T \<longleftrightarrow> (\<forall>t. T t \<noteq> None \<longrightarrow> known_tree t) \<and> T default_tree \<noteq> None \<and>
     (\<forall>i m. T (prog_tree i) = Some m \<longrightarrow> prog_ok H i m \<and> attached_ok H m) \<and>
     (\<exists>U. maps_abs H T U \<and> no_orphans U)"

lemma wf_db_inv: "wf_db H T \<Longrightarrow> maps_abs H T U \<Longrightarrow> db_inv H T U"
  by (auto simp: wf_db_def db_inv_def programs_ok_def known_is_str)

lemma tree_evolves_prog:
  assumes "tree_evolves H F (prog_tree i) m m'" and "prog_ok H i m" and "attached_ok H m"
  shows "prog_ok H i m' \<and> attached_ok H m'"
proof -
  have "m' ID = m ID" "m' KIND = m KIND"
    "m XDP_ATTACHED = Some (ne_bool H True) \<Longrightarrow> m' XDP_ATTACHED = Some (ne_bool H True)"
    "m TC_ATTACHED = Some (ne_bool H True) \<Longrightarrow> m' TC_ATTACHED = Some (ne_bool H True)"
    using assms(1) by (simp_all add: tree_evolves_def)
  then show ?thesis using assms(2, 3) by (simp add: prog_ok_def attached_ok_def)
qed

lemma evolves_maps_abs: "evolves H F X T T' \<Longrightarrow> maps_abs H T' U = maps_abs H T U"
  by (rule maps_abs_cong) (rule evolvesD(1))

lemma wf_evolves:
  assumes "wf_db H T" and "evolves H F X T T'" and "default_tree \<in> X"
  shows "wf_db H T'"
proof -
  have "prog_ok H i m' \<and> attached_ok H m'" if m': "T' (prog_tree i) = Some m'" for i m'
  proof -
    obtain m where m: "T (prog_tree i) = Some m"
      using evolvesD(2) [OF assms(2), of "prog_tree i"] m' by (cases "T (prog_tree i)") auto
    from evolvesD(4) [OF assms(2) m m'] assms(1) m show ?thesis
      by (intro tree_evolves_prog [of H F i m]) (auto simp: wf_db_def)
  qed
  moreover have "known_tree t" if "T' t \<noteq> None" for t
    using evolvesD(2) [OF assms(2) that] assms(1) by (cases "T t") (auto simp: wf_db_def)
  moreover have "T' default_tree \<noteq> None"
    using evolves_live [OF assms(2, 3)] assms(1) by (auto simp: wf_db_def)
  ultimately show ?thesis
    using assms(1) evolves_maps_abs [OF assms(2)] by (auto simp: wf_db_def)
qed


subsection \<open>Scans\<close>

text \<open>A tree that a program of an interface may be loaded from or attached again from.\<close>

definition ext_ok :: "'d host \<Rightarrow> trees \<Rightarrow> string \<Rightarrow> program_data \<Rightarrow> bool" where
  "ext_ok H T key pd \<longleftrightarrow> db_tree pd \<in> prog_trees \<and>
     (\<exists>m. T (db_tree pd) = Some m \<and> (db_tree pd \<in> range prog_tree \<longrightarrow> m key = Some (ne_bool H True)))"

fun prog_ready :: "'d host \<Rightarrow> trees \<Rightarrow> program \<Rightarrow> bool" where
  "prog_ready H T (Program_Xdp x) = ext_ok H T XDP_ATTACHED (xdp_data x)"
| "prog_ready H T (Program_Tc x) = ext_ok H T TC_ATTACHED (tc_data x)"
| "prog_ready H T _ = True"

lemma new_from_db_data:
  assumes "new_from_db H i t d = Ok p"
  shows "program_get_data p = \<lparr>db_tree = t\<rparr>"
proof -
  let ?data = "new_empty t"
  obtain kind where kind: "get_kind H ?data d = Ok (Some kind)"
    using assms by (auto simp: new_from_db_def Let_def bind_res_eq_Ok split: if_split_asm option.split_asm)
  obtain i' where "get_id H ?data d = Ok i'"
    using assms by (auto simp: new_from_db_def Let_def bind_res_eq_Ok)
  with kind assms show ?thesis
    by (cases kind) (auto simp: new_from_db_def Let_def new_empty_def bind_res_eq_Ok split: if_split_asm)
qed

context store
begin

lemma get_by_id_abs: "\<alpha> (snd (get_by_id H i d)) = \<alpha> d"
proof (cases "\<alpha> d (prog_tree i)")
  case None
  then show ?thesis by (simp add: get_by_id_none)
next
  case (Some m)
  then show ?thesis
    by (simp add: get_by_id_def Let_def in_names then_st_def bind_st_def abs_opened_old [OF Some] del: abs_opened)
qed

lemma program_of_tree_abs: "\<alpha> d t \<noteq> None \<Longrightarrow> \<alpha> (snd (program_of_tree H t d)) = \<alpha> d"
  by (auto simp: program_of_tree_def bind_st_def then_st_def abs_opened_old split: res.split simp del: abs_opened)

lemma program_of_tree_Ok:
  assumes "(program_of_tree H t d :: ('e, u32 \<times> program) res \<times> 'd) = (Ok (i, p), d')" and "\<alpha> d t \<noteq> None"
  shows "\<exists>d1. \<alpha> d1 = \<alpha> d \<and> new_from_db H i t d1 = Ok p"
  using assms
  by (auto simp: program_of_tree_def bind_st_eq_Ok then_st_eq_Ok ok_map_eq_Ok abs_opened_old
      simp del: abs_opened intro!: exI [of _ "opened H t d"])

lemma new_from_db_ready:
  assumes "wf_db H (\<alpha> d)" and "\<alpha> d t = Some m" and "t \<in> prog_trees" and "new_from_db H i t d = Ok p"
  shows "prog_ready H (\<alpha> d) p"
proof (cases "t \<in> range prog_tree")
  case True
  then obtain j where t: "t = prog_tree j" by blast
  with assms(1, 2) have ok: "prog_ok H j m" "attached_ok H m" by (auto simp: wf_db_def)
  then obtain kind where kind: "m ID = Some (ne4 H j)" "m KIND = Some (ne4 H (program_type_to_u32 kind))"
    by (auto simp: prog_ok_def)
  have "get_id H (new_empty t) d = Ok j" using assms(2) kind(1) by (simp add: get_id_def new_empty_def)
  then have "j = i" using assms(4) by (auto simp: new_from_db_def Let_def split: if_splits)
  with assms(2, 4) kind have "program_of_kind kind t m = Ok p" using new_from_db_kind by simp
  then show ?thesis
    using ok(2) kind(2) assms(2, 3)
    by (auto simp: program_of_kind_def ext_ok_def attached_ok_def split: program_type.splits if_splits)
next
  case False
  have "program_get_data p = \<lparr>db_tree = t\<rparr>" by (rule new_from_db_data [OF assms(4)])
  with False assms(2, 3) show ?thesis by (cases p) (auto simp: ext_ok_def)
qed


text \<open>Scanning and looking up only opens trees that exist.\<close>

lemma program_of_tree_triple:
  assumes "T t \<noteq> None" and "t \<in> prog_trees" and "wf_db H T"
  shows "hoare \<alpha> ((=) T) (program_of_tree H t) (\<lambda>ip T'. T = T' \<and> prog_ready H T (snd ip)) ((=) T)"
proof (rule hoareI)
  fix d ip d' assume T: "T = \<alpha> d" and run: "program_of_tree H t d = (Ok ip, d')"
  obtain d1 where "\<alpha> d1 = \<alpha> d" "new_from_db H (fst ip) t d1 = Ok (snd ip)"
    using program_of_tree_Ok [of t d "fst ip" "snd ip" d'] run assms(1) T by auto
  moreover obtain m where "\<alpha> d1 t = Some m" using calculation(1) assms(1) T by auto
  ultimately have "prog_ready H (\<alpha> d1) (snd ip)" using new_from_db_ready assms(2, 3) T by metis
  then show "T = \<alpha> d' \<and> prog_ready H T (snd ip)"
    using program_of_tree_abs [of d t] run assms(1) T \<open>\<alpha> d1 = \<alpha> d\<close> by (metis snd_conv)
next
  fix d and r :: "('b, u32 \<times> program) res" and d'
  assume "T = \<alpha> d" "program_of_tree H t d = (r, d')"
  then show "T = \<alpha> d'" using program_of_tree_abs [of d t] assms(1) by (metis snd_conv)
qed

lemma scan_programs_triple:
  assumes "set ts \<subseteq> dom T" and "wf_db H T"
  shows "hoare \<alpha> ((=) T) (scan_programs H keep ts)
    (\<lambda>ips T'. T = T' \<and> (\<forall>ip \<in> set ips. prog_ready H T (snd ip))) ((=) T)"
  using assms(1)
proof (induction ts)
  case Nil
  then show ?case by (auto intro: hoareI)
next
  case (Cons t ts)
  have IH: "hoare \<alpha> ((=) T) (scan_programs H keep ts)
      (\<lambda>ips T'. T = T' \<and> (\<forall>ip \<in> set ips. prog_ready H T (snd ip))) ((=) T)" using Cons by simp
  have t: "T t \<noteq> None" "known_tree t" using Cons.prems assms(2) by (auto simp: wf_db_def)
  have pt: "hoare \<alpha> ((=) T) (program_of_tree H t) (\<lambda>ip T'. T = T' \<and> prog_ready H T (snd ip)) ((=) T)"
    if "str_contains t PROGRAM_PREFIX"
    using program_of_tree_triple [of T t, OF t(1) known_program [OF t(2) that] assms(2)] .
  have rest: "hoare \<alpha> ((=) T)
      (bind_st (reads (keep (snd ip))) (\<lambda>k. bind_st (scan_programs H keep ts) (\<lambda>rest. ret (if k then ip # rest else rest))))
      (\<lambda>ips T'. T = T' \<and> (\<forall>ip \<in> set ips. prog_ready H T (snd ip))) ((=) T)" if "prog_ready H T (snd ip)" for ip
    by (rule hoare_bind [OF hoare_quiet [OF quiet_basic(2)]], assumption, rule hoare_bind [OF IH], rule hoare_ret)
      (use that in auto)
  have "hoare \<alpha> ((=) T) (bind_st (program_of_tree H t) (\<lambda>ip. bind_st (reads (keep (snd ip))) (\<lambda>k.
      bind_st (scan_programs H keep ts) (\<lambda>rest. ret (if k then ip # rest else rest)))))
      (\<lambda>ips T'. T = T' \<and> (\<forall>ip \<in> set ips. prog_ready H T (snd ip))) ((=) T)" if "str_contains t PROGRAM_PREFIX"
    by (rule hoare_bind [OF pt [OF that]], rule hoare_pure, rule rest)
  then show ?case using IH known_is_str [OF t(2)] by simp
qed

lemma filter_programs_triple:
  assumes "wf_db H T"
  shows "hoare \<alpha> ((=) T) (filter_programs H pt ix dir :: ('d, 'e, program list) st)
    (\<lambda>ps T'. T = T' \<and> (\<forall>p \<in> set ps. prog_ready H T p)) ((=) T)"
proof -
  let ?scan = "\<lambda>d. scan_programs H (filter_keeps H pt ix dir) (db_tree_names H d) :: ('d, 'e, (u32 \<times> program) list) st"
  have names: "\<alpha> d = T \<Longrightarrow> set (db_tree_names H d) \<subseteq> dom T" for d by (auto simp: names_set)
  have "hoare \<alpha> ((=) T) (\<lambda>d. ?scan d d) (\<lambda>ips T'. T = T' \<and> (\<forall>ip \<in> set ips. prog_ready H T (snd ip))) ((=) T)"
    by (rule hoare_at, simp, rule scan_programs_triple) (use names assms in auto)
  then have "hoare \<alpha> ((=) T) (bind_st (\<lambda>d. ?scan d d) (\<lambda>ips. ret (map snd ips)))
    (\<lambda>ps T'. T = T' \<and> (\<forall>p \<in> set ps. prog_ready H T p)) ((=) T)"
    by (rule hoare_bind) (rule hoare_ret, auto)
  then show ?thesis
    by (rule back_subst [of "\<lambda>m. hoare \<alpha> ((=) T) m _ _"]) (auto simp: filter_programs_def bind_st_def fun_eq_iff)
qed

end

fun dispatcher_tree :: "dispatcher \<Rightarrow> string" where
  "dispatcher_tree (Dispatcher_Xdp x) = xd_tree x"
| "dispatcher_tree (Dispatcher_Tc x) = td_tree x"

definition droppable :: "dispatcher \<Rightarrow> bool" where
  "droppable x \<longleftrightarrow> dispatcher_tree x \<notin> core \<and> dispatcher_tree x \<notin> range map_tree"

lemma find_tree_Some: "find_tree P ns = Ok (Some t) \<Longrightarrow> t \<in> set ns \<and> (is_str t \<longrightarrow> P t)"
  by (induction ns) (auto simp: bind_res_eq_Ok split: if_splits)

lemma dispatcher_from_tree: "dispatcher_new_from_db t = Ok x \<Longrightarrow> dispatcher_tree x = t"
  by (auto simp: dispatcher_new_from_db_def ok_map_eq_Ok xd_new_from_db_def td_new_from_db_def)

context store
begin

lemma get_dispatcher_triple:
  assumes "wf_db H T"
  shows "hoare \<alpha> ((=) T) (get_dispatcher H did) (\<lambda>disp T'. T = T' \<and> (\<forall>x. disp = Some x \<longrightarrow> droppable x)) ((=) T)"
proof (cases "dispatcher_tree_prefix did")
  case None
  then show ?thesis by (simp add: get_dispatcher_def hoare_ret)
next
  case (Some pre)
  let ?find = "\<lambda>d. find_tree (\<lambda>s. str_contains s pre) (db_tree_names H d)"
  have found: "hoare \<alpha> ((=) T) (reads ?find)
      (\<lambda>n T'. T = T' \<and> (\<forall>t. n = Some t \<longrightarrow> T t \<noteq> None \<and> str_contains t pre)) ((=) T)"
    by (rule hoareI) (use assms in \<open>auto simp: in_names wf_db_def known_is_str dest!: find_tree_Some\<close>)
  have "hoare \<alpha> ((=) T) (then_st (open_tree H msg t) (reads (\<lambda>_. ok_map Some (dispatcher_new_from_db t))))
      (\<lambda>disp T'. T = T' \<and> (\<forall>x. disp = Some x \<longrightarrow> droppable x)) ((=) T)"
    if t: "T t \<noteq> None" "str_contains t pre" for t msg
  proof (rule hoare_then [where Q = "(=) T"])
    show "hoare \<alpha> ((=) T) (open_tree H msg t) (\<lambda>_. (=) T) ((=) T)"
      by (rule stableI) (use t(1) abs_opened_old in \<open>auto simp: open_tree_def simp del: abs_opened\<close>)
    show "hoare \<alpha> ((=) T) (reads (\<lambda>_. ok_map Some (dispatcher_new_from_db t)))
      (\<lambda>disp T'. T = T' \<and> (\<forall>x. disp = Some x \<longrightarrow> droppable x)) ((=) T)"
      by (rule hoareI) (use dispatcher_not_core [OF Some t(2)] in
        \<open>auto simp: ok_map_eq_Ok droppable_def dest!: dispatcher_from_tree\<close>)
  qed
  then show ?thesis
    unfolding get_dispatcher_def Some option.case
    by (intro hoare_bind [OF found]) (auto intro!: hoare_ret hoare_pure split: option.split)
qed

lemma num_attached_triple:
  assumes "wf_db H T"
  shows "hoare \<alpha> ((=) T) (num_attached_programs H did) (\<lambda>_. (=) T) ((=) T)"
  unfolding num_attached_programs_def
  by (rule hoare_bind [OF get_dispatcher_triple [OF assms]])
    (auto intro!: hoare_pure evo_rules split: option.split)


end

text \<open>From the exact database to an evolution of an earlier one, and back.\<close>

lemma hoare_rebase:
  assumes "\<And>T. evolves H F X T0 T \<Longrightarrow> hoare V ((=) T) m (\<lambda>_. evolves H F X T) (evolves H F Y T)" and "Y \<subseteq> X"
  shows "hoare V (evolves H F X T0) m (\<lambda>_. evolves H F X T0) (evolves H F Y T0)"
proof (rule hoareI)
  fix s a s' assume e: "evolves H F X T0 (V s)" and run: "m s = (Ok a, s')"
  have "evolves H F X (V s) (V s')" by (rule hoareD(1) [OF assms(1) [OF e] refl run])
  with e show "evolves H F X T0 (V s')" by (rule evolves_trans) simp
next
  fix s r s' assume e: "evolves H F X T0 (V s)" and run: "m s = (r, s')" "\<forall>a. r \<noteq> Ok a"
  have "evolves H F Y (V s) (V s')" by (rule hoareD(2) [OF assms(1) [OF e] refl run])
  with e show "evolves H F Y T0 (V s')" using assms(2) by (rule evolves_trans)
qed

lemma hoare_exact: "hoare V (evolves H F X T) m Q E \<Longrightarrow> hoare V ((=) T) m Q E"
  by (erule hoare_weaken) (auto simp: evolves_refl)

lemma hoare_exact_quiet: "hoare V ((=) T) m Q ((=) T) \<Longrightarrow> hoare V ((=) T) m Q (evolves H F X T)"
  by (erule hoare_weaken) (auto simp: evolves_refl)

lemma set_sorted: "set (map snd (sort_key fst (zip ks ps))) \<subseteq> set ps"
  by (auto dest: set_zip_rightD)

lemma sort_programs_set: "sort_programs H ps d = Ok qs \<Longrightarrow> set qs \<subseteq> set ps"
  using set_sorted by (fastforce simp: sort_programs_def ok_map_eq_Ok split: if_splits)

lemma sort_by_position_set: "sort_by_position pos ps d = Ok qs \<Longrightarrow> set qs \<subseteq> set ps"
  using set_sorted by (fastforce simp: sort_by_position_def ok_map_eq_Ok split: if_splits)

lemma prog_tree_not_map: "t \<in> prog_trees \<Longrightarrow> t \<notin> range map_tree"
  by auto

context store
begin

lemma ext_insert_evo:
  assumes "ext_ok H T0 key pd" and "core \<subseteq> X" and "plain_key k"
  shows "stable \<alpha> (evolves H F X T0) (sled_insert H (db_tree pd) k v)"
proof (rule insert_evo)
  show "may_write H F (db_tree pd) k v"
    by (rule plain_write [OF assms(3) prog_tree_not_map]) (use assms(1) in \<open>simp add: ext_ok_def\<close>)
qed (use assms(1, 2) in \<open>auto simp: ext_ok_def\<close>)

lemma write_positions_evo:
  assumes "\<forall>p \<in> set ps. prog_ready H T0 p" and "core \<subseteq> X"
  shows "stable \<alpha> (evolves H F X T0) (write_positions H ps)"
proof -
  have "stable \<alpha> (evolves H F X T0) (program_set_position H p n)" if "p \<in> set ps" for p n
  proof -
    have "prog_ready H T0 p" using assms(1) that by blast
    then show ?thesis
      by (cases p) (simp_all add: xdp_set_current_position_def tc_set_current_position_def plain_key_def evo_rules
          ext_insert_evo [OF _ assms(2)])
  qed
  then show ?thesis
    unfolding write_positions_def
    by (intro stable_for_each) (auto simp: in_set_enumerate_eq intro!: stable_wrapped)
qed

lemma scan_positions_evo:
  assumes "wf_db H T0" and "core \<subseteq> X"
  shows "stable \<alpha> (evolves H F X T0) (bind_st (filter_programs H pt ix dir) (\<lambda>es.
      bind_st (reads (sort_programs H es)) (write_positions H)) :: ('d, 'e, unit) st)"
proof (rule hoare_rebase [OF _ subset_refl])
  fix T assume T: "evolves H F X T0 T"
  have wf: "wf_db H T" using wf_evolves [OF assms(1) T] assms(2) by simp
  have sorted: "hoare \<alpha> ((=) T) (bind_st (reads (sort_programs H es)) (write_positions H) :: ('d, 'e, unit) st)
        (\<lambda>_. evolves H F X T) (evolves H F X T)" if "\<forall>p \<in> set es. prog_ready H T p" for es
  proof (rule hoare_bind [OF hoare_exact_quiet [OF hoare_reads]], rule hoare_pure)
    fix qs assume "\<exists>d. (sort_programs H es d :: ('e, program list) res) = Ok qs"
    then have "\<forall>p \<in> set qs. prog_ready H T p" using that sort_programs_set by fast
    then have "stable \<alpha> (evolves H F X T) (write_positions H qs :: ('d, 'e, unit) st)"
      by (rule write_positions_evo [OF _ assms(2)])
    then show "hoare \<alpha> ((=) T) (write_positions H qs :: ('d, 'e, unit) st) (\<lambda>_. evolves H F X T) (evolves H F X T)"
      by (rule hoare_exact)
  qed
  show "hoare \<alpha> ((=) T) (bind_st (filter_programs H pt ix dir) (\<lambda>es.
      bind_st (reads (sort_programs H es)) (write_positions H)) :: ('d, 'e, unit) st) (\<lambda>_. evolves H F X T) (evolves H F X T)"
    by (rule hoare_bind [OF hoare_exact_quiet [OF filter_programs_triple [OF wf]]], rule hoare_pure, rule sorted)
qed

lemma positions_evo:
  assumes "wf_db H T0" and "core \<subseteq> X"
  shows "stable \<alpha> (evolves H F X T0) (set_program_positions H pt ix dir)"
    and "stable \<alpha> (evolves H F X T0) (add_and_set_program_positions H program)"
proof -
  show "stable \<alpha> (evolves H F X T0) (set_program_positions H pt ix dir)"
    unfolding set_program_positions_def by (rule scan_positions_evo [OF assms])
  show "stable \<alpha> (evolves H F X T0) (add_and_set_program_positions H program)"
    unfolding add_and_set_program_positions_def
    by (rule stable_bind, rule stable_leaves)+ (rule scan_positions_evo [OF assms])
qed

end


subsection \<open>Loading and attaching programs\<close>

text \<open>The ids the kernel reports in a request.\<close>

definition reports :: "aya \<Rightarrow> u32 set \<Rightarrow> bool" where
  "reports A F \<longleftrightarrow> (\<forall>l p info. a_info A l p = Inr info \<longrightarrow> api_id info \<in> F)"

lemma stable_info_bind:
  assumes "reports A F" and "\<And>info. api_id info \<in> F \<Longrightarrow> stable (\<lambda>w. \<alpha> (wdb w)) P (f info)"
  shows "stable (\<lambda>w. \<alpha> (wdb w)) P (bind_st (map_err_st g (k_info A p)) f)"
proof (rule hoare_bind)
  show "hoare (\<lambda>w. \<alpha> (wdb w)) P (map_err_st g (k_info A p)) (\<lambda>info T. P T \<and> api_id info \<in> F) P"
    using assms(1) by (intro hoareI) (auto simp: map_err_st_def k_info_def reports_def split: prod.splits)
  show "hoare (\<lambda>w. \<alpha> (wdb w)) (\<lambda>T. P T \<and> api_id info \<in> F) (f info) (\<lambda>_. P) P" for info
    by (rule hoare_pure) (rule assms(2))
qed

context store
begin

lemma pin_maps_quiet: "quiet (\<lambda>w. \<alpha> (wdb w)) (pin_maps A obj dir)"
  unfolding pin_maps_def by (intro quiet_for_each quiet_rules)

lemma pin_own_maps_evo:
  assumes "e_db E = H" and "db_tree pd \<in> X" and "T0 (db_tree pd) \<noteq> None" and "db_tree pd \<notin> range map_tree"
  shows "stable (\<lambda>w. \<alpha> (wdb w)) (evolves H F X T0) (pin_own_maps E pd i obj)"
proof -
  have "stable \<alpha> (evolves H F X T0) (set_map_pin_path H pd dir)" for dir
    unfolding set_map_pin_path_def
    by (rule insert_evo [of "db_tree pd" X T0, OF assms(2, 3)], rule plain_write [OF _ assms(4)]) (simp add: plain_key_def)
  then show ?thesis
    unfolding pin_own_maps_def Let_def assms(1)
    by (intro evo_rules stable_quiet [OF pin_maps_quiet])
qed

lemma attach_pinned_quiet: "quiet (\<lambda>w. \<alpha> (wdb w)) (attach_pinned E disp base ix rv n pd)"
  unfolding attach_pinned_def Let_def by (intro quiet_rules)

lemma attach_new_evo:
  assumes "e_db E = H" and "reports (e_aya E) F" and "db_tree pd \<in> X" and "T0 (db_tree pd) \<noteq> None"
    and "db_tree pd \<notin> range map_tree" and "db_tree pd \<notin> range prog_tree"
  shows "stable (\<lambda>w. \<alpha> (wdb w)) (evolves H F X T0) (attach_new E disp base ix rv n pd)"
proof -
  have "stable (\<lambda>w. \<alpha> (wdb w)) (evolves H F X T0) (on_db (set_kernel_info H pd info))" if "api_id info \<in> F" for info
    by (rule stable_on_db) (rule set_kernel_info_evo [of pd X T0, OF assms(3-6) that])
  note info = this
  show ?thesis
    unfolding attach_new_def Let_def assms(1)
    by (intro stable_info_bind [OF assms(2)] evo_rules info pin_own_maps_evo [of E pd X T0, OF assms(1, 3-5)])
qed


text \<open>
  An extension that is loaded already has its tree marked as attached, so it is attached again from
  its pin and nothing is written.
\<close>

lemma attach_extension_evo:
  assumes "e_db E = H" and "reports (e_aya E) F" and "ext_ok H T0 key pd" and "core \<subseteq> X"
    and "key \<in> att_keys" and "\<And>d m. \<alpha> d (db_tree pd) = Some m \<Longrightarrow> m key = Some (ne_bool H True) \<Longrightarrow> attached pd d = Ok True"
  shows "stable (\<lambda>w. \<alpha> (wdb w)) (evolves H F X T0) (attach_extension E disp base ix rv attached (n, pd))"
proof (cases "db_tree pd \<in> range prog_tree")
  case True
  then obtain m0 where m0: "T0 (db_tree pd) = Some m0" "m0 key = Some (ne_bool H True)"
    using assms(3) by (auto simp: ext_ok_def)
  show ?thesis
  proof (rule stableI)
    fix w :: "'d kworld" assume e: "evolves H F X T0 (\<alpha> (wdb w))"
    have "db_tree pd \<in> X" using True assms(4) by auto
    then obtain m where m: "\<alpha> (wdb w) (db_tree pd) = Some m" using evolves_live [OF e] m0(1) by blast
    then have "m key = Some (ne_bool H True)"
      using evolvesD(4) [OF e m0(1) m] True m0(2) assms(5) by (auto simp: tree_evolves_def)
    then have "attached pd (wdb w) = Ok True" using assms(6) m by blast
    then have "attach_extension E disp base ix rv attached (n, pd) w = attach_pinned E disp base ix rv n pd w"
      by (simp add: attach_extension_def bind_st_def)
    with e show "evolves H F X T0 (\<alpha> (wdb (snd (attach_extension E disp base ix rv attached (n, pd) w))))"
      using attach_pinned_quiet [of E disp base ix rv n pd] by (simp add: quiet_def)
  qed
next
  case False
  have "db_tree pd \<in> X" "T0 (db_tree pd) \<noteq> None" "db_tree pd \<notin> range map_tree"
    using assms(3, 4) prog_tree_not_map [of "db_tree pd"] by (auto simp: ext_ok_def)
  then show ?thesis
    unfolding attach_extension_def fst_conv snd_conv
    by (intro evo_rules stable_quiet [OF attach_pinned_quiet] attach_new_evo [OF assms(1, 2)] False)
qed

lemma get_attached_true:
  "\<alpha> d (db_tree pd) = Some m \<Longrightarrow> m XDP_ATTACHED = Some (ne_bool H True) \<Longrightarrow> xdp_get_attached H \<lparr>xdp_data = pd\<rparr> d = Ok True"
  "\<alpha> d (db_tree pd) = Some m \<Longrightarrow> m TC_ATTACHED = Some (ne_bool H True) \<Longrightarrow> tc_get_attached H \<lparr>tc_data = pd\<rparr> d = Ok True"
  by (simp_all add: xdp_get_attached_def tc_get_attached_def)

lemma attach_loop_evo:
  fixes es :: "'p list"
  assumes "e_db E = H" and "reports (e_aya E) F" and "core \<subseteq> X"
    and "\<And>e. e \<in> set es \<Longrightarrow> ext_ok H T0 key (data e)" and "key \<in> att_keys"
    and "\<And>d pd m. \<alpha> d (db_tree pd) = Some m \<Longrightarrow> m key = Some (ne_bool H True) \<Longrightarrow> attached pd d = Ok True"
  shows "stable (\<lambda>w. \<alpha> (wdb w)) (evolves H F X T0) (bind_st (from_db (sort_by_position pos es)) (\<lambda>es.
      try_for_each (attach_extension E disp base ix rv attached) (List.enumerate 0 (map data es))))"
  unfolding from_db_def
proof (rule hoare_bind [OF hoare_reads], rule hoare_pure, rule stable_for_each)
  fix qs v assume "\<exists>w :: 'd kworld. sort_by_position pos es (wdb w) = Ok qs" and v: "v \<in> set (List.enumerate 0 (map data qs))"
  then have "set qs \<subseteq> set es" using sort_by_position_set by fast
  moreover from v have "fst v < length qs" "snd v = data (qs ! fst v)" by (auto simp: in_set_enumerate_eq)
  ultimately have "qs ! fst v \<in> set es" and v': "v = (fst v, data (qs ! fst v))" by (auto simp: prod_eq_iff)
  then have "ext_ok H T0 key (data (qs ! fst v))" using assms(4) by blast
  then show "stable (\<lambda>w. \<alpha> (wdb w)) (evolves H F X T0) (attach_extension E disp base ix rv attached v)"
    by (subst v') (rule attach_extension_evo [OF assms(1, 2) _ assms(3, 5, 6)])
qed

lemma attach_extensions_evo:
  assumes "e_db E = H" and "reports (e_aya E) F" and "core \<subseteq> X"
  shows "\<forall>e \<in> set xs. ext_ok H T0 XDP_ATTACHED (xdp_data e) \<Longrightarrow>
      stable (\<lambda>w. \<alpha> (wdb w)) (evolves H F X T0) (xd_attach_extensions E x xs)"
    and "\<forall>e \<in> set ys. ext_ok H T0 TC_ATTACHED (tc_data e) \<Longrightarrow>
      stable (\<lambda>w. \<alpha> (wdb w)) (evolves H F X T0) (td_attach_extensions E y ys)"
proof -
  note steps = stable_bind [OF stable_quiet [OF quiet_world(1)]] stable_bind [OF stable_quiet [OF quiet_basic(2)]]
  show "stable (\<lambda>w. \<alpha> (wdb w)) (evolves H F X T0) (xd_attach_extensions E x xs)"
    if "\<forall>e \<in> set xs. ext_ok H T0 XDP_ATTACHED (xdp_data e)"
    unfolding xd_attach_extensions_def assms(1)
    by (rule steps, rule steps, rule steps, rule steps, rule attach_loop_evo [where key = XDP_ATTACHED, OF assms])
      (use that get_attached_true(1) in auto)
  show "stable (\<lambda>w. \<alpha> (wdb w)) (evolves H F X T0) (td_attach_extensions E y ys)"
    if "\<forall>e \<in> set ys. ext_ok H T0 TC_ATTACHED (tc_data e)"
    unfolding td_attach_extensions_def assms(1)
    by (rule steps, rule steps, rule steps, rule steps, rule steps, rule attach_loop_evo [where key = TC_ATTACHED, OF assms])
      (use that get_attached_true(2) in auto)
qed

text \<open>Attaching the dispatcher leaves the database, deleting one drops its tree.\<close>

lemma xd_attach_quiet: "quiet (\<lambda>w. \<alpha> (wdb w)) (xd_attach E x)"
  unfolding xd_attach_def Let_def by (intro quiet_rules)

lemma has_qdisc_quiet: "quiet (\<lambda>w. \<alpha> (wdb w)) (has_qdisc A name ix)"
  unfolding has_qdisc_def by (intro quiet_rules)

lemma detach_quiet:
  "quiet (\<lambda>w. \<alpha> (wdb w)) (\<lambda>w. case k_num A c w of (Ok l, w') \<Rightarrow> ignore_st (k_unit A (K_Detach l)) w'
     | (Err e, w') \<Rightarrow> (Ok (), w') | (Panic p, w') \<Rightarrow> (Panic p, w'))"
  by (auto simp: quiet_def k_defs ignore_st_def split: res.split)

lemma delete_evo:
  assumes "e_db E = H" and "core \<subseteq> X" and "default_tree \<in> X"
  shows "xd_tree x \<notin> X \<Longrightarrow> xd_tree x \<notin> range map_tree \<Longrightarrow>
      stable (\<lambda>w. \<alpha> (wdb w)) (evolves H F X T0) (xd_delete E x full)"
    and "td_tree y \<notin> X \<Longrightarrow> td_tree y \<notin> range map_tree \<Longrightarrow>
      stable (\<lambda>w. \<alpha> (wdb w)) (evolves H F X T0) (td_delete E y full)"
proof -
  show "stable (\<lambda>w. \<alpha> (wdb w)) (evolves H F X T0) (xd_delete E x full)"
    if "xd_tree x \<notin> X" "xd_tree x \<notin> range map_tree"
    unfolding xd_delete_def assms(1)
    by (intro evo_rules drop_evo(1) that) (use that assms(3) in auto)
  show "stable (\<lambda>w. \<alpha> (wdb w)) (evolves H F X T0) (td_delete E y full)"
    if "td_tree y \<notin> X" "td_tree y \<notin> range map_tree"
    unfolding td_delete_def assms(1)
    by (intro evo_rules drop_evo(1) that stable_quiet [OF detach_quiet]) (use that assms(3) in auto)
qed

lemma dispatcher_delete_evo:
  assumes "e_db E = H" and "droppable x"
  shows "stable (\<lambda>w. \<alpha> (wdb w)) (evolves H F core T0) (dispatcher_delete E x full)"
  using assms(2) by (cases x) (auto simp: droppable_def intro!: delete_evo assms(1))

lemma dispatcher_image_evo:
  assumes "e_db E = H" and "default_tree \<in> X" and "T0 default_tree \<noteq> None"
  shows "stable (\<lambda>w. \<alpha> (wdb w)) (evolves H F X T0) (dispatcher_image E im url)"
  unfolding dispatcher_image_def assms(1) by (intro evo_rules get_image_evo assms)

lemma load_dispatcher_quiet: "quiet (\<lambda>w. \<alpha> (wdb w)) (load_dispatcher_prog A P gname conf fn_name bs)"
  unfolding load_dispatcher_prog_def by (intro quiet_rules)

end


subsection \<open>Loading a dispatcher\<close>

lemma hoare_first:
  assumes "stable V (evolves H F X T0) m" and "\<And>a. hoare V (evolves H F X T0) (f a) Q (evolves H F Y T0)" and "Y \<subseteq> X"
  shows "hoare V (evolves H F X T0) (bind_st m f) Q (evolves H F Y T0)"
  by (rule hoare_bind [OF hoare_weaken [OF assms(1)] assms(2)]) (auto intro: evolves_mono [OF _ assms(3)])

lemma hoare_first_then:
  "stable V (evolves H F X T0) m \<Longrightarrow> hoare V (evolves H F X T0) n Q (evolves H F Y T0) \<Longrightarrow> Y \<subseteq> X \<Longrightarrow>
   hoare V (evolves H F X T0) (then_st m n) Q (evolves H F Y T0)"
  unfolding then_st_def by (rule hoare_first)

lemma hoare_first_reads:
  assumes "\<And>a s. g s = Ok a \<Longrightarrow> hoare V (evolves H F X T0) (f a) Q (evolves H F Y T0)" and "Y \<subseteq> X"
  shows "hoare V (evolves H F X T0) (bind_st (reads g) f) Q (evolves H F Y T0)"
proof (rule hoare_bind)
  show "hoare V (evolves H F X T0) (reads g) (\<lambda>a T. evolves H F X T0 T \<and> (\<exists>s. g s = Ok a)) (evolves H F Y T0)"
    by (rule hoare_weaken [OF hoare_reads [where P = "evolves H F X T0"]]) (auto intro: evolves_mono [OF _ assms(2)])
  show "hoare V (\<lambda>T. evolves H F X T0 T \<and> (\<exists>s. g s = Ok a)) (f a) Q (evolves H F Y T0)" for a
    by (rule hoare_pure) (use assms(1) in blast)
qed

lemma hoare_last:
  "stable V (evolves H F Y T0) m \<Longrightarrow> Y \<subseteq> X \<Longrightarrow> hoare V (evolves H F X T0) m (\<lambda>_. evolves H F Y T0) (evolves H F Y T0)"
  by (erule hoare_weaken) (auto intro: evolves_mono)

lemma collect_res_set: "collect_res rs = Ok as \<Longrightarrow> a \<in> set as \<Longrightarrow> Ok a \<in> set rs"
  by (induction rs arbitrary: as) (auto simp: bind_res_eq_Ok ok_map_eq_Ok)

lemma of_program_Ok: "Ok x = xdp_of_program p \<longleftrightarrow> p = Program_Xdp x" "Ok y = tc_of_program p \<longleftrightarrow> p = Program_Tc y"
  by (cases p; auto)+

lemma of_programs_set:
  "collect_res (map xdp_of_program ps) = Ok xs \<Longrightarrow> x \<in> set xs \<Longrightarrow> Program_Xdp x \<in> set ps"
  "collect_res (map tc_of_program ps) = Ok ys \<Longrightarrow> y \<in> set ys \<Longrightarrow> Program_Tc y \<in> set ps"
  by (auto simp: of_program_Ok dest!: collect_res_set)

context store
begin

lemma xd_load_evo:
  assumes "e_db E = H" and "reports (e_aya E) F" and "wf_db H T0" and "\<forall>p \<in> set programs. prog_ready H T0 p"
    and x: "T0 (xd_tree x) \<noteq> None" "xd_tree x \<notin> prog_trees" "xd_tree x \<notin> range map_tree"
    and old: "\<And>o'. old = Some o' \<Longrightarrow> droppable o'"
  shows "hoare (\<lambda>w. \<alpha> (wdb w)) (evolves H F (insert (xd_tree x) core) T0) (xd_load E im x programs old)
    (\<lambda>_. evolves H F core T0) (evolves H F core T0)"
proof -
  let ?X = "insert (xd_tree x) core" and ?V = "\<lambda>w :: 'd kworld. \<alpha> (wdb w)"
  have sub: "core \<subseteq> ?X" by blast
  have d: "default_tree \<in> ?X" "T0 default_tree \<noteq> None" using assms(3) by (auto simp: wf_db_def)
  have ins: "stable ?V (evolves H F ?X T0) (on_db (sled_insert H (xd_tree (x\<lparr>xd_loader := l\<rparr>)) k v))" for l k v
    by (rule stable_on_db, rule insert_evo [of _ ?X T0]) (use x in \<open>simp_all add: disp_write\<close>)
  have old': "hoare ?V (evolves H F ?X T0)
      (then_st (case old of Some o' \<Rightarrow> dispatcher_delete E o' False | None \<Rightarrow> ret ()) (ret y))
      (\<lambda>_. evolves H F core T0) (evolves H F core T0)" for y :: xdp_dispatcher
    using old dispatcher_delete_evo [OF assms(1)]
    by (intro hoare_last [OF _ sub] evo_rules(2) [OF _ stable_leaves(1)]) (auto split: option.split intro: stable_leaves)
  have img: "stable ?V (evolves H F ?X T0) (dispatcher_image E im url)" for url
    by (rule dispatcher_image_evo [of E ?X T0, OF assms(1) d])
  have exts: "stable ?V (evolves H F ?X T0) (xd_attach_extensions E y ys)"
    if "collect_res (map xdp_of_program programs) = (Ok xs :: (bpfman_error, xdp_program list) res)"
      "sort_by_position pos xs d = Ok ys" for y xs ys pos and d :: 'd
  proof (rule attach_extensions_evo(1) [OF assms(1, 2) sub], rule ballI)
    fix e assume "e \<in> set ys"
    then have "e \<in> set xs" using sort_by_position_set [OF that(2)] by blast
    then have "Program_Xdp e \<in> set programs" by (rule of_programs_set(1) [OF that(1)])
    then show "ext_ok H T0 XDP_ATTACHED (xdp_data e)" using assms(4) by fastforce
  qed
  show ?thesis
    unfolding xd_load_def Let_def from_db_def assms(1) xd_set_num_extensions_def xd_set_program_name_def
      split_beta
    by (intro hoare_first_reads [OF _ sub] hoare_first [OF img _ sub]
        hoare_first [OF stable_quiet [OF load_dispatcher_quiet] _ sub] hoare_first_then [OF ins _ sub]
        hoare_first_then [OF stable_wrapped(2) [OF stable_leaves(6)] _ sub] hoare_first_then [OF exts _ sub]
        hoare_first_then [OF stable_quiet [OF xd_attach_quiet] _ sub] old')
qed


lemma td_attach_evo:
  assumes "e_db E = H" and x: "T0 (td_tree x) \<noteq> None" "td_tree x \<notin> prog_trees" "td_tree x \<notin> range map_tree"
    and old: "\<And>o'. old = Some o' \<Longrightarrow> droppable o'"
  shows "hoare (\<lambda>w. \<alpha> (wdb w)) (evolves H F (insert (td_tree x) core) T0) (td_attach E x old)
    (\<lambda>_. evolves H F core T0) (evolves H F core T0)"
proof -
  let ?X = "insert (td_tree x) core" and ?V = "\<lambda>w :: 'd kworld. \<alpha> (wdb w)"
  have sub: "core \<subseteq> ?X" by blast
  have ins: "stable ?V (evolves H F ?X T0) (on_db (td_set_handle H x h))" for h
    unfolding td_set_handle_def
    by (rule stable_on_db, rule insert_evo [of _ ?X T0]) (use x in \<open>simp_all add: disp_write\<close>)
  have "stable ?V (evolves H F core T0) (case old of Some (Dispatcher_Tc d) \<Rightarrow> m d | _ \<Rightarrow> ret ())"
    if "\<And>d. droppable (Dispatcher_Tc d) \<Longrightarrow> stable ?V (evolves H F core T0) (m d)"
    for m :: "tc_dispatcher \<Rightarrow> ('d kworld, bpfman_error, unit) st"
    using that old by (auto split: option.split dispatcher.split intro: stable_leaves)
  note last = this
  have del: "stable ?V (evolves H F core T0) (td_delete E d full)" if "droppable (Dispatcher_Tc d)" for d full
    by (rule delete_evo(2) [OF assms(1)]) (use that in \<open>auto simp: droppable_def\<close>)
  have qdisc: "stable ?V (evolves H F ?X T0) (map_err_st g (has_qdisc A name ix))" for g :: "string \<Rightarrow> bpfman_error" and A name ix
    by (intro stable_quiet quiet_wrapped has_qdisc_quiet)
  show ?thesis
    unfolding td_attach_def Let_def from_db_def assms(1)
    by (intro hoare_first_reads [OF _ sub] hoare_first [OF qdisc _ sub] hoare_first_then [OF ins _ sub]
        hoare_first_then [OF stable_cases(1) _ sub] stable_bind [OF qdisc] stable_cases(1)
        hoare_first [OF stable_wrapped(1) [OF stable_leaves(8)] _ sub]
        hoare_last [OF _ sub] last evo_rules del)
qed


lemma td_load_evo:
  assumes "e_db E = H" and "reports (e_aya E) F" and "wf_db H T0" and "\<forall>p \<in> set programs. prog_ready H T0 p"
    and x: "T0 (td_tree x) \<noteq> None" "td_tree x \<notin> prog_trees" "td_tree x \<notin> range map_tree"
    and old: "\<And>o'. old = Some o' \<Longrightarrow> droppable o'"
  shows "hoare (\<lambda>w. \<alpha> (wdb w)) (evolves H F (insert (td_tree x) core) T0) (td_load E im x programs old)
    (\<lambda>_. evolves H F core T0) (evolves H F core T0)"
proof -
  let ?X = "insert (td_tree x) core" and ?V = "\<lambda>w :: 'd kworld. \<alpha> (wdb w)"
  have sub: "core \<subseteq> ?X" by blast
  have d: "default_tree \<in> ?X" "T0 default_tree \<noteq> None" using assms(3) by (auto simp: wf_db_def)
  have ins: "stable ?V (evolves H F ?X T0) (on_db (sled_insert H (td_tree (x\<lparr>td_loader := l\<rparr>)) k v))" for l k v
    by (rule stable_on_db, rule insert_evo [of _ ?X T0]) (use x in \<open>simp_all add: disp_write\<close>)
  have img: "stable ?V (evolves H F ?X T0) (dispatcher_image E im url)" for url
    by (rule dispatcher_image_evo [of E ?X T0, OF assms(1) d])
  have exts: "stable ?V (evolves H F ?X T0) (td_attach_extensions E y ys)"
    if "collect_res (map tc_of_program programs) = (Ok ys :: (bpfman_error, tc_program list) res)" for y ys
  proof (rule attach_extensions_evo(2) [OF assms(1, 2) sub], rule ballI)
    fix e assume "e \<in> set ys"
    then have "Program_Tc e \<in> set programs" by (rule of_programs_set(2) [OF that(1)])
    then show "ext_ok H T0 TC_ATTACHED (tc_data e)" using assms(4) by fastforce
  qed
  have att: "hoare ?V (evolves H F ?X T0) (then_st (td_attach E (x\<lparr>td_loader := l\<rparr>) old) (ret y))
      (\<lambda>_. evolves H F core T0) (evolves H F core T0)" for l and y :: tc_dispatcher
    by (rule hoare_then [OF _ stable_leaves(1)])
      (use td_attach_evo [of E T0 "x\<lparr>td_loader := l\<rparr>" old F] assms(1) x old in simp)
  show ?thesis
    unfolding td_load_def Let_def from_db_def assms(1) td_set_num_extensions_def td_set_program_name_def split_beta
    by (intro hoare_first_reads [OF _ sub] hoare_first [OF img _ sub]
        hoare_first [OF stable_quiet [OF load_dispatcher_quiet] _ sub] hoare_first_then [OF ins _ sub]
        hoare_first_then [OF stable_wrapped(2) [OF stable_leaves(6)] _ sub] hoare_first_then [OF exts _ sub] att)
qed

text \<open>A new dispatcher is created before it is loaded.\<close>

lemma fill_tree_run:
  "\<exists>d' m. then_st (open_tree H msg t) (then_st (insert_list H t kvs) (ret x)) d = (Ok x, d') \<and> \<alpha> d' = (\<alpha> d)(t \<mapsto> m)"
  by (cases "\<alpha> d t") (simp_all add: then_st_def bind_st_def open_tree_def, blast+)

lemma new_run:
  "\<exists>d' m. xd_new H mode ix name rv d = (Ok \<lparr>xd_tree = xdp_disp_tree ix rv, xd_loader = None\<rparr>, d')
     \<and> \<alpha> d' = (\<alpha> d)(xdp_disp_tree ix rv \<mapsto> m)"
  "\<exists>d' m. td_new H dir ix name rv d = (Ok \<lparr>td_tree = tc_disp_tree ix dir rv, td_loader = None\<rparr>, d')
     \<and> \<alpha> d' = (\<alpha> d)(tc_disp_tree ix dir rv \<mapsto> m)"
  unfolding xd_new_list td_new_list by (rule fill_tree_run)+

end

lemma evolves_disp:
  assumes "known_tree t" and "t \<notin> core" and "t \<notin> range map_tree"
  shows "evolves H F X T (T(t \<mapsto> m))"
proof (rule evolvesI)
  show "tree_evolves H F s m1 m2" if "T s = Some m1" "(T(t \<mapsto> m)) s = Some m2" for s m1 m2
    using that assms(2) by (cases "s = t") (auto simp: tree_evolves_def)
qed (use assms in \<open>auto split: if_splits\<close>)

text \<open>
  What a call does from any well-formed database onwards, the id of the program that is being loaded
  being one of \<open>F\<close>.
\<close>

lemma stable_from:
  assumes "\<And>T. wf_db H T \<Longrightarrow> evolves H F X T0 T \<Longrightarrow> hoare V ((=) T) m (\<lambda>_. evolves H F X T) (evolves H F X T)"
    and "wf_db H T0" and "core \<subseteq> X"
  shows "stable V (evolves H F X T0) m"
  by (rule hoare_rebase [OF _ subset_refl], rule assms(1)) (use wf_evolves [OF assms(2)] assms(3) in auto)

lemma prog_ready_evolves:
  assumes "prog_ready H T p" and "evolves H F X T T'" and "core \<subseteq> X"
  shows "prog_ready H T' p"
proof -
  have "ext_ok H T' key pd" if ok: "ext_ok H T key pd" and "key \<in> att_keys" for key pd
  proof -
    obtain m where m: "T (db_tree pd) = Some m" "db_tree pd \<in> prog_trees"
      "db_tree pd \<in> range prog_tree \<Longrightarrow> m key = Some (ne_bool H True)" using ok by (auto simp: ext_ok_def)
    have "db_tree pd \<in> X" using m(2) assms(3) by blast
    then obtain m' where m': "T' (db_tree pd) = Some m'" using evolves_live [OF assms(2)] m(1) by blast
    from evolvesD(4) [OF assms(2) m(1) m'] m(2, 3) m' that(2) show ?thesis
      by (auto simp: ext_ok_def tree_evolves_def)
  qed
  then show ?thesis using assms(1) by (cases p) auto
qed

context store
begin

text \<open>A dispatcher whose tree was just created is loaded.\<close>

lemma create_load_evo:
  fixes n :: "'x \<Rightarrow> ('d kworld, bpfman_error, dispatcher) st"
  assumes "wf_db H T0" and "\<forall>p \<in> set programs. prog_ready H T0 p"
    and new: "\<And>d. \<exists>d' m. c d = (Ok x, d') \<and> \<alpha> d' = (\<alpha> d)(t \<mapsto> m)"
    and t: "known_tree t" "t \<notin> core" "t \<notin> range map_tree"
    and load: "\<And>T1. wf_db H T1 \<Longrightarrow> \<forall>p \<in> set programs. prog_ready H T1 p \<Longrightarrow> T1 t \<noteq> None \<Longrightarrow>
      hoare (\<lambda>w. \<alpha> (wdb w)) (evolves H F (insert t core) T1) (n x) (\<lambda>_. evolves H F core T1) (evolves H F core T1)"
  shows "stable (\<lambda>w. \<alpha> (wdb w)) (evolves H F core T0) (bind_st (on_db c) n)"
proof (rule stableI)
  let ?V = "\<lambda>w :: 'd kworld. \<alpha> (wdb w)"
  fix w :: "'d kworld" assume e: "evolves H F core T0 (?V w)"
  obtain d' m where d': "c (wdb w) = (Ok x, d')" "\<alpha> d' = (?V w)(t \<mapsto> m)" using new by blast
  let ?w = "w\<lparr>wdb := d'\<rparr>"
  have V: "?V ?w = (?V w)(t \<mapsto> m)" using d'(2) by simp
  have e': "evolves H F core T0 (?V ?w)"
    unfolding V by (rule evolves_trans [OF e evolves_disp [OF t] subset_refl])
  have "wf_db H (?V ?w)" by (rule wf_evolves [OF assms(1) e']) simp
  moreover have "\<forall>p \<in> set programs. prog_ready H (?V ?w) p" using assms(2) prog_ready_evolves [OF _ e'] by blast
  moreover have "?V ?w t \<noteq> None" unfolding V by simp
  ultimately have "evolves H F core (?V ?w) (?V (snd (n x ?w)))"
    by (rule hoareD_any [OF load, where s = ?w and r = "fst (n x ?w)"]) (simp_all add: evolves_refl)
  with e' have "evolves H F core T0 (?V (snd (n x ?w)))" by (rule evolves_trans) simp
  then show "evolves H F core T0 (?V (snd (bind_st (on_db c) n w)))"
    using d'(1) by (simp add: bind_st_Ok [of "on_db c" w x ?w])
qed

lemma dispatcher_new_evo:
  assumes "e_db E = H" and "reports (e_aya E) F" and "wf_db H T0" and "\<forall>p \<in> set programs. prog_ready H T0 p"
    and old: "\<And>o'. old = Some o' \<Longrightarrow> droppable o'"
  shows "stable (\<lambda>w. \<alpha> (wdb w)) (evolves H F core T0) (dispatcher_new E im config programs rv old)"
proof -
  let ?V = "\<lambda>w :: 'd kworld. \<alpha> (wdb w)"
  have xdp: "stable ?V (evolves H F core T0) (bind_st (on_db (xd_new H mode ix name rv)) (\<lambda>x.
      bind_st (xd_load E im x programs old) (\<lambda>x. ret (Dispatcher_Xdp x))))" for mode ix name
  proof (rule create_load_evo [OF assms(3, 4) new_run(1) known_tree_intros(5) disp_tree_names(1, 4)])
    let ?x = "\<lparr>xd_tree = xdp_disp_tree ix rv, xd_loader = None\<rparr>"
    fix T1 assume "wf_db H T1" "\<forall>p \<in> set programs. prog_ready H T1 p" "T1 (xdp_disp_tree ix rv) \<noteq> None"
    then show "hoare ?V (evolves H F (insert (xdp_disp_tree ix rv) core) T1)
        (bind_st (xd_load E im ?x programs old) (\<lambda>x. ret (Dispatcher_Xdp x))) (\<lambda>_. evolves H F core T1) (evolves H F core T1)"
      using xd_load_evo [of E F T1 programs ?x old im, OF assms(1, 2)] disp_tree_names old
      by (intro hoare_bind [OF _ stable_leaves(1)]) auto
  qed
  have tc: "stable ?V (evolves H F core T0) (bind_st (on_db (td_new H dir ix name rv)) (\<lambda>x.
      bind_st (td_load E im x programs old) (\<lambda>x. ret (Dispatcher_Tc x))))" for dir ix name
  proof (rule create_load_evo [OF assms(3, 4) new_run(2) known_tree_intros(6) disp_tree_names(2, 5)])
    let ?x = "\<lparr>td_tree = tc_disp_tree ix dir rv, td_loader = None\<rparr>"
    fix T1 assume "wf_db H T1" "\<forall>p \<in> set programs. prog_ready H T1 p" "T1 (tc_disp_tree ix dir rv) \<noteq> None"
    then show "hoare ?V (evolves H F (insert (tc_disp_tree ix dir rv) core) T1)
        (bind_st (td_load E im ?x programs old) (\<lambda>x. ret (Dispatcher_Tc x))) (\<lambda>_. evolves H F core T1) (evolves H F core T1)"
      using td_load_evo [of E F T1 programs ?x old im, OF assms(1, 2)] disp_tree_names old
      by (intro hoare_bind [OF _ stable_leaves(1)]) auto
  qed
  have "stable ?V P (case k of ProgramType_Xdp \<Rightarrow> m | ProgramType_Tc \<Rightarrow> n | _ \<Rightarrow> throw e)"
    if "stable ?V P m" "stable ?V P n" for P k e and m n :: "('d kworld, bpfman_error, dispatcher) st"
    using that by (cases k) (simp_all add: stable_leaves)
  note kind = this
  show ?thesis
    unfolding dispatcher_new_def Let_def assms(1)
    by (intro xdp tc kind stable_bind [OF stable_leaves(2)] stable_bind [OF stable_leaves(5)])
qed

end

end
