(* ===== verification/Startup.thy ===== *)
theory Startup
  imports Bpfman_Config
begin

text \<open>
  Start-up succeeds: with the privileges, a mounted BPF file system and no plain file in the way,
  \<open>initialize_bpfman\<close> leaves every directory the manager uses in place, whatever existed before.
\<close>

definition is_dir :: "fs \<Rightarrow> string \<Rightarrow> bool" where
  "is_dir f p \<longleftrightarrow> (\<exists>m. f p = Some (Dir m))"

definition startup_dirs :: "string list" where
  "startup_dirs = [RTDIR, RTDIR_FS, RTDIR_TC_INGRESS_DISPATCHER, RTDIR_TC_EGRESS_DISPATCHER, RTDIR_XDP_DISPATCHER,
     RTDIR_PROGRAMS, RTDIR_FS_XDP, RTDIR_FS_TC_INGRESS, RTDIR_FS_TC_EGRESS, RTDIR_FS_MAPS, RTDIR_TUF, STDIR,
     CFGDIR_STATIC_PROGRAMS]"

definition path_free :: "fs \<Rightarrow> string \<Rightarrow> bool" where
  "path_free f p \<longleftrightarrow> (\<forall>q \<in> set (ancestors p @ [p]). \<not> is_file f q)"

text \<open>A step that keeps directories and the plain files as they are.\<close>

definition keeps_dirs :: "fs \<Rightarrow> fs \<Rightarrow> bool" where
  "keeps_dirs f f' \<longleftrightarrow> (\<forall>q. is_dir f q \<longrightarrow> is_dir f' q) \<and> (\<forall>q. is_file f' q \<longleftrightarrow> is_file f q)"

lemma keeps_dirs_refl [simp]: "keeps_dirs f f"
  by (simp add: keeps_dirs_def)

lemma keeps_dirs_trans: "keeps_dirs f g \<Longrightarrow> keeps_dirs g h \<Longrightarrow> keeps_dirs f h"
  by (auto simp: keeps_dirs_def)

lemma path_free_kept: "path_free f p \<Longrightarrow> keeps_dirs f g \<Longrightarrow> path_free g p"
  by (auto simp: path_free_def keeps_dirs_def)

lemma create_dir_all_ok:
  assumes "F ''create_dir_all'' p = None" and "path_free f p"
  shows "\<exists>g. create_dir_all F p f = (Ok (), g) \<and> keeps_dirs f g \<and> (\<forall>q \<in> set (ancestors p @ [p]). is_dir g q)"
proof -
  let ?g = "\<lambda>q. if f q = None \<and> q \<in> set (ancestors p @ [p]) then Some (Dir 493) else f q"
  have "\<not> list_ex (is_file f) (ancestors p @ [p])" using assms(2) by (simp add: path_free_def list_ex_iff)
  then have "create_dir_all F p f = (Ok (), ?g)" using assms(1) unfolding create_dir_all_def by simp
  moreover have "keeps_dirs f ?g"
    by (auto simp: keeps_dirs_def is_dir_def is_file_def split: option.splits fs_node.splits if_splits)
  moreover have "is_dir ?g q" if "q \<in> set (ancestors p @ [p])" for q
  proof -
    have "\<not> is_file f q" using assms(2) that by (auto simp: path_free_def)
    then show ?thesis using that by (cases "f q") (auto simp: is_dir_def is_file_def split: fs_node.splits)
  qed
  ultimately show ?thesis by blast
qed

lemma create_dirs_ok:
  assumes "\<And>q. F ''create_dir_all'' q = None" and "\<forall>p \<in> fst ` set ds. path_free f p"
  shows "\<exists>g. create_dirs F ds f = (Ok (), g) \<and> keeps_dirs f g
    \<and> (\<forall>p \<in> fst ` set ds. \<forall>q \<in> set (ancestors p @ [p]). is_dir g q)"
  using assms(2)
proof (induction ds arbitrary: f)
  case Nil
  then show ?case by (simp add: create_dirs_def)
next
  case (Cons pc ds)
  obtain p c where pc: "pc = (p, c)" by fastforce
  obtain g where g: "create_dir_all F p f = (Ok (), g)" "keeps_dirs f g" "\<forall>q \<in> set (ancestors p @ [p]). is_dir g q"
    using create_dir_all_ok [of F p f] assms(1) Cons.prems pc by auto
  have "\<forall>p \<in> fst ` set ds. path_free g p" using Cons.prems path_free_kept [OF _ g(2)] by auto
  from Cons.IH [OF this] obtain h where h: "create_dirs F ds g = (Ok (), h)" "keeps_dirs g h"
    "\<forall>p \<in> fst ` set ds. \<forall>q \<in> set (ancestors p @ [p]). is_dir h q" by blast
  have "create_dirs F (pc # ds) f = (Ok (), h)"
    using g(1) h(1) by (simp add: create_dirs_def pc then_st_def bind_st_def map_err_st_def)
  moreover have "\<forall>q \<in> set (ancestors p @ [p]). is_dir h q" using g(3) h(2) by (simp add: keeps_dirs_def)
  ultimately show ?case using h(3) pc keeps_dirs_trans [OF g(2) h(2)] by auto
qed

lemma set_dir_permissions_ok:
  assumes "F ''read_dir'' dir = None" and "is_dir f dir"
  shows "\<exists>g. set_dir_permissions F dir mode f = (Ok (), g) \<and> keeps_dirs f g"
proof -
  let ?g = "\<lambda>q. if child_of dir q \<and> F ''set_permissions'' q = None then map_option (with_mode mode) (f q) else f q"
  have "is_file ?g q = is_file f q" "is_dir ?g q = is_dir f q" for q
    by (cases "f q"; cases "the (f q)"; simp add: is_file_def is_dir_def)+
  then have "keeps_dirs f ?g" by (simp add: keeps_dirs_def)
  moreover have "set_dir_permissions F dir mode f = (Ok (), ?g)"
    using assms unfolding set_dir_permissions_def is_dir_def by auto
  ultimately show ?thesis by blast
qed

lemma set_three_permissions:
  assumes "\<And>q. F ''read_dir'' q = None" and "is_dir f a" and "is_dir f b" and "is_dir f c"
  shows "\<exists>g. then_st (set_dir_permissions F a i) (then_st (set_dir_permissions F b j) (set_dir_permissions F c k)) f
    = (Ok () :: ('e, unit) res, g) \<and> keeps_dirs f g"
proof -
  note perm = set_dir_permissions_ok [where F = F, OF assms(1)]
  obtain g where g: "set_dir_permissions F a i f = (Ok () :: ('e, unit) res, g)" "keeps_dirs f g" using perm [OF assms(2)] by blast
  have "is_dir g b" using assms(3) g(2) by (simp add: keeps_dirs_def)
  from perm [OF this] obtain h where h: "set_dir_permissions F b j g = (Ok () :: ('e, unit) res, h)" "keeps_dirs g h" by blast
  have "is_dir h c" using assms(4) g(2) h(2) by (simp add: keeps_dirs_def)
  from perm [OF this] obtain l where l: "set_dir_permissions F c k h = (Ok () :: ('e, unit) res, l)" "keeps_dirs h l" by blast
  have "keeps_dirs f l" using g(2) h(2) l(2) by (blast intro: keeps_dirs_trans)
  with g(1) h(1) l(1) show ?thesis by (simp add: then_st_def bind_st_def)
qed

lemma startup_run:
  assumes "caps_readable S" and "setrlimit_ok S" and "is_bpffs_mounted (proc_mounts S) = Inr True"
    and "\<forall>op q. F op q = None" and "\<forall>p \<in> set startup_dirs. path_free f p"
  shows "\<exists>g. initialize_bpfman S F f = (Ok (), g) \<and> (\<forall>p \<in> set startup_dirs. is_dir g p) \<and> keeps_dirs f g"
proof -
  let ?ds = "[(RTDIR, ''unable to create runtime directory''),
          (RTDIR_FS, ''unable to create mountpoint''),
          (RTDIR_TC_INGRESS_DISPATCHER, ''unable to create dispatcher directory''),
          (RTDIR_TC_EGRESS_DISPATCHER, ''unable to create dispatcher directory''),
          (RTDIR_XDP_DISPATCHER, ''unable to create dispatcher directory''),
          (RTDIR_PROGRAMS, ''unable to create programs directory'')]"
  let ?es = "[(RTDIR_FS_XDP, ''unable to create xdp dispatcher directory''),
          (RTDIR_FS_TC_INGRESS, ''unable to create tc ingress dispatcher directory''),
          (RTDIR_FS_TC_EGRESS, ''unable to create tc egress dispatcher directory''),
          (RTDIR_FS_MAPS, ''unable to create maps directory''),
          (RTDIR_TUF, ''unable to create TUF directory''),
          (STDIR, ''unable to create state directory''),
          (CFGDIR_STATIC_PROGRAMS, ''unable to create static programs directory'')]"
  have free: "\<forall>p \<in> fst ` set ?ds. path_free f p" "\<forall>p \<in> fst ` set ?es. path_free f p"
    using assms(5) by (simp_all add: startup_dirs_def)
  obtain f1 where f1: "create_dirs F ?ds f = (Ok (), f1)" "keeps_dirs f f1"
    "\<forall>p \<in> fst ` set ?ds. \<forall>q \<in> set (ancestors p @ [p]). is_dir f1 q"
    using create_dirs_ok [OF _ free(1)] assms(4) by blast
  have "\<forall>p \<in> fst ` set ?es. path_free f1 p" using free(2) path_free_kept [OF _ f1(2)] by blast
  then obtain f2 where f2: "create_dirs F ?es f1 = (Ok (), f2)" "keeps_dirs f1 f2"
    "\<forall>p \<in> fst ` set ?es. \<forall>q \<in> set (ancestors p @ [p]). is_dir f2 q"
    using create_dirs_ok [of F ?es f1] assms(4) by blast
  have "CFGDIR \<in> set (ancestors CFGDIR_STATIC_PROGRAMS @ [CFGDIR_STATIC_PROGRAMS])" by code_simp
  then have cfg: "is_dir f2 CFGDIR" using f2(3) by fastforce
  have rt: "is_dir f2 RTDIR" "is_dir f2 STDIR" using f1(3) f2(2, 3) by (auto simp: keeps_dirs_def)
  obtain f3 where f3: "then_st (set_dir_permissions F CFGDIR CFGDIR_MODE) (then_st (set_dir_permissions F RTDIR RTDIR_MODE)
          (set_dir_permissions F STDIR STDIR_MODE)) f2 = (Ok () :: (string, unit) res, f3)" "keeps_dirs f2 f3"
    using set_three_permissions [OF _ cfg rt] assms(4) by blast
  have run: "initialize_bpfman S F f = (Ok (), f3)"
    using assms(1-3) f1(1) f2(1) f3(1) by (simp add: initialize_bpfman_def has_cap_readable then_st_Ok [where m = "create_dirs _ _"] bind_st_def)
  have keep: "keeps_dirs f2 f3" "keeps_dirs f f3"
    using f1(2) f2(2) f3(2) by (blast intro: keeps_dirs_trans)+
  have "is_dir f2 p" if "p \<in> set startup_dirs" for p
    using that f1(3) f2(2, 3) by (auto simp: startup_dirs_def keeps_dirs_def)
  with run keep show ?thesis by (auto simp: keeps_dirs_def)
qed

text \<open>
  C25: start-up succeeds and is complete. A privileged start with the BPF file system mounted, no
  failing file operation and no plain file on the paths ends without error, and every directory the
  manager uses exists afterwards; directories that existed are kept and so are the plain files, so
  starting again is harmless.
\<close>

theorem startup_ready:
  assumes "caps_readable S" and "setrlimit_ok S" and "is_bpffs_mounted (proc_mounts S) = Inr True"
    and "\<forall>op q. F op q = None" and "\<forall>p \<in> set startup_dirs. path_free f p"
  shows "\<exists>g. initialize_bpfman S F f = (Ok (), g) \<and> (\<forall>p \<in> set startup_dirs. is_dir g p)
    \<and> (\<forall>q. is_dir f q \<longrightarrow> is_dir g q) \<and> (\<forall>q. is_file g q \<longleftrightarrow> is_file f q)"
  using startup_run [OF assms] by (simp add: keeps_dirs_def)

definition demo_mounted :: os_start where
  "demo_mounted = \<lparr>caps_has_cap = \<lambda>c. Inr True, setrlimit_ok = True,
     proc_mounts = Inr [Inr ''none /run/bpfman/fs bpf rw,relatime 0 0''], mount_bpf = \<lambda>dir f. Inr f\<rparr>"

lemma demo_mounted_ok:
  "caps_readable demo_mounted" "setrlimit_ok demo_mounted" "is_bpffs_mounted (proc_mounts demo_mounted) = Inr True"
  by code_simp+

theorem startup_ready_witness:
  "\<exists>g. initialize_bpfman demo_mounted
      (\<lambda>op q. None) Map.empty = (Ok (), g) \<and> is_dir g RTDIR_FS_MAPS"
proof -
  have "\<forall>p \<in> set startup_dirs. path_free Map.empty p" by (simp add: path_free_def is_file_def)
  then have "\<exists>g. initialize_bpfman demo_mounted (\<lambda>op q. None) Map.empty = (Ok (), g) \<and> (\<forall>p \<in> set startup_dirs. is_dir g p)"
    using startup_ready [OF demo_mounted_ok, of "\<lambda>op q. None" Map.empty] by auto
  then show ?thesis by (auto simp: startup_dirs_def)
qed

end
