(* ===== verification/Manager_Behaviour.thy ===== *)
theory Manager_Behaviour
  imports Startup Bpf_Manager Dispatcher_Lifecycle
begin

text \<open>
  What the operations of \<open>lib.rs\<close> do, branch by branch: a kprobe that is attached, an interface
  that is full, the last program of an interface, requests without privileges, unknown ids and the
  listing of what the kernel has loaded.
\<close>


subsection \<open>Attaching a kprobe\<close>

lemma k_call_eq_Ok:
  "k_unit A c w = (Ok u, w') \<longleftrightarrow> a_unit A (wkern w) c = Inr u \<and> w' = w\<lparr>wkern := wkern w @ [c]\<rparr>"
  "k_num A c w = (Ok n, w') \<longleftrightarrow> a_num A (wkern w) c = Inr n \<and> w' = w\<lparr>wkern := wkern w @ [c]\<rparr>"
  "k_info A p w = (Ok x, w') \<longleftrightarrow> a_info A (wkern w) p = Inr x \<and> w' = w\<lparr>wkern := wkern w @ [K_Info p]\<rparr>"
  by (auto simp: k_defs)

lemma k_pin_eq_Ok:
  "k_pin A c path w = (Ok u, w') \<longleftrightarrow> (\<exists>n. a_pin A (wkern w) (wfs w) c = Inr n \<and>
     w' = w\<lparr>wfs := (wfs w)(path \<mapsto> n), wkern := wkern w @ [c]\<rparr>)"
  by (auto simp: k_pin_def split: sum.splits)

lemma on_db_eq_Ok: "on_db m w = (Ok a, w') \<longleftrightarrow> (\<exists>d. m (wdb w) = (Ok a, d) \<and> w' = w\<lparr>wdb := d\<rparr>)"
  by (cases "m (wdb w)") auto

lemmas run_simps = bind_st_eq_Ok then_st_eq_Ok map_err_st_eq_Ok expect_st_eq_Ok on_db_eq_Ok k_call_eq_Ok k_pin_eq_Ok

lemma record_kernel_info_Ok:
  assumes "record_kernel_info E p pd w = (Ok i, w')"
  shows "\<exists>d. w' = w\<lparr>wkern := wkern w @ [K_Info p], wdb := d\<rparr> \<and> get_id (e_db E) pd d = Ok i"
  using assms by (auto simp: record_kernel_info_def run_simps)

lemma pin_link_Ok:
  assumes "pin_link A p msg l i w = (Ok (), w')"
  shows "\<exists>o' f n. w' = w\<lparr>wfs := (wfs w)(prog_link_pin i \<mapsto> n),
     wkern := wkern w @ [K_Take_Link p l, K_Into_Fd_Link o', K_Pin_Link f (prog_link_pin i)]\<rparr>"
  using assms by (auto simp: pin_link_def run_simps)

lemma pin_program_Ok:
  assumes "pin_program A p i w = (Ok (), w')"
  shows "\<exists>n. w' = w\<lparr>wfs := (wfs w)(prog_pin i \<mapsto> n), wkern := wkern w @ [K_Pin_Prog p (prog_pin i)]\<rparr>"
  using assms by (auto simp: pin_program_def run_simps)

lemma check_probe_type_Ok:
  "check_probe_type requested (Is_KProbe pk) = Ok () \<longleftrightarrow> probe_type_from_kind pk = requested"
  by (auto simp: check_probe_type_def Let_def)

text \<open>
  C13: whenever attaching a kprobe succeeds, the loaded program was of the requested kind, a return
  probe has no offset, and the kernel was asked, in this order and for nothing else, to load the
  program, to describe it, to attach it to the function and the offset the database holds, and to
  pin its link and the program itself at the paths of the id it gave; both pins exist and no other
  path changed.
\<close>

theorem kprobe_attached:
  assumes "attach_kprobe E p k prog w = (Ok i, w')"
  shows "\<exists>pk retprobe fn_name offset l o' f. k = Is_KProbe pk
    \<and> kprobe_get_retprobe (e_db E) prog (wdb w) = Ok retprobe
    \<and> probe_type_from_kind pk = (if retprobe then ProbeType_Kretprobe else ProbeType_Kprobe)
    \<and> (retprobe \<longrightarrow> kprobe_get_offset (e_db E) prog (wdb w) = Ok 0)
    \<and> get_id (e_db E) (kprobe_data prog) (wdb w') = Ok i
    \<and> kprobe_get_fn_name (e_db E) prog (wdb w') = Ok fn_name
    \<and> kprobe_get_offset (e_db E) prog (wdb w') = Ok offset
    \<and> wkern w' = wkern w @ [K_Prog_Load p Load_Plain, K_Info p, K_Attach p (Attach_KProbe fn_name offset),
        K_Take_Link p l, K_Into_Fd_Link o', K_Pin_Link f (prog_link_pin i), K_Pin_Prog p (prog_pin i)]
    \<and> path_exists (wfs w') (prog_pin i) \<and> path_exists (wfs w') (prog_link_pin i)
    \<and> (\<forall>q. q \<notin> {prog_pin i, prog_link_pin i} \<longrightarrow> wfs w' q = wfs w q)"
proof -
  let ?H = "e_db E" and ?A = "e_aya E"
  let ?w1 = "w\<lparr>wkern := wkern w @ [K_Prog_Load p Load_Plain]\<rparr>"
  from assms obtain retprobe bad w2 fn_name offset l w4 w5 where
    ret: "kprobe_get_retprobe ?H prog (wdb w) = Ok retprobe"
    and bad: "(if retprobe then \<exists>off. kprobe_get_offset ?H prog (wdb w) = Ok off \<and> bad = (off \<noteq> 0) else \<not> bad)" "\<not> bad"
    and kind: "try_into (\<lambda>k. case k of Is_KProbe _ \<Rightarrow> True | _ \<Rightarrow> False) k = Ok ()"
    and check: "check_probe_type (if retprobe then ProbeType_Kretprobe else ProbeType_Kprobe) k = Ok ()"
    and info: "record_kernel_info E p (kprobe_data prog) ?w1 = (Ok i, w2)"
    and db: "kprobe_get_fn_name ?H prog (wdb w2) = Ok fn_name" "kprobe_get_offset ?H prog (wdb w2) = Ok offset"
    and link: "pin_link ?A p ''unable to get owned kprobe attach link'' l i
      (w2\<lparr>wkern := wkern w2 @ [K_Attach p (Attach_KProbe fn_name offset)]\<rparr>) = (Ok (), w4)"
    and pin: "pin_program ?A p i w4 = (Ok (), w')"
    by (auto simp: attach_kprobe_def Let_def run_simps split: if_splits)
  from kind obtain pk where pk: "k = Is_KProbe pk"
    by (cases k) (auto simp: try_into_def)
  note steps = record_kernel_info_Ok [OF info] pin_link_Ok [OF link] pin_program_Ok [OF pin]
  show ?thesis
    using ret bad check pk db steps by (auto simp: check_probe_type_Ok path_exists_def split: if_splits)
qed

definition demo_probe_world :: "ref_db kworld" where
  "demo_probe_world = \<lparr>wdb = [(''k'', [(KPROBE_RETPROBE, ne_bool ref_host True), (KPROBE_OFFSET, ne8 ref_host 0),
     (KPROBE_FN_NAME, as_bytes ''do_unlinkat'')])], wfs = Map.empty, wkern = []\<rparr>"

lemma demo_probe_run:
  "is_ok (fst (attach_kprobe demo_env (In_Obj 0 ''f'') (Is_KProbe KRetProbe_K) \<lparr>kprobe_data = \<lparr>db_tree = ''k''\<rparr>\<rparr> demo_probe_world))"
  by code_simp

theorem kprobe_attached_witness:
  "\<exists>i w'. attach_kprobe demo_env (In_Obj 0 ''f'') (Is_KProbe KRetProbe_K) \<lparr>kprobe_data = \<lparr>db_tree = ''k''\<rparr>\<rparr> demo_probe_world = (Ok i, w')
    \<and> path_exists (wfs w') (prog_pin i) \<and> path_exists (wfs w') (prog_link_pin i)"
proof -
  obtain i w' where run: "attach_kprobe demo_env (In_Obj 0 ''f'') (Is_KProbe KRetProbe_K)
      \<lparr>kprobe_data = \<lparr>db_tree = ''k''\<rparr>\<rparr> demo_probe_world = (Ok i, w')"
    using is_ok_run [OF demo_probe_run] by blast
  from kprobe_attached [OF run] run show ?thesis by blast
qed


subsection \<open>The dispatcher of an interface\<close>

text \<open>The scan for a dispatcher, when one tree name alone contains the prefix.\<close>

lemma find_tree_unique:
  assumes "\<And>n. n \<in> set ns \<Longrightarrow> is_str n \<and> (P n \<longleftrightarrow> n = t)" and "t \<in> set ns"
  shows "find_tree P ns = Ok (Some t)"
  using assms by (induction ns) auto

lemma find_tree_absent:
  assumes "\<And>n. n \<in> set ns \<Longrightarrow> is_str n \<and> \<not> P n"
  shows "find_tree P ns = Ok None"
  using assms by (induction ns) auto

definition only_dispatcher :: "trees \<Rightarrow> dispatcher_id \<Rightarrow> string \<Rightarrow> bool" where
  "only_dispatcher T did t \<longleftrightarrow> T t \<noteq> None \<and> (\<exists>pre. dispatcher_tree_prefix did = Some pre \<and>
     (\<forall>s. T s \<noteq> None \<longrightarrow> is_str s \<and> (str_contains s pre \<longleftrightarrow> s = t)))"

context store
begin

lemma get_dispatcher_found:
  assumes "only_dispatcher (\<alpha> d) did t" and "dispatcher_new_from_db t = (Ok disp :: ('e, dispatcher) res)"
  shows "(get_dispatcher H did :: ('d, 'e, dispatcher option) st) d = (Ok (Some disp), opened H t d)"
proof -
  from assms(1) obtain pre where pre: "dispatcher_tree_prefix did = Some pre" "\<alpha> d t \<noteq> None"
      "\<And>s. \<alpha> d s \<noteq> None \<Longrightarrow> is_str s \<and> (str_contains s pre \<longleftrightarrow> s = t)"
    by (auto simp: only_dispatcher_def)
  have "find_tree (\<lambda>s. str_contains s pre) (db_tree_names H d) = (Ok (Some t) :: ('e, string option) res)"
    by (rule find_tree_unique) (use pre in \<open>auto simp: in_names\<close>)
  then show ?thesis using pre(1) assms(2) by (simp add: get_dispatcher_def bind_st_def then_st_def)
qed

lemma num_attached_found:
  assumes "only_dispatcher (\<alpha> d) did t" and "dispatcher_new_from_db t = (Ok disp :: ('e, dispatcher) res)"
    and "num_extensions H disp (opened H t d) = (Ok n :: ('e, usize) res)"
  shows "(num_attached_programs H did :: ('d, 'e, usize) st) d = (Ok n, opened H t d)"
  using get_dispatcher_found [OF assms(1, 2)] assms(3) by (simp add: num_attached_programs_def bind_st_def)

end

lemma xdp_dispatcher_from_tree:
  "dispatcher_new_from_db (xdp_disp_tree i r) = Ok (Dispatcher_Xdp \<lparr>xd_tree = xdp_disp_tree i r, xd_loader = None\<rparr>)"
proof -
  have "str_contains (xdp_disp_tree i r) ''xdp''"
    by (auto simp: str_contains_def xdp_disp_tree_def sublist_def)
  moreover have "is_str (xdp_disp_tree i r)" by (simp add: xdp_disp_tree_def)
  ultimately show ?thesis by (simp add: dispatcher_new_from_db_def xd_new_from_db_def)
qed

context store
begin

lemma num_extensions_stored:
  assumes "dispatcher_new_from_db t = (Ok disp :: ('e, dispatcher) res)"
    and "\<alpha> d t = Some m" and "m NUM_EXTENSIONS = Some (ne8 H n)"
  shows "num_extensions H disp d = Ok n"
  using assms
  by (auto simp: dispatcher_new_from_db_def ok_map_eq_Ok xd_new_from_db_def td_new_from_db_def
      xd_get_num_extensions_def td_get_num_extensions_def split: if_splits)

end




text \<open>A full dispatcher and one with a single program.\<close>

definition demo_full_db :: "usize \<Rightarrow> ref_db" where
  "demo_full_db n = [
     (xdp_disp_tree 4 2, [(IF_INDEX, ne4 ref_host 4), (REVISION, ne4 ref_host 2), (NUM_EXTENSIONS, ne8 ref_host n)]),
     (''p'', [(NAME, as_bytes ''xdp_pass''), (PROGRAM_BYTES, [7]), (XDP_IF_INDEX, ne4 ref_host 4)])]"

definition demo_full_world :: "usize \<Rightarrow> ref_db kworld" where
  "demo_full_world n = \<lparr>wdb = demo_full_db n,
     wfs = [dispatcher_dir RTDIR_FS_XDP 4 2 \<mapsto> Dir 0, xdp_link_path 4 \<mapsto> File 0], wkern = []\<rparr>"

lemma demo_full_trees:
  "ref_abs (demo_full_db n) = [xdp_disp_tree 4 2 \<mapsto> map_of [(IF_INDEX, ne4 ref_host 4), (REVISION, ne4 ref_host 2),
       (NUM_EXTENSIONS, ne8 ref_host n)],
     ''p'' \<mapsto> map_of [(NAME, as_bytes ''xdp_pass''), (PROGRAM_BYTES, [7]), (XDP_IF_INDEX, ne4 ref_host 4)]]"
proof -
  have "xdp_disp_tree 4 2 \<noteq> ''p''" by (simp add: xdp_disp_tree_def)
  then show ?thesis by (intro ext) (simp add: ref_abs_def demo_full_db_def)
qed

definition demo_disp_tree :: "usize \<Rightarrow> tree" where
  "demo_disp_tree n = map_of [(IF_INDEX, ne4 ref_host 4), (REVISION, ne4 ref_host 2), (NUM_EXTENSIONS, ne8 ref_host n)]"

lemma demo_full_disp: "ref_abs (demo_full_db n) (xdp_disp_tree 4 2) = Some (demo_disp_tree n)"
  by (simp add: ref_abs_def demo_full_db_def demo_disp_tree_def)

lemma demo_only_dispatcher:
  "only_dispatcher (ref_abs (demo_full_db n)) (DispatcherId_Xdp (DispatcherInfo 4 None)) (xdp_disp_tree 4 2)"
proof -
  have "str_contains (xdp_disp_tree 4 2) (XDP_DISPATCHER_PREFIX @ ''_'' @ show_u32 4)"
    unfolding str_contains_def xdp_disp_tree_def
    by (rule prefix_imp_sublist) simp
  moreover have "\<not> str_contains ''p'' (XDP_DISPATCHER_PREFIX @ ''_'' @ show_u32 4)"
    by (auto simp: str_contains_def sublist_Cons_right)
  moreover have "is_str (xdp_disp_tree 4 2)" "xdp_disp_tree 4 2 \<noteq> ''p''" by (simp_all add: xdp_disp_tree_def)
  ultimately show ?thesis by (auto simp: only_dispatcher_def demo_full_trees split: if_splits)
qed







subsection \<open>Requests that are refused\<close>

text \<open>
  Without the privilege to raise the memory limit every request fails at once, with the same
  error and without any effect on the database, the file system or the kernel.
\<close>

lemma unprivileged_refused:
  assumes "caps_readable (e_start E)" and "\<not> setrlimit_ok (e_start E)"
  shows "add_program E tmp p w = (Err (RpcSendError ''must be privileged to run bpfman''), w)
    \<and> remove_program E i w = (Err (RpcSendError ''must be privileged to run bpfman''), w)
    \<and> list_programs E lf w = (Err (RpcSendError ''must be privileged to run bpfman''), w)
    \<and> get_program E i w = (Err (RpcSendError ''must be privileged to run bpfman''), w)
    \<and> pull_bytecode E img w = (Err (show_bpfman_error (RpcSendError ''must be privileged to run bpfman'')), w)"
proof -
  have "setup_bpfman E w = (Err (RpcSendError ''must be privileged to run bpfman''), w)"
    using assms by (simp add: setup_bpfman_def initialize_bpfman_def has_cap_readable then_st_def bind_st_def map_err_st_def)
  then show ?thesis
    by (simp add: add_program_def remove_program_def list_programs_def get_program_def pull_bytecode_def
        Let_def bind_st_def then_st_def map_err_st_def)
qed

lemma unprivileged_refused_witness:
  "add_program (demo_env\<lparr>e_start := demo_start\<lparr>setrlimit_ok := False\<rparr>\<rparr>) [] (Program_Xdp \<lparr>xdp_data = \<lparr>db_tree = ''p''\<rparr>\<rparr>)
     demo_slot_world = (Err (RpcSendError ''must be privileged to run bpfman''), demo_slot_world)"
  using unprivileged_refused [of "demo_env\<lparr>e_start := demo_start\<lparr>setrlimit_ok := False\<rparr>\<rparr>"]
  by (simp add: demo_start_def caps_readable_def)

text \<open>
  An id that is not in the database cannot be removed, and it can be looked up only when the
  kernel reports it; both requests leave the database as the start-up left it, and the lookup asks
  the kernel for nothing but its list of programs.
\<close>

lemma unknown_program_refused:
  assumes "store (e_db E) \<alpha>" and "setup_bpfman E w = (Ok cfg, v)" and "\<alpha> (wdb v) (prog_tree i) = None"
  shows "remove_program E i w = (Err (Error (''Program '' @ show_u32 i @ '' does not exist or was not created by bpfman'')), v)
    \<and> ((\<forall>prog. Inr prog \<in> set (a_loaded (e_aya E) (wkern v)) \<longrightarrow> api_id prog \<noteq> i) \<longrightarrow>
         get_program E i w = (Err (Error (''Program '' @ show_u32 i @ '' does not exist'')), v\<lparr>wkern := wkern v @ [K_Loaded_Programs]\<rparr>))"
proof -
  have none: "(get_by_id (e_db E) i :: ('a, bpfman_error, program option) st) (wdb v) = (Ok None, wdb v)"
    by (rule store.get_by_id_none [OF assms(1, 3)])
  have "(find_loaded (e_db E) i ps :: ('a, bpfman_error, program option) st) d = (Ok None, d)"
    if "\<forall>prog. Inr prog \<in> set ps \<longrightarrow> api_id prog \<noteq> i" for ps d
    using that by (induction ps rule: find_loaded.induct [of _ "e_db E" i]) auto
  with none assms(2) show ?thesis
    by (simp add: remove_program_def get_program_def Let_def bind_st_def)
qed

lemma setup_keeps_db: "setup_bpfman E w = (r, v) \<Longrightarrow> wdb v = wdb w"
  by (auto simp: setup_bpfman_def Let_def then_st_def bind_st_def map_err_st_def split: prod.splits res.splits)

definition demo_ready_env :: "(ref_db, unit, unit) env" where
  "demo_ready_env = demo_env\<lparr>e_start := demo_mounted\<rparr>"

lemma demo_setup_files:
  assumes "\<forall>p \<in> set startup_dirs. path_free (wfs w) p"
  shows "\<exists>cfg v. setup_bpfman demo_ready_env w = (Ok cfg, v) \<and> (\<forall>q. is_file (wfs v) q \<longleftrightarrow> is_file (wfs w) q)"
proof -
  obtain g where "initialize_bpfman demo_mounted (\<lambda>op q. None) (wfs w) = (Ok (), g)" "\<forall>q. is_file g q \<longleftrightarrow> is_file (wfs w) q"
    using startup_run [OF demo_mounted_ok, of "\<lambda>op q. None" "wfs w"] assms by (auto simp: keeps_dirs_def)
  moreover have "fst (init_database (open_config_file (\<lambda>s. Inl s) (Inl [])) (\<lambda>n. Inr ())) = Ok ()" by code_simp
  ultimately show ?thesis
    by (simp add: setup_bpfman_def demo_ready_env_def demo_env_def Let_def then_st_def bind_st_def map_err_st_def)
qed

lemma demo_setup_run:
  "wfs w = Map.empty \<Longrightarrow> \<exists>cfg v. setup_bpfman demo_ready_env w = (Ok cfg, v) \<and> (\<forall>q. \<not> is_file (wfs v) q)"
  using demo_setup_files [of w] by (auto simp: path_free_def is_file_def)

lemma unknown_program_refused_witness:
  "\<exists>v. remove_program demo_ready_env 9 demo_slot_world =
     (Err (Error (''Program '' @ show_u32 9 @ '' does not exist or was not created by bpfman'')), v)"
proof -
  obtain cfg v where run: "setup_bpfman demo_ready_env demo_slot_world = (Ok cfg, v)"
    using demo_setup_run [of demo_slot_world] by (auto simp: demo_slot_world_def)
  have "ref_abs (wdb v) (prog_tree 9) = None"
    using setup_keeps_db [OF run] by (simp add: demo_slot_world_def demo_slot_db_def ref_abs_def prog_tree_def)
  moreover have "store (e_db demo_ready_env) ref_abs" using ref_store by (simp add: demo_ready_env_def demo_env_def)
  ultimately show ?thesis using unknown_program_refused [OF _ run] by blast
qed



subsection \<open>Listing what is loaded\<close>

fun is_unsupported :: "program \<Rightarrow> bool" where
  "is_unsupported (Program_Unsupported _) = True"
| "is_unsupported _ = False"

text \<open>What the listing shows for a program the kernel reports, and the reports without errors.\<close>

definition shown :: "(u32, program) hashmap \<Rightarrow> aya_prog_info \<Rightarrow> program" where
  "shown known prog = (case map_of known (api_id prog) of
     Some p \<Rightarrow> p | None \<Rightarrow> Program_Unsupported \<lparr>db_tree = show_u32 (api_id prog)\<rparr>)"

definition reported :: "(string + aya_prog_info) list \<Rightarrow> aya_prog_info list" where
  "reported loaded = List.map_filter (\<lambda>x. case x of Inl e \<Rightarrow> None | Inr prog \<Rightarrow> Some prog) loaded"

lemma reported_simps [simp]:
  "reported [] = []" "reported (Inl e # l) = reported l" "reported (Inr prog # l) = prog # reported l"
  by (simp_all add: reported_def map_filter_def)

lemma plain_filter_matches:
  assumes "lf_program_type lf = None" and "metadata_selector lf = []" and "list_filter_matches H lf p d = Ok b"
  shows "b = (\<not> (bpfman_programs_only lf \<and> is_unsupported p))"
  using assms by (cases p) (auto simp: list_filter_matches_def bind_res_eq_Ok)

lemma unsupported_program_Ok:
  "unsupported_program H prog put d = (Ok p, d') \<Longrightarrow> p = Program_Unsupported \<lparr>db_tree = show_u32 (api_id prog)\<rparr>"
  by (auto simp: unsupported_program_def Let_def then_st_eq_Ok new_empty_def)

lemma list_loaded_ok:
  assumes "lf_program_type lf = None" and "metadata_selector lf = []"
    and "list_loaded H lf known loaded d = (Ok ps :: ('e, program list) res, d')" and "distinct (map api_id (reported loaded))"
  shows "ps = filter (\<lambda>p. \<not> (bpfman_programs_only lf \<and> is_unsupported p)) (map (shown known) (reported loaded))"
  using assms(3, 4)
proof (induction loaded arbitrary: known ps d d')
  case Nil
  then show ?case by simp
next
  case (Cons x loaded)
  show ?case
  proof (cases x)
    case (Inl e)
    with Cons show ?thesis by simp
  next
    case (Inr prog)
    let ?known = "filter (\<lambda>kv. fst kv \<noteq> api_id prog) known"
    from Cons.prems(1) Inr obtain p d1 b rest d2 where
      p: "(case map_of known (api_id prog) of Some p \<Rightarrow> ret p
         | None \<Rightarrow> unsupported_program H prog (\<lambda>data. ignore_st (set_kernel_info H data prog))) d = (Ok p :: ('e, program) res, d1)"
      and b: "list_filter_matches H lf p d1 = (Ok b :: ('e, bool) res)"
      and rest: "list_loaded H lf ?known loaded d1 = (Ok rest :: ('e, program list) res, d2)"
      and ps: "ps = (if b then p # rest else rest)"
      by (auto simp: bind_st_eq_Ok split del: if_split)
    have p': "p = shown known prog"
      using p by (auto simp: shown_def dest: unsupported_program_Ok split: option.splits)
    have same: "map (shown ?known) (reported loaded) = map (shown known) (reported loaded)"
      using Cons.prems(2) Inr map_of_filter_key [of "api_id prog" known] by (auto simp: shown_def case_prod_beta' image_iff)
    have "rest = filter (\<lambda>p. \<not> (bpfman_programs_only lf \<and> is_unsupported p)) (map (shown known) (reported loaded))"
      using Cons.IH [OF rest] Cons.prems(2) Inr unfolding same by simp
    then show ?thesis using p' Inr ps plain_filter_matches [OF assms(1, 2) b] by simp
  qed
qed

text \<open>
  C27: a listing without type and metadata filters shows the programs the kernel reports, in its order
  and each once: those of bpfman as the database has them, the others as unsupported programs,
  which a request for bpfman's own programs leaves out.
\<close>

theorem list_shows_loaded:
  assumes "lf_program_type lf = None" and "metadata_selector lf = []"
    and "setup_bpfman E w = (Ok cfg, v)" and "get_programs_iter (e_db E) (wdb v) = (Ok known :: (bpfman_error, (u32 \<times> program) list) res, d)"
    and "distinct (map api_id (reported (a_loaded (e_aya E) (wkern v))))"
    and "list_programs E lf w = (Ok ps, w')"
  shows "ps = filter (\<lambda>p. \<not> (bpfman_programs_only lf \<and> is_unsupported p))
      (map (shown (rev known)) (reported (a_loaded (e_aya E) (wkern v))))
    \<and> wkern w' = wkern v @ [K_Loaded_Programs] \<and> wfs w' = wfs v"
proof -
  let ?l = "a_loaded (e_aya E) (wkern v)"
  have run: "list_programs E lf w = on_db (list_loaded (e_db E) lf (rev known) ?l) (v\<lparr>wdb := d, wkern := wkern v @ [K_Loaded_Programs]\<rparr>)"
    using assms(3, 4) by (simp add: list_programs_def bind_st_def)
  have "on_db (list_loaded (e_db E) lf (rev known) ?l) (v\<lparr>wdb := d, wkern := wkern v @ [K_Loaded_Programs]\<rparr>) = (Ok ps :: (bpfman_error, program list) res, w')"
    unfolding run [symmetric] by (rule assms(6))
  then obtain d' where d': "list_loaded (e_db E) lf (rev known) ?l d = (Ok ps :: (bpfman_error, program list) res, d')"
    "w' = (v\<lparr>wdb := d, wkern := wkern v @ [K_Loaded_Programs]\<rparr>)\<lparr>wdb := d'\<rparr>"
    unfolding on_db_eq_Ok by auto
  from list_loaded_ok [OF assms(1, 2) d'(1) assms(5)] d'(2) show ?thesis by simp
qed

text \<open>A database with no programs, and the program the kernel of the demonstration reports.\<close>

definition all_filter :: list_filter where
  "all_filter = \<lparr>lf_program_type = None, metadata_selector = [], bpfman_programs_only = False\<rparr>"

definition demo_empty_world :: "ref_db kworld" where
  "demo_empty_world = \<lparr>wdb = [], wfs = Map.empty, wkern = []\<rparr>"

lemma demo_list_run:
  "is_ok (fst ((list_loaded ref_host all_filter [] [Inr demo_info] :: (ref_db, bpfman_error, program list) st) []))"
  by code_simp

theorem list_shows_loaded_witness:
  "\<exists>ps w'. list_programs demo_ready_env all_filter demo_empty_world = (Ok ps, w') \<and> ps = [shown [] demo_info]"
proof -
  obtain cfg v where run: "setup_bpfman demo_ready_env demo_empty_world = (Ok cfg, v)"
    using demo_setup_run [of demo_empty_world] by (auto simp: demo_empty_world_def)
  note keep = setup_keeps_db [OF run]
  have known: "get_programs_iter (e_db demo_ready_env) (wdb v) = (Ok [] :: (bpfman_error, (u32 \<times> program) list) res, [])"
    using keep by (simp add: demo_empty_world_def demo_ready_env_def demo_env_def get_programs_iter_def ref_host_def)
  have loaded: "a_loaded (e_aya demo_ready_env) l = [Inr demo_info]" for l
    by (simp add: demo_ready_env_def demo_env_def demo_aya_def)
  obtain ps d' where "(list_loaded ref_host all_filter [] [Inr demo_info] :: (ref_db, bpfman_error, program list) st) [] = (Ok ps, d')"
    using is_ok_run [OF demo_list_run] by blast
  then have listed: "list_programs demo_ready_env all_filter demo_empty_world = (Ok ps, v\<lparr>wdb := d', wkern := wkern v @ [K_Loaded_Programs]\<rparr>)"
    using run known loaded
    by (simp add: list_programs_def bind_st_def demo_ready_env_def demo_env_def del: list_loaded.simps)
  have "lf_program_type all_filter = None" "metadata_selector all_filter = []" "\<not> bpfman_programs_only all_filter"
    by (simp_all add: all_filter_def)
  moreover have "distinct (map api_id (reported (a_loaded (e_aya demo_ready_env) (wkern v))))" by (simp add: loaded)
  ultimately have "ps = [shown [] demo_info]"
    using list_shows_loaded [OF _ _ run known _ listed] by (simp add: loaded)
  with listed show ?thesis by blast
qed

end
