(* ===== verification/Program_Lifecycle.thy ===== *)
theory Program_Lifecycle
  imports Db_Evolution Manager_Behaviour Program_Order
begin

text \<open>
  The life of a program across requests. A program is built in a temporary tree \<open>pre_load_tree r\<close>,
  loaded and attached, entered among the users of its maps and moved to the tree of the id the
  kernel gave it; removing it undoes this. The lemmas follow \<open>add_program\<close> and \<open>remove_program\<close> of
  \<open>lib.rs\<close> for all kinds of programs and every outcome. The properties say that a program that
  was added is found under its id with its maps accounted for, that a program that was removed
  is gone, and that no sequence of requests leaves a database the manager cannot read back.
\<close>


subsection \<open>Loading a program\<close>

lemma hoare_step:
  "stable V P m \<Longrightarrow> (\<And>a. hoare V P (f a) Q P) \<Longrightarrow> hoare V P (bind_st m f) Q P"
  "stable V P m \<Longrightarrow> hoare V P n Q P \<Longrightarrow> hoare V P (then_st m n) Q P"
  unfolding then_st_def by (rule hoare_bind, assumption+)+

lemma hoare_result: "R a \<Longrightarrow> hoare V P (ret a) (\<lambda>a T. P T \<and> R a) P"
  by (rule hoare_ret) simp

lemma hoare_cases:
  "hoare V P m Q E \<Longrightarrow> hoare V P n Q E \<Longrightarrow> hoare V P (if b then m else n) Q E"
  "hoare V P m Q E \<Longrightarrow> (\<And>a b. hoare V P (f a b) Q E) \<Longrightarrow> hoare V P (case xs of [a, b] \<Rightarrow> f a b | _ \<Rightarrow> m) Q E"
  by (auto split: list.split)

lemma hoare_throw: "(\<And>T. P T \<Longrightarrow> E T) \<Longrightarrow> hoare V P (throw e) Q E"
  by (rule hoareI) auto

lemma hoare_skip: "quiet V m \<Longrightarrow> (\<And>a. hoare V P (f a) Q E) \<Longrightarrow> (\<And>T. P T \<Longrightarrow> E T) \<Longrightarrow> hoare V P (bind_st m f) Q E"
  by (rule hoare_bind [OF hoare_quiet])

lemma hoare_map_err: "hoare V P m Q E \<Longrightarrow> hoare V P (map_err_st g m) Q E"
proof -
  assume m: "hoare V P m Q E"
  have "(\<forall>a. r = Ok a \<longrightarrow> Q a (V s')) \<and> ((\<forall>a. r \<noteq> Ok a) \<longrightarrow> E (V s'))" if "P (V s)" "map_err_st g m s = (r, s')" for s r s'
    using that hoareD [OF m, of s] by (cases "m s"; cases "fst (m s)") (auto simp: map_err_st_def)
  then show ?thesis by (simp add: hoare_def)
qed

text \<open>The temporary tree of a program, with an id of \<open>F\<close>.\<close>

definition pre_ok :: "'d host \<Rightarrow> u32 set \<Rightarrow> trees \<Rightarrow> u32 \<Rightarrow> bool" where
  "pre_ok H F T r \<longleftrightarrow> (\<exists>m. \<exists>i \<in> F. T (pre_load_tree r) = Some m \<and> m ID = Some (ne4 H i))"

lemma pre_ok_evolves:
  assumes "pre_ok H F T r" and "evolves H F X T T'" and "pre_load_tree r \<in> X"
  shows "pre_ok H F T' r"
proof -
  obtain m i where m: "T (pre_load_tree r) = Some m" "i \<in> F" "m ID = Some (ne4 H i)"
    using assms(1) by (auto simp: pre_ok_def)
  obtain m' where m': "T' (pre_load_tree r) = Some m'" using evolves_live [OF assms(2, 3)] m(1) by blast
  have "m' ID = m ID \<or> (\<exists>i \<in> F. m' ID = Some (ne4 H i))"
    using evolvesD(4) [OF assms(2) m(1) m'] by (simp add: tree_evolves_def)
  then show ?thesis using m m' by (auto simp: pre_ok_def)
qed

context store
begin

lemma get_id_triple:
  assumes "e_db E = H" and "pre_ok H F T0 r" and "db_tree pd = pre_load_tree r"
  shows "hoare (\<lambda>w. \<alpha> (wdb w)) (evolves H F core T0) (from_db (get_id (e_db E) pd))
    (\<lambda>i T. evolves H F core T0 T \<and> i \<in> F) (evolves H F core T0)"
proof (rule hoareI)
  fix w i w' assume e: "evolves H F core T0 (\<alpha> (wdb w))" and run: "from_db (get_id (e_db E) pd) w = (Ok i, w')"
  have "pre_ok H F (\<alpha> (wdb w)) r" by (rule pre_ok_evolves [OF assms(2) e]) simp
  then obtain m j where m: "\<alpha> (wdb w) (pre_load_tree r) = Some m" "j \<in> F" "m ID = Some (ne4 H j)"
    by (auto simp: pre_ok_def)
  then have "get_id H pd (wdb w) = Ok j" using assms(3) by (simp add: get_id_def)
  then show "evolves H F core T0 (\<alpha> (wdb w')) \<and> i \<in> F" using run e m(2) assms(1) by auto
qed auto

lemma record_triple:
  assumes "e_db E = H" and "reports (e_aya E) F" and "pre_ok H F T0 r" and "db_tree pd = pre_load_tree r"
  shows "hoare (\<lambda>w. \<alpha> (wdb w)) (evolves H F core T0) (record_kernel_info E p pd)
    (\<lambda>i T. evolves H F core T0 T \<and> i \<in> F) (evolves H F core T0)"
proof -
  have live: "db_tree pd \<in> core" "T0 (db_tree pd) \<noteq> None" "db_tree pd \<notin> range map_tree" "db_tree pd \<notin> range prog_tree"
    using assms(3, 4) by (auto simp: pre_ok_def)
  have info: "stable (\<lambda>w. \<alpha> (wdb w)) (evolves H F core T0) (on_db (set_kernel_info H pd info))" if "api_id info \<in> F" for info
    by (rule stable_on_db) (rule set_kernel_info_evo [of pd core T0, OF live that])
  have "hoare (\<lambda>w. \<alpha> (wdb w)) (evolves H F core T0) (map_err_st BpfProgramError (k_info (e_aya E) p))
      (\<lambda>info T. evolves H F core T0 T \<and> api_id info \<in> F) (evolves H F core T0)"
    using assms(2) by (intro hoareI) (auto simp: map_err_st_def k_info_def reports_def split: prod.splits)
  then show ?thesis
    unfolding record_kernel_info_def assms(1)
    by (rule hoare_bind) (rule hoare_pure, rule hoare_step(2) [OF info], assumption,
      rule get_id_triple [OF assms(1, 3, 4), unfolded assms(1)])
qed


lemma pin_quiet:
  "quiet (\<lambda>w. \<alpha> (wdb w)) (pin_link A p msg l i)" "quiet (\<lambda>w. \<alpha> (wdb w)) (pin_program A p i)"
  unfolding pin_link_def pin_program_def by (intro quiet_rules)+

lemma attach_in_container_quiet: "quiet (\<lambda>w. \<alpha> (wdb w)) (attach_uprobe_in_container E program i c)"
proof -
  have "quiet (\<lambda>w. \<alpha> (wdb w)) (case out of Inr (True, _) \<Rightarrow> ret () | _ \<Rightarrow> m)" if "quiet (\<lambda>w. \<alpha> (wdb w)) m"
    for out :: "string + bool \<times> bytes" and m :: "('d kworld, bpfman_error, unit) st"
    using that by (auto split: sum.split prod.split bool.split intro: quiet_rules)
  note out = this
  show ?thesis unfolding attach_uprobe_in_container_def Let_def by (intro quiet_rules out)
qed

lemma attach_single_triple:
  assumes "e_db E = H" and "reports (e_aya E) F" and "pre_ok H F T0 r"
    and "db_tree (program_get_data program) = pre_load_tree r"
  shows "hoare (\<lambda>w. \<alpha> (wdb w)) (evolves H F core T0) (attach_single E p k program)
    (\<lambda>i T. evolves H F core T0 T \<and> i \<in> F) (evolves H F core T0)"
proof -
  let ?V = "\<lambda>w :: 'd kworld. \<alpha> (wdb w)" and ?P = "evolves H F core T0"
  have rec: "hoare ?V ?P (bind_st (record_kernel_info E p pd) f) (\<lambda>i T. ?P T \<and> i \<in> F) ?P"
    if "db_tree pd = pre_load_tree r" "\<And>i. i \<in> F \<Longrightarrow> hoare ?V ?P (f i) (\<lambda>i T. ?P T \<and> i \<in> F) ?P" for pd f
    by (rule hoare_bind [OF record_triple [OF assms(1-3) that(1)]], rule hoare_pure, rule that(2))
  have opt: "stable ?V ?P (if b then m else ret False)" if "stable ?V ?P m"
    for b and m :: "('d kworld, bpfman_error, bool) st" using that by (simp add: stable_leaves)
  note rules = rec hoare_step hoare_cases hoare_throw hoare_result opt stable_cases(2) stable_wrapped stable_leaves
    stable_quiet [OF pin_quiet(1)] stable_quiet [OF pin_quiet(2)] stable_quiet [OF attach_in_container_quiet]
  have fn: "hoare ?V ?P (attach_fn E p k wanted get pd) (\<lambda>i T. ?P T \<and> i \<in> F) ?P" if "db_tree pd = pre_load_tree r"
    for wanted get pd
    unfolding attach_fn_def Let_def by (intro rules that)
  show ?thesis
  proof (cases program)
    case (Program_Tracepoint t)
    then show ?thesis using assms(4)
      by (simp only: attach_single.simps attach_tracepoint_def Let_def) (intro rules; simp)
  next
    case (Program_Kprobe t)
    then show ?thesis using assms(4)
      by (simp only: attach_single.simps attach_kprobe_def Let_def) (intro rules stable_bind; simp)
  next
    case (Program_Uprobe t)
    then show ?thesis using assms(4)
      by (simp only: attach_single.simps attach_uprobe_def Let_def) (intro rules stable_bind; simp)
  next
    case (Program_Fentry t)
    then show ?thesis using assms(4) by (simp add: fn)
  next
    case (Program_Fexit t)
    then show ?thesis using assms(4) by (simp add: fn)
  qed (auto intro: hoareI)
qed


lemma add_single_triple:
  assumes "e_db E = H" and "reports (e_aya E) F" and "pre_ok H F T0 r"
    and "db_tree (program_get_data program) = pre_load_tree r"
  shows "hoare (\<lambda>w. \<alpha> (wdb w)) (evolves H F core T0) (add_single_attach_program E program)
    (\<lambda>i T. evolves H F core T0 T \<and> i \<in> F) (evolves H F core T0)"
proof -
  let ?V = "\<lambda>w :: 'd kworld. \<alpha> (wdb w)" and ?P = "evolves H F core T0"
  have "stable ?V ?P (pin_own_maps E (program_get_data program) i obj)" for i obj
    using assms(3, 4) by (intro pin_own_maps_evo [OF assms(1)]) (auto simp: pre_ok_def)
  then have last: "hoare ?V ?P (bind_st (attach_single E p k program)
      (\<lambda>i. then_st (pin_own_maps E (program_get_data program) i obj) (ret i))) (\<lambda>i T. ?P T \<and> i \<in> F) ?P" for p k obj
    by (intro hoare_bind [OF attach_single_triple [OF assms]] hoare_pure hoare_step hoare_result)
  show ?thesis
    unfolding add_single_attach_program_def Let_def
    by (intro last hoare_step stable_wrapped stable_leaves)
qed


text \<open>A program whose dispatcher cannot be loaded is deleted.\<close>

lemma program_delete_evo:
  assumes "os_db X = H" and "db_tree (program_get_data program) = pre_load_tree r" and "pre_load_tree r \<notin> Y"
  shows "stable (\<lambda>w. \<alpha> (wdb w)) (evolves H F Y T0) (program_delete X program)"
  unfolding program_delete_def assms(1, 2)
  by (intro stable_bind stable_then stable_leaves stable_on_db drop_evo(2)) (use assms(3) in auto)

lemma delete_if_known_triple:
  fixes m :: "('d kworld, bpfman_error, 'a) st"
  assumes "e_db E = H" and "db_tree (program_get_data program) = pre_load_tree r"
    and "stable (\<lambda>w. \<alpha> (wdb w)) (evolves H F core T0) m"
  shows "hoare (\<lambda>w. \<alpha> (wdb w)) (evolves H F core T0) (delete_if_known E program m)
    (\<lambda>_. evolves H F core T0) (evolves H F (core - {pre_load_tree r}) T0)"
proof (rule hoareI)
  let ?V = "\<lambda>w :: 'd kworld. \<alpha> (wdb w)" and ?Y = "core - {pre_load_tree r}"
  fix w a w' assume e: "evolves H F core T0 (?V w)" and run: "delete_if_known E program m w = (Ok a, w')"
  from run have "m w = (Ok a, w')"
    by (auto simp: delete_if_known_def then_st_eq_Ok split: prod.splits res.splits)
  then show "evolves H F core T0 (?V w')" using hoareD_any [OF assms(3) e] by simp
next
  let ?V = "\<lambda>w :: 'd kworld. \<alpha> (wdb w)" and ?Y = "core - {pre_load_tree r}"
  fix w r' w' assume e: "evolves H F core T0 (?V w)" and run: "delete_if_known E program m w = (r', w')" and "\<forall>a. r' \<noteq> Ok a"
  obtain q v where m: "m w = (q, v)" by fastforce
  have v: "evolves H F ?Y T0 (?V v)"
    by (rule evolves_mono [OF hoareD_any [OF assms(3) e m]]) blast
  have del: "stable ?V (evolves H F ?Y T0) (then_st (map_err_st BpfmanProgramDeleteError (program_delete (e_os E) program))
      (throw err :: ('d kworld, bpfman_error, 'a) st))" for err
    by (intro stable_then stable_wrapped stable_leaves program_delete_evo [OF assms(1, 2)]) simp
  show "evolves H F ?Y T0 (?V w')"
    using run m v by (auto simp: delete_if_known_def split: res.splits intro: hoareD_any [OF del v])
qed

end

text \<open>A program of an interface is marked once its dispatcher runs it.\<close>

fun marked :: "'d host \<Rightarrow> trees \<Rightarrow> program \<Rightarrow> bool" where
  "marked H T (Program_Xdp x) \<longleftrightarrow> (\<exists>m. T (db_tree (xdp_data x)) = Some m \<and> m XDP_ATTACHED = Some (ne_bool H True))"
| "marked H T (Program_Tc x) \<longleftrightarrow> (\<exists>m. T (db_tree (tc_data x)) = Some m \<and> m TC_ATTACHED = Some (ne_bool H True))"
| "marked H T _ \<longleftrightarrow> True"

lemma hoare_rebase_result:
  assumes "\<And>T. evolves H F X T0 T \<Longrightarrow> hoare V ((=) T) m (\<lambda>a T'. evolves H F X T T' \<and> R a T') (evolves H F Y T)" and "Y \<subseteq> X"
  shows "hoare V (evolves H F X T0) m (\<lambda>a T'. evolves H F X T0 T' \<and> R a T') (evolves H F Y T0)"
proof (rule hoareI)
  fix s a s' assume e: "evolves H F X T0 (V s)" and run: "m s = (Ok a, s')"
  have "evolves H F X (V s) (V s')" "R a (V s')" using hoareD(1) [OF assms(1) [OF e] refl run] by auto
  with evolves_trans [OF e] show "evolves H F X T0 (V s') \<and> R a (V s')" by blast
next
  fix s r s' assume e: "evolves H F X T0 (V s)" and run: "m s = (r, s')" "\<forall>a. r \<noteq> Ok a"
  have "evolves H F Y (V s) (V s')" by (rule hoareD(2) [OF assms(1) [OF e] refl run])
  with e show "evolves H F Y T0 (V s')" using assms(2) by (rule evolves_trans)
qed

context store
begin

lemma set_attached_triple:
  assumes "pre_ok H F T0 r" and "db_tree (program_get_data program) = pre_load_tree r"
  shows "hoare \<alpha> (evolves H F core T0) (program_set_attached H program)
    (\<lambda>_ T. evolves H F core T0 T \<and> marked H T program) (evolves H F core T0)"
proof -
  have ins: "hoare \<alpha> (evolves H F core T0) (expect_st msg (sled_insert H (pre_load_tree r) k (ne_bool H True)))
      (\<lambda>_ T. evolves H F core T0 T \<and> (\<exists>m. T (pre_load_tree r) = Some m \<and> m k = Some (ne_bool H True)))
      (evolves H F core T0)" if k: "k \<in> att_keys" for msg k
  proof -
    have "may_write H F (pre_load_tree r) k (ne_bool H True)" using k by (auto simp: may_write_def)
    then have st: "stable \<alpha> (evolves H F core T0) (expect_st msg (sled_insert H (pre_load_tree r) k (ne_bool H True)))"
      using assms(1) by (intro stable_wrapped insert_evo) (auto simp: pre_ok_def)
    show ?thesis
    proof (rule hoareI)
      fix d u d' assume e: "evolves H F core T0 (\<alpha> d)"
        and run: "expect_st msg (sled_insert H (pre_load_tree r) k (ne_bool H True)) d = (Ok u, d')"
      obtain m where "\<alpha> d (pre_load_tree r) = Some m"
        using pre_ok_evolves [OF assms(1) e] by (auto simp: pre_ok_def)
      with run hoareD_any [OF st e run] show "evolves H F core T0 (\<alpha> d') \<and>
          (\<exists>m. \<alpha> d' (pre_load_tree r) = Some m \<and> m k = Some (ne_bool H True))"
        by (auto simp: expect_st_eq_Ok sled_insert_def)
    qed (rule hoareD(2) [OF st])
  qed
  show ?thesis
    using assms(2) ins [of XDP_ATTACHED "''unwrap''"] ins [of TC_ATTACHED "''unwrap''"]
    by (cases program) (auto simp: xdp_set_attached_def tc_set_attached_def intro: hoare_ret)
qed


lemma exact_bind:
  assumes "hoare V ((=) T) m (\<lambda>a T'. T = T' \<and> R a) ((=) T)" and "\<And>a. R a \<Longrightarrow> hoare V ((=) T) (f a) Q (evolves H F Y T)"
  shows "hoare V ((=) T) (bind_st m f) Q (evolves H F Y T)"
  by (rule hoare_bind [OF hoare_exact_quiet [OF assms(1)]], rule hoare_pure, rule assms(2))

text \<open>The second half of \<open>add_multi_attach_program\<close>, from the scan of the interface on.\<close>

lemma load_dispatcher_triple:
  assumes "e_db E = H" and "reports (e_aya E) F" and "wf_db H T" and "pre_ok H F T r"
    and t: "db_tree (program_get_data program) = pre_load_tree r"
  shows "hoare (\<lambda>w. \<alpha> (wdb w)) ((=) T)
    (bind_st (on_db (filter_programs H pt ix dir)) (\<lambda>programs.
     bind_st (on_db (get_dispatcher H did)) (\<lambda>old.
     bind_st (from_db (revision_after H old)) (\<lambda>revision.
     then_st (delete_if_known E program (dispatcher_new E im ic programs revision old)) (
     bind_st (from_db (get_id H (program_get_data program))) (\<lambda>i.
     then_st (on_db (program_set_attached H program)) (ret i)))))))
    (\<lambda>i T'. evolves H F core T T' \<and> (i \<in> F \<and> marked H T' program)) (evolves H F (core - {pre_load_tree r}) T)"
proof -
  let ?V = "\<lambda>w :: 'd kworld. \<alpha> (wdb w)" and ?P = "evolves H F core T" and ?Y = "evolves H F (core - {pre_load_tree r}) T"
  have weak: "\<And>T'. ?P T' \<Longrightarrow> ?Y T'" by (erule evolves_mono) blast
  have mark: "hoare ?V ?P (then_st (on_db (program_set_attached H program)) (ret i))
      (\<lambda>i T'. ?P T' \<and> (i \<in> F \<and> marked H T' program)) ?P" if "i \<in> F" for i
    by (rule hoare_then [OF hoare_on_db [OF set_attached_triple [OF assms(4) t]]], rule hoare_ret) (use that in simp)
  have finish: "hoare ?V ?P (bind_st (from_db (get_id H (program_get_data program))) (\<lambda>i.
      then_st (on_db (program_set_attached H program)) (ret i))) (\<lambda>i T'. ?P T' \<and> (i \<in> F \<and> marked H T' program)) ?P"
    by (rule hoare_bind [OF get_id_triple [OF assms(1, 4) t, unfolded assms(1)]], rule hoare_pure, rule mark)
  have load: "hoare ?V ((=) T) (then_st (delete_if_known E program (dispatcher_new E im ic programs revision old))
      (bind_st (from_db (get_id H (program_get_data program))) (\<lambda>i. then_st (on_db (program_set_attached H program)) (ret i))))
      (\<lambda>i T'. ?P T' \<and> (i \<in> F \<and> marked H T' program)) ?Y"
    if "\<forall>p \<in> set programs. prog_ready H T p" "\<forall>x. old = Some x \<longrightarrow> droppable x" for programs revision old
  proof (rule hoare_then [where Q = ?P])
    show "hoare ?V ((=) T) (delete_if_known E program (dispatcher_new E im ic programs revision old)) (\<lambda>_. ?P) ?Y"
      by (rule hoare_exact [OF delete_if_known_triple [OF assms(1) t dispatcher_new_evo [OF assms(1-3)]]]) (use that in auto)
    show "hoare ?V ?P (bind_st (from_db (get_id H (program_get_data program))) (\<lambda>i.
        then_st (on_db (program_set_attached H program)) (ret i))) (\<lambda>i T'. ?P T' \<and> (i \<in> F \<and> marked H T' program)) ?Y"
      by (rule hoare_weaken [OF finish]) (auto intro: weak)
  qed
  have rev: "hoare ?V ((=) T) (from_db (revision_after H old)) (\<lambda>_ T'. T = T' \<and> True) ((=) T)" for old
    by (rule hoareI) auto
  show ?thesis
    by (intro exact_bind [OF hoare_on_db [OF filter_programs_triple [OF assms(3)]]]
        exact_bind [OF hoare_on_db [OF get_dispatcher_triple [OF assms(3)]]] exact_bind [OF rev] load)
qed

lemma add_multi_triple:
  assumes "e_db E = H" and "reports (e_aya E) F" and "wf_db H T0" and "pre_ok H F T0 r"
    and t: "db_tree (program_get_data program) = pre_load_tree r"
  shows "hoare (\<lambda>w. \<alpha> (wdb w)) (evolves H F core T0) (add_multi_attach_program E im cfg program)
    (\<lambda>i T. evolves H F core T0 T \<and> (i \<in> F \<and> marked H T program)) (evolves H F (core - {pre_load_tree r}) T0)"
proof -
  let ?V = "\<lambda>w :: 'd kworld. \<alpha> (wdb w)" and ?Y = "core - {pre_load_tree r}"
  have sub: "?Y \<subseteq> core" by blast
  have num: "stable ?V (evolves H F core T0) (on_db (num_attached_programs H did))" for did
    by (rule stable_on_db, rule stable_from [OF _ assms(3)])
      (auto intro: hoare_weaken [OF num_attached_triple] evolves_refl)
  have second: "hoare ?V (evolves H F core T0)
    (bind_st (on_db (filter_programs H pt ix dir)) (\<lambda>programs.
     bind_st (on_db (get_dispatcher H did)) (\<lambda>old.
     bind_st (from_db (revision_after H old)) (\<lambda>revision.
     then_st (delete_if_known E program (dispatcher_new E im ic programs revision old)) (
     bind_st (from_db (get_id H (program_get_data program))) (\<lambda>i.
     then_st (on_db (program_set_attached H program)) (ret i)))))))
    (\<lambda>i T. evolves H F core T0 T \<and> (i \<in> F \<and> marked H T program)) (evolves H F ?Y T0)" for pt ix dir did ic
    by (rule hoare_rebase_result [OF _ sub], rule load_dispatcher_triple [OF assms(1, 2) _ _ t])
      (auto intro: wf_evolves [OF assms(3)] pre_ok_evolves [OF assms(4)])
  show ?thesis
    unfolding add_multi_attach_program_def Let_def assms(1)
    by (intro second hoare_cases(1) hoare_throw hoare_first [OF _ _ sub] hoare_first_then [OF _ _ sub]
        num positions_evo(2) assms(3) stable_wrapped stable_leaves stable_on_db subset_refl evolves_mono [OF _ sub]; assumption?)
qed


lemma add_by_kind_triple:
  assumes "e_db E = H" and "reports (e_aya E) F" and "wf_db H T0" and "pre_ok H F T0 r"
    and "db_tree (program_get_data program) = pre_load_tree r"
  shows "hoare (\<lambda>w. \<alpha> (wdb w)) (evolves H F core T0) (add_by_kind E im cfg program)
    (\<lambda>i T. evolves H F core T0 T \<and> (i \<in> F \<and> marked H T program)) (evolves H F (core - {pre_load_tree r}) T0)"
proof -
  have single: "hoare (\<lambda>w. \<alpha> (wdb w)) (evolves H F core T0) (add_single_attach_program E program)
      (\<lambda>i T. evolves H F core T0 T \<and> i \<in> F) (evolves H F (core - {pre_load_tree r}) T0)"
    by (rule hoare_weaken [OF add_single_triple [OF assms(1, 2, 4, 5)]]) (auto intro: evolves_mono)
  have "hoare (\<lambda>w. \<alpha> (wdb w)) (evolves H F core T0) (panic msg :: ('d kworld, bpfman_error, u32) st)
      (\<lambda>i T. evolves H F core T0 T \<and> (i \<in> F \<and> marked H T program)) (evolves H F (core - {pre_load_tree r}) T0)" for msg
    by (rule hoareI) (auto intro: evolves_mono)
  then show ?thesis
    using add_multi_triple [OF assms, of im cfg] single by (cases program) (auto simp: add_by_kind_def)
qed


text \<open>What comes before: the map owner, the bytecode and the index of the interface.\<close>

lemma prepare_evo:
  assumes "e_db E = H" and "wf_db H T0" and "pre_ok H F T0 r" and t: "db_tree pd = pre_load_tree r"
  shows "stable (\<lambda>w :: 'd kworld. \<alpha> (wdb w)) (evolves H F core T0) (case owner of
         Some o' \<Rightarrow> bind_st (from_db (is_map_owner_id_valid H o')) (\<lambda>path. on_db (set_map_pin_path H pd path))
       | None \<Rightarrow> ret ())"
    and "stable (\<lambda>w :: 'd kworld. \<alpha> (wdb w)) (evolves H F core T0) (on_db (set_program_bytes H C open_file im pd))"
    and "db_tree (program_get_data program) = pre_load_tree r \<Longrightarrow>
      stable (\<lambda>w. \<alpha> (wdb w)) (evolves H F core T0) (store_if_index E program)"
proof -
  let ?V = "\<lambda>w :: 'd kworld. \<alpha> (wdb w)" and ?P = "evolves H F core T0"
  have live: "pre_load_tree r \<in> core" "T0 (pre_load_tree r) \<noteq> None" "pre_load_tree r \<notin> range map_tree"
    using assms(3) by (auto simp: pre_ok_def)
  have ins: "stable \<alpha> ?P (sled_insert H (pre_load_tree r) k v)" if "plain_key k" for k v
    by (rule insert_evo [of _ core T0, OF live(1, 2) plain_write [OF that live(3)]])
  show "stable ?V ?P (case owner of
         Some o' \<Rightarrow> bind_st (from_db (is_map_owner_id_valid H o')) (\<lambda>path. on_db (set_map_pin_path H pd path)) | None \<Rightarrow> ret ())"
    unfolding set_map_pin_path_def t by (intro evo_rules ins) (simp add: plain_key_def)
  show "stable ?V ?P (on_db (set_program_bytes H C open_file im pd))"
    by (rule stable_on_db, rule set_program_bytes_evo) (use live t assms(2) in \<open>auto simp: wf_db_def\<close>)
  show "stable ?V ?P (store_if_index E program)" if "db_tree (program_get_data program) = pre_load_tree r"
  proof -
    have "stable \<alpha> ?P (program_set_if_index H program ix)" for ix
      using that by (cases program) (auto simp: xdp_set_if_index_def tc_set_if_index_def plain_key_def intro!: ins stable_leaves)
    then show ?thesis
      unfolding store_if_index_def assms(1)
      by (intro stable_cases stable_bind stable_leaves stable_on_db)
  qed
qed

end


subsection \<open>The invariant under the calls that end a request\<close>

lemma wf_upd_users: "wf_db H T \<Longrightarrow> wf_db H (upd_users H us I T)"
proof -
  assume wf: "wf_db H T"
  have "prog_ok H i m \<and> attached_ok H m" if upd: "upd_users H us I T (prog_tree i) = Some m" for i m
  proof -
    obtain m0 where "T (prog_tree i) = Some m0" "m = m0 \<or> m = with_users H us m0"
      using upd by (auto simp: upd_users_def split: if_splits)
    with wf show ?thesis by (auto simp: wf_db_def prog_ok_with_users attached_ok_def with_users_other)
  qed
  moreover have "upd_users H us I T default_tree = T default_tree" by (auto simp: upd_users_def)
  moreover have "known_tree t" if "upd_users H us I T t \<noteq> None" for t
    using that wf unfolding names_upd_users wf_db_def by blast
  ultimately show ?thesis using wf unfolding wf_db_def maps_abs_upd_users by metis
qed

lemma wf_map_upd:
  assumes "wf_db H T" and "users H m M" and "M \<noteq> {#}"
  shows "wf_db H (T(map_tree x \<mapsto> m))"
proof -
  obtain U where U: "maps_abs H T U" "no_orphans U" using assms(1) by (auto simp: wf_db_def)
  have "maps_abs H (T(map_tree x \<mapsto> m)) (U(x \<mapsto> M))" by (rule maps_abs_upd [OF U(1) assms(2)])
  moreover have "no_orphans (U(x \<mapsto> M))" using U(2) assms(3) by (simp add: no_orphans_def)
  ultimately show ?thesis using assms(1) by (auto simp: wf_db_def)
qed

lemma wf_map_drop:
  assumes "wf_db H T"
  shows "wf_db H (T(map_tree x := None))"
proof -
  obtain U where U: "maps_abs H T U" "no_orphans U" using assms by (auto simp: wf_db_def)
  have "maps_abs H (T(map_tree x := None)) (U(x := None))" by (rule maps_abs_drop [OF U(1)])
  moreover have "no_orphans (U(x := None))" using U(2) by (simp add: no_orphans_def)
  ultimately show ?thesis using assms by (auto simp: wf_db_def)
qed

lemma wf_prog_upd:
  assumes "wf_db H T" and "v = None \<or> (\<exists>m. v = Some m \<and> prog_ok H i m \<and> attached_ok H m)"
  shows "wf_db H (T(prog_tree i := v))"
proof -
  have "prog_tree i \<notin> range map_tree" by auto
  then show ?thesis using assms by (auto simp: wf_db_def maps_abs_other split: if_splits)
qed

lemma wf_pre_upd:
  assumes "wf_db H T"
  shows "wf_db H (T(pre_load_tree r := v))"
proof -
  have "pre_load_tree r \<notin> range map_tree" by auto
  then show ?thesis using assms by (auto simp: wf_db_def maps_abs_other split: if_splits)
qed

text \<open>The ids that no program and no map has.\<close>

definition unused :: "trees \<Rightarrow> u32 set" where
  "unused T = {i. T (prog_tree i) = None \<and> T (map_tree i) = None}"

lemma unused_evolves: "i \<in> unused T \<Longrightarrow> evolves H F X T T' \<Longrightarrow> i \<in> unused T'"
  using evolvesD(1) [of H F X T T' i] evolvesD(2) [of H F X T T' "prog_tree i"]
  by (cases "T' (prog_tree i)") (auto simp: unused_def)

text \<open>A tree that stays, but for the list of the users of its maps.\<close>

definition users_only :: "trees \<Rightarrow> trees \<Rightarrow> string \<Rightarrow> bool" where
  "users_only T T' t \<longleftrightarrow> rel_option (\<lambda>m m'. \<forall>k. \<not> prefix PREFIX_MAPS_USED_BY k \<longrightarrow> m' k = m k) (T t) (T' t)"

lemma users_only_cong: "T t = T' t \<Longrightarrow> users_only T T' t"
  by (simp add: users_only_def option.rel_refl)

lemma users_only_upd: "users_only T T1 t \<Longrightarrow> users_only T (upd_users H us I T1) t"
  by (auto simp: users_only_def upd_users_def with_users_other rel_option_iff split: option.splits)

context store
begin

text \<open>What \<open>save_map\<close> leaves, whatever its outcome.\<close>

lemma save_map_trees:
  assumes H: "os_db E = H" and wf: "wf_db H (\<alpha> (wdb w))" and abs: "maps_abs H (\<alpha> (wdb w)) U"
    and t: "db_tree (program_get_data p) = pre_load_tree r" and pm: "\<alpha> (wdb w) (pre_load_tree r) = Some pm"
    and i: "i \<in> unused (\<alpha> (wdb w))" and run: "save_map E p i owner w = (res, w')"
  shows "wf_db H (\<alpha> (wdb w'))" and "res = Ok () \<Longrightarrow> maps_abs H (\<alpha> (wdb w')) (spec_save i owner U)"
    and "t \<in> prog_trees \<Longrightarrow> users_only (\<alpha> (wdb w)) (\<alpha> (wdb w')) t"
proof -
  let ?T = "\<alpha> (wdb w)" and ?T' = "\<alpha> (wdb w')"
  have inv: "db_inv H ?T U" by (rule wf_db_inv [OF wf abs])
  have str: "\<And>t. ?T t \<noteq> None \<Longrightarrow> is_str t" and progs: "programs_ok H ?T" using inv by (auto simp: db_inv_def)
  have pm': "?T (db_tree (program_get_data p)) = Some pm" using t pm by simp
  have pre: "users_only ?T (?T(map_tree x \<mapsto> m, pre_load_tree r \<mapsto> with_users H us pm)) t" if "t \<in> prog_trees" for x m us t
    using that pm by (auto simp: users_only_def with_users_other option.rel_refl)
  have "wf_db H ?T' \<and> (res = Ok () \<longrightarrow> maps_abs H ?T' (spec_save i owner U)) \<and> (\<forall>t \<in> prog_trees. users_only ?T ?T' t)"
  proof (cases owner)
    case None
    have fresh: "?T (map_tree i) = None" using i by (simp add: unused_def)
    let ?m = "numbered MAPS_USED_BY_PREFIX [ne4 H i]"
    obtain d' where run': "wdb w' = d'" and T': "\<alpha> d' = ?T(map_tree i \<mapsto> ?m, pre_load_tree r \<mapsto> with_users H [i] pm)"
      by (rule save_own_run [OF H fresh t pm'])
        (use run None in \<open>auto split: res.splits option.splits prod.splits\<close>)
    have u: "users H ?m {#i#}" using users_numbered [of Map.empty H "[i]"] by simp
    have ne: "pre_load_tree r \<notin> range map_tree" by auto
    have "wf_db H ?T'" unfolding run' T' by (intro wf_pre_upd wf_map_upd [OF wf u]) simp
    moreover have "maps_abs H ?T' (U(i \<mapsto> {#i#}))"
      unfolding run' T' maps_abs_other [OF ne] by (rule maps_abs_upd [OF abs u])
    ultimately show ?thesis unfolding run' T' using None pre by (simp add: spec_save_def)
  next
    case (Some x)
    show ?thesis
    proof (cases "U x")
      case None
      then have "?T (map_tree x) = None" using db_inv_tree [OF inv] by simp
      then have "(get_map H x :: ('d, bpfman_error, string option) st) (wdb w) = (Ok None, wdb w)"
        by (intro get_map_none str)
      then have "w' = w" "res \<noteq> Ok ()"
        using run Some by (auto simp: save_map_def H bind_st_def Let_def)
      then show ?thesis using wf by (simp add: users_only_cong)
    next
      case (Some M)
      from inv Some obtain m where m: "?T (map_tree x) = Some m" "users H m M" by (rule db_inv_map)
      let ?m = "m(MAPS_USED_BY_PREFIX @ show_nat (size M + 1) \<mapsto> ne4 H i)"
      obtain d' us where d': "wdb w' = d'" "res = Ok ()" "mset us = add_mset i M"
        and T': "\<alpha> d' = upd_users H us (set us) (?T(map_tree x \<mapsto> ?m, pre_load_tree r \<mapsto> with_users H us pm))"
        by (rule save_shared_run [OF H str progs m t pm', of i]) (use run \<open>owner = Some x\<close> in auto)
      have u: "users H ?m (add_mset i M)" by (rule users_push_map [OF m(2)])
      have ne: "pre_load_tree r \<notin> range map_tree" by auto
      have "wf_db H ?T'" unfolding d'(1) T' by (intro wf_upd_users wf_pre_upd wf_map_upd [OF wf u]) simp
      moreover have "maps_abs H ?T' (U(x \<mapsto> add_mset i M))"
        unfolding d'(1) T' maps_abs_upd_users maps_abs_other [OF ne] by (rule maps_abs_upd [OF abs u])
      moreover have "\<forall>t \<in> prog_trees. users_only ?T ?T' t" unfolding d'(1) T' using pre by (blast intro: users_only_upd)
      ultimately show ?thesis using \<open>owner = Some x\<close> Some by (simp add: spec_save_def)
    qed
  qed
  then show "wf_db H ?T'" and "res = Ok () \<Longrightarrow> maps_abs H ?T' (spec_save i owner U)"
    and "t \<in> prog_trees \<Longrightarrow> users_only ?T ?T' t" by blast+
qed

end


subsection \<open>Ending an addition\<close>

text \<open>A tree that keeps its id and what its request gave.\<close>

definition kept :: "trees \<Rightarrow> trees \<Rightarrow> string \<Rightarrow> bool" where
  "kept T T' t \<longleftrightarrow> rel_option (\<lambda>m m'. \<forall>k. fixed_key k \<or> k = ID \<longrightarrow> m' k = m k) (T t) (T' t)"

lemma kept_cong: "T t = T' t \<Longrightarrow> kept T T' t"
  by (simp add: kept_def option.rel_refl)

lemma kept_trans [trans]: "kept T T' t \<Longrightarrow> kept T' T'' t \<Longrightarrow> kept T T'' t"
  by (auto simp: kept_def rel_option_iff split: option.splits)

lemma kept_None: "kept T T' t \<Longrightarrow> T' t = None \<longleftrightarrow> T t = None"
  by (auto simp: kept_def rel_option_iff split: option.splits)

lemma kept_evolves:
  assumes "evolves H F X T T'" and "prog_tree j \<in> X"
  shows "kept T T' (prog_tree j)"
proof (cases "T (prog_tree j)")
  case None
  then have "T' (prog_tree j) = None" using evolvesD(2) [OF assms(1), of "prog_tree j"] by (cases "T' (prog_tree j)") auto
  with None show ?thesis by (simp add: kept_def)
next
  case (Some m)
  then obtain m' where m': "T' (prog_tree j) = Some m'" using evolves_live [OF assms] by blast
  from evolvesD(4) [OF assms(1) Some m'] show ?thesis using Some m' by (simp add: kept_def tree_evolves_def)
qed

lemma kept_users_only: "users_only T T' t \<Longrightarrow> kept T T' t"
  by (auto simp: kept_def users_only_def fixed_key_def plain_key_def rel_option_iff split: option.splits)

text \<open>A program as a request builds it in its temporary tree.\<close>

definition built :: "'d host \<Rightarrow> u32 \<Rightarrow> tree \<Rightarrow> program \<Rightarrow> bool" where
  "built H r src p \<longleftrightarrow> src ID = Some (ne4 H r) \<and>
     (\<exists>kind \<in> supported_kinds. src KIND = Some (ne4 H (program_type_to_u32 kind)) \<and>
        program_of_kind kind (pre_load_tree r) src = Ok p)"

lemma built_data: "built H r src p \<Longrightarrow> program_get_data p = \<lparr>db_tree = pre_load_tree r\<rparr>"
  unfolding built_def using program_of_supported [of _ "pre_load_tree r" src] by (metis res.inject(1))

lemma program_of_kind_moved:
  assumes "program_of_kind kind t src = Ok p" and "\<And>k. fixed_key k \<Longrightarrow> m k = src k"
  shows "program_of_kind kind t' m = Ok (program_set_data \<lparr>db_tree = t'\<rparr> p)"
  using assms(1) assms(2) [OF fixed_kind(2)] assms(2) [OF fixed_kind(3)]
  by (auto simp: program_of_kind_def split: program_type.splits if_splits)

text \<open>What a successful \<open>add_program\<close> makes of a database \<open>T\<close> with the temporary tree \<open>r\<close>.\<close>

definition added :: "'d host \<Rightarrow> u32 \<Rightarrow> program \<Rightarrow> u32 option \<Rightarrow> trees \<Rightarrow> u32 \<Rightarrow> trees \<Rightarrow> bool" where
  "added H r p owner T i T' \<longleftrightarrow> wf_db H T' \<and> T' (pre_load_tree r) = None
     \<and> (\<exists>src m. T (pre_load_tree r) = Some src \<and> T' (prog_tree i) = Some m \<and> m ID = Some (ne4 H i)
          \<and> (\<forall>k. fixed_key k \<longrightarrow> m k = src k))
     \<and> (\<forall>U. maps_abs H T U \<longrightarrow> maps_abs H T' (spec_save i owner U))
     \<and> (\<forall>j. j \<noteq> i \<longrightarrow> kept T T' (prog_tree j))"

definition saved :: "'d host \<Rightarrow> trees \<Rightarrow> u32 option \<Rightarrow> u32 \<Rightarrow> trees \<Rightarrow> bool" where
  "saved H T owner i T' \<longleftrightarrow> wf_db H T' \<and> (\<forall>U. maps_abs H T U \<longrightarrow> maps_abs H T' (spec_save i owner U))
     \<and> (\<forall>t \<in> prog_trees. users_only T T' t)"

context store
begin

text \<open>Its tree, once the id of the program is known and it runs.\<close>

lemma added_tree_ok:
  assumes "built H r src p" and "\<And>k. fixed_key k \<Longrightarrow> m k = src k" and "m ID = Some (ne4 H i)"
    and "marked H T p" and "T (pre_load_tree r) = Some pm" and "\<And>k. k \<in> att_keys \<Longrightarrow> m k = pm k"
  shows "prog_ok H i m" and "attached_ok H m"
proof -
  obtain kind where kind: "kind \<in> supported_kinds" "src KIND = Some (ne4 H (program_type_to_u32 kind))"
    "program_of_kind kind (pre_load_tree r) src = Ok p" using assms(1) by (auto simp: built_def)
  have k: "m KIND = Some (ne4 H (program_type_to_u32 kind))" using assms(2) [of KIND] kind(2) by simp
  then show "prog_ok H i m" using kind(1) assms(3) by (auto simp: prog_ok_def)
  have "m XDP_ATTACHED = Some (ne_bool H True)" if "kind = ProgramType_Xdp"
    using that kind(3) assms(4, 5) assms(6) [of XDP_ATTACHED] by (auto simp: program_of_kind_def)
  moreover have "m TC_ATTACHED = Some (ne_bool H True)" if "kind = ProgramType_Tc"
    using that kind(3) assms(4, 5) assms(6) [of TC_ATTACHED] by (auto simp: program_of_kind_def)
  moreover have "kind = kind'" if "m KIND = Some (ne4 H (program_type_to_u32 kind'))" for kind'
    using that k by (simp add: program_type_u32_inject)
  ultimately show "attached_ok H m" unfolding attached_ok_def by blast
qed

lemma save_map_triple:
  assumes "os_db X = H" and wf: "wf_db H T" and "db_tree (program_get_data p) = pre_load_tree r"
    and "T (pre_load_tree r) = Some pm" and "i \<in> unused T"
  shows "hoare (\<lambda>w. \<alpha> (wdb w)) ((=) T) (save_map X p i owner) (\<lambda>_. saved H T owner i) (wf_db H)"
proof -
  obtain U where U: "maps_abs H T U" using wf by (auto simp: wf_db_def)
  have "wf_db H (\<alpha> (wdb w')) \<and> (r = Ok () \<longrightarrow> saved H T owner i (\<alpha> (wdb w')))"
    if T: "T = \<alpha> (wdb w)" and run: "save_map X p i owner w = (r, w')" for w r w'
    using save_map_trees [OF assms(1) wf [unfolded T] _ assms(3) assms(4) [unfolded T] assms(5) [unfolded T] run] U
    unfolding saved_def T by blast
  then show ?thesis by (intro hoareI) auto
qed

lemma swap_triple:
  assumes wf: "wf_db H T0" and src: "T0 (pre_load_tree r) = Some src" and b: "built H r src p" and i: "i \<in> unused T0"
    and e: "evolves H F core T0 T" and mk: "marked H T p"
  shows "hoare \<alpha> (saved H T owner i) (swap_tree H (program_get_data p) i)
    (\<lambda>data T'. data = \<lparr>db_tree = prog_tree i\<rparr> \<and> added H r p owner T0 i T') (wf_db H)"
proof -
  have t: "program_get_data p = \<lparr>db_tree = pre_load_tree r\<rparr>" by (rule built_data [OF b])
  obtain pm where pm: "T (pre_load_tree r) = Some pm" using evolves_live [OF e, of "pre_load_tree r"] src by auto
  have pmk: "pm k = src k" if "fixed_key k" for k
    using evolvesD(4) [OF e src pm] that by (auto simp: tree_evolves_def)
  have "swap_tree H (program_get_data p) i d = (Ok \<lparr>db_tree = prog_tree i\<rparr>, snd (swap_tree H (program_get_data p) i d)) \<and>
      added H r p owner T0 i (\<alpha> (snd (swap_tree H (program_get_data p) i d)))" if s: "saved H T owner i (\<alpha> d)" for d
  proof -
    let ?T1 = "\<alpha> d"
    have same: "users_only T ?T1 t" if "t \<in> prog_trees" for t using s that by (simp add: saved_def)
    obtain m where m: "?T1 (pre_load_tree r) = Some m" "\<And>k. \<not> prefix PREFIX_MAPS_USED_BY k \<Longrightarrow> m k = pm k"
      using same [of "pre_load_tree r"] pm by (cases "?T1 (pre_load_tree r)") (auto simp: users_only_def)
    have "T (prog_tree i) = None" using unused_evolves [OF i e] by (simp add: unused_def)
    then have "?T1 (prog_tree i) = None" using kept_None [OF kept_users_only [OF same]] by blast
    then obtain d' where run: "swap_tree H (program_get_data p) i d = (Ok \<lparr>db_tree = prog_tree i\<rparr>, d')"
      and T': "\<alpha> d' = ?T1(pre_load_tree r := None, prog_tree i \<mapsto> m(ID \<mapsto> ne4 H i))"
      using swap_ok [of d "program_get_data p" m i] m(1) unfolding t by auto
    let ?m = "m(ID \<mapsto> ne4 H i)"
    have fixed: "?m k = src k" if "fixed_key k" for k
      using that m(2) [of k] pmk by (auto simp: fixed_key_def plain_key_def)
    have "prog_ok H i ?m \<and> attached_ok H ?m"
      by (intro conjI added_tree_ok [OF b fixed _ mk pm]) (auto intro!: m(2))
    then have "wf_db H (\<alpha> d')" unfolding T' using s by (intro wf_prog_upd wf_pre_upd) (simp_all add: saved_def)
    moreover have "maps_abs H (\<alpha> d') (spec_save i owner U)" if "maps_abs H T0 U" for U
    proof -
      have "maps_abs H ?T1 (spec_save i owner U)" using that evolves_maps_abs [OF e] s by (simp add: saved_def)
      moreover have "pre_load_tree r \<notin> range map_tree" "prog_tree i \<notin> range map_tree" by auto
      ultimately show ?thesis unfolding T' by (simp add: maps_abs_other)
    qed
    moreover have "kept T0 (\<alpha> d') (prog_tree j)" if "j \<noteq> i" for j
    proof -
      have "kept T0 T (prog_tree j)" by (rule kept_evolves [OF e]) simp
      also have "kept T ?T1 (prog_tree j)" by (intro kept_users_only same) simp
      also have "kept ?T1 (\<alpha> d') (prog_tree j)" unfolding T' using that by (intro kept_cong) simp
      finally show ?thesis .
    qed
    moreover have "\<alpha> d' (pre_load_tree r) = None" "\<alpha> d' (prog_tree i) = Some ?m" unfolding T' by simp_all
    ultimately have "added H r p owner T0 i (\<alpha> d')" using src fixed by (auto simp: added_def)
    with run show ?thesis by simp
  qed
  then show ?thesis by (intro hoareI) (metis prod.inject res.inject(1) snd_conv)+
qed

lemma finish_add_triple:
  assumes "e_db E = H" and wf: "wf_db H T0" and src: "T0 (pre_load_tree r) = Some src" and b: "built H r src p"
    and F: "F \<subseteq> unused T0" and i: "i \<in> F"
  shows "hoare (\<lambda>w. \<alpha> (wdb w)) (\<lambda>T. evolves H F core T0 T \<and> marked H T p) (finish_add E p owner i)
    (\<lambda>p' T. p' = program_set_data \<lparr>db_tree = prog_tree i\<rparr> p \<and> added H r p owner T0 i T) (wf_db H)"
proof -
  have "hoare (\<lambda>w :: 'd kworld. \<alpha> (wdb w)) ((=) T) (finish_add E p owner i)
      (\<lambda>p' T. p' = program_set_data \<lparr>db_tree = prog_tree i\<rparr> p \<and> added H r p owner T0 i T) (wf_db H)"
    if e: "evolves H F core T0 T" and mk: "marked H T p" for T
  proof -
    have wf1: "wf_db H T" by (rule wf_evolves [OF wf e]) simp
    obtain pm where pm: "T (pre_load_tree r) = Some pm" using evolves_live [OF e, of "pre_load_tree r"] src by auto
    have un: "i \<in> unused T" using unused_evolves [OF _ e] F i by blast
    have t: "db_tree (program_get_data p) = pre_load_tree r" using built_data [OF b] by simp
    have os: "os_db (e_os E) = H" using assms(1) by simp
    have "i \<in> unused T0" using F i by blast
    note swap = hoare_on_db [OF swap_triple [OF wf src b this e mk, of owner]]
    have "hoare (\<lambda>w :: 'd kworld. \<alpha> (wdb w)) (saved H T owner i)
        (bind_st (on_db (swap_tree H (program_get_data p) i)) (\<lambda>data. ret (program_set_data data p)))
        (\<lambda>p' T. p' = program_set_data \<lparr>db_tree = prog_tree i\<rparr> p \<and> added H r p owner T0 i T) (wf_db H)"
      by (rule hoare_bind [OF swap], rule hoare_ret) simp
    note last = hoare_then [OF save_map_triple [OF os wf1 t pm un] this]
    show ?thesis
      unfolding finish_add_def assms(1)
      by (rule hoare_then, rule hoare_quiet [OF quiet_world(1)], use wf1 in simp)+ (rule last)
  qed
  then show ?thesis by (auto simp: hoare_def)
qed

lemma cleanup_evo:
  assumes "e_db E = H" and "db_tree (program_get_data p) = pre_load_tree r" and "pre_load_tree r \<notin> Y"
  shows "hoare (\<lambda>w. \<alpha> (wdb w)) (evolves H F Y T0) (cleanup_failed_add E p owner e) (\<lambda>_ _. False) (evolves H F Y T0)"
proof -
  have os: "os_db (e_os E) = H" using assms(1) by simp
  show ?thesis
    unfolding cleanup_failed_add_def assms(1)
    by (intro hoare_step stable_cases stable_wrapped stable_leaves program_delete_evo [OF os assms(2, 3)] hoare_throw)
qed

end

lemma hoare_match:
  assumes "hoare V P m Q E1" and "\<And>a. hoare V (Q a) (f a) R E" and "\<And>e. hoare V E1 (g e) R E" and "\<And>T. E1 T \<Longrightarrow> E T"
  shows "hoare V P (\<lambda>w. case m w of (Ok a, w') \<Rightarrow> f a w' | (Err e, w') \<Rightarrow> g e w' | (Panic p, w') \<Rightarrow> (Panic p, w')) R E"
proof -
  have "(\<forall>a. r = Ok a \<longrightarrow> R a (V s')) \<and> ((\<forall>a. r \<noteq> Ok a) \<longrightarrow> E (V s'))" if P: "P (V s)"
    and run: "(case m s of (Ok a, w') \<Rightarrow> f a w' | (Err e, w') \<Rightarrow> g e w' | (Panic p, w') \<Rightarrow> (Panic p, w')) = (r, s')" for s r s'
  proof (cases "m s")
    case (Pair x s1)
    show ?thesis
    proof (cases x)
      case (Ok a)
      with Pair hoareD(1) [OF assms(1) P] run show ?thesis using hoareD [OF assms(2) [of a]] by auto
    next
      case (Err e)
      with Pair hoareD(2) [OF assms(1) P] run show ?thesis using hoareD [OF assms(3) [of e]] by auto
    next
      case (Panic msg)
      with Pair hoareD(2) [OF assms(1) P] run show ?thesis using assms(4) by auto
    qed
  qed
  then show ?thesis by (simp add: hoare_def)
qed

text \<open>The part of \<open>add_program\<close> that follows the copy of the program into the database.\<close>

definition add_loaded ::
  "('d, 'sig, 'layer) env \<Rightarrow> image_manager \<Rightarrow> config \<Rightarrow> program_data \<Rightarrow> program \<Rightarrow> u32 option \<Rightarrow> ('d kworld, bpfman_error, program) st" where
  "add_loaded E im cfg data program owner =
     then_st (case owner of
         Some o' \<Rightarrow> bind_st (from_db (is_map_owner_id_valid (e_db E) o')) (\<lambda>path. on_db (set_map_pin_path (e_db E) data path))
       | None \<Rightarrow> ret ()) (
     then_st (on_db (set_program_bytes (e_db E) (e_oci E) (e_open_file E) im data)) (
     then_st (store_if_index E program) (
     \<lambda>w. (case add_by_kind E im cfg program w of
         (Ok i, w') \<Rightarrow> finish_add E program owner i w'
       | (Err e, w') \<Rightarrow> cleanup_failed_add E program owner e w'
       | (Panic p, w') \<Rightarrow> (Panic p, w')))))"

lemma add_program_loaded:
  "add_program E tmp program0 =
     bind_st (setup_bpfman E) (\<lambda>cfg.
     bind_st (reads (\<lambda>_. the_image_manager E)) (\<lambda>im.
     bind_st (on_db (program_data_load (e_db E) tmp (program_get_data program0))) (\<lambda>data.
     bind_st (from_db (get_map_owner_id (e_db E) data)) (add_loaded E im cfg data (program_set_data data program0)))))"
  by (simp add: add_program_def add_loaded_def [abs_def] Let_def)

context store
begin

lemma add_loaded_triple:
  assumes "e_db E = H" and wf: "wf_db H T0" and src: "T0 (pre_load_tree r) = Some src" and b: "built H r src p"
    and "reports (e_aya E) (unused T0)" and "r \<in> unused T0"
  shows "hoare (\<lambda>w. \<alpha> (wdb w)) ((=) T0) (add_loaded E im cfg \<lparr>db_tree = pre_load_tree r\<rparr> p owner)
    (\<lambda>p' T. \<exists>i \<in> unused T0. p' = program_set_data \<lparr>db_tree = prog_tree i\<rparr> p \<and> added H r p owner T0 i T) (wf_db H)"
proof -
  let ?V = "\<lambda>w :: 'd kworld. \<alpha> (wdb w)" and ?F = "unused T0"
  let ?R = "\<lambda>p' T. \<exists>i \<in> unused T0. p' = program_set_data \<lparr>db_tree = prog_tree i\<rparr> p \<and> added H r p owner T0 i T"
  have pre: "pre_ok H ?F T0 r" using src b assms(6) by (auto simp: pre_ok_def built_def)
  have t: "db_tree (program_get_data p) = pre_load_tree r" using built_data [OF b] by simp
  have ok: "\<And>Y T. evolves H ?F Y T0 T \<Longrightarrow> default_tree \<in> Y \<Longrightarrow> wf_db H T" by (rule wf_evolves [OF wf])
  have step: "hoare ?V (evolves H ?F core T0) (then_st m n) ?R (wf_db H)"
    if "stable ?V (evolves H ?F core T0) m" "hoare ?V (evolves H ?F core T0) n ?R (wf_db H)"
    for m :: "('d kworld, bpfman_error, unit) st" and n
    by (rule hoare_then [OF hoare_weaken [OF that(1)] that(2)]) (auto intro: ok)
  have fin: "hoare ?V (\<lambda>T. evolves H ?F core T0 T \<and> (i \<in> ?F \<and> marked H T p)) (finish_add E p owner i) ?R (wf_db H)" for i
  proof (cases "i \<in> ?F")
    case True
    from finish_add_triple [OF assms(1) wf src b order_refl this] show ?thesis
      by (rule hoare_weaken) (use True in auto)
  qed (simp add: hoare_def)
  have clean: "hoare ?V (evolves H ?F (core - {pre_load_tree r}) T0) (cleanup_failed_add E p owner e) ?R (wf_db H)" for e
    by (rule hoare_weaken [OF cleanup_evo [OF assms(1) t]]) (auto intro: ok)
  have "db_tree \<lparr>db_tree = pre_load_tree r\<rparr> = pre_load_tree r" by simp
  note prep = prepare_evo [OF assms(1) wf pre this]
  show ?thesis
    unfolding add_loaded_def assms(1)
    by (rule hoare_exact, rule step [OF prep(1)], rule step [OF prep(2)], rule step [OF prep(3) [OF t]],
      rule hoare_match [OF add_by_kind_triple [OF assms(1, 5) wf pre t] fin clean]) (auto intro: ok)
qed

lemma setup_quiet: "quiet (\<lambda>w. \<alpha> (wdb w)) (setup_bpfman E)"
  unfolding quiet_def using setup_keeps_db by (metis prod.collapse)

lemma add_program_triple:
  assumes "e_db E = H" and wf: "wf_db H T" and free: "T (pre_load_tree r) = None"
    and src: "\<alpha> tmp (pre_load_tree r) = Some src" and b: "built H r src p"
    and "reports (e_aya E) (unused T)" and "r \<in> unused T"
  shows "hoare (\<lambda>w. \<alpha> (wdb w)) ((=) T) (add_program E tmp p)
    (\<lambda>p' T'. \<exists>owner. opt_res (bytes_to_u32 H) (src MAP_OWNER_ID) = (Ok owner :: (bpfman_error, u32 option) res) \<and>
      (\<exists>i \<in> unused T. p' = program_set_data \<lparr>db_tree = prog_tree i\<rparr> p \<and> added H r p owner (T(pre_load_tree r \<mapsto> src)) i T'))
    (wf_db H)"
proof -
  let ?V = "\<lambda>w :: 'd kworld. \<alpha> (wdb w)" and ?pd = "\<lparr>db_tree = pre_load_tree r\<rparr>" and ?T0 = "T(pre_load_tree r \<mapsto> src)"
  let ?owner = "\<lambda>owner. opt_res (bytes_to_u32 H) (src MAP_OWNER_ID) = (Ok owner :: (bpfman_error, u32 option) res)"
  let ?R = "\<lambda>p' T'. \<exists>owner. ?owner owner \<and> (\<exists>i \<in> unused T. p' = program_set_data \<lparr>db_tree = prog_tree i\<rparr> p \<and> added H r p owner ?T0 i T')"
  have t: "program_get_data p = ?pd" and p: "program_set_data ?pd p = p"
    using built_data [OF b] by (simp, cases p) auto
  have un: "unused ?T0 = unused T" by (simp add: unused_def)
  have wf0: "wf_db H ?T0" by (rule wf_pre_upd [OF wf])
  have tail: "hoare ?V ((=) ?T0) (add_loaded E im cfg ?pd p owner) ?R (wf_db H)" if "?owner owner" for im cfg owner
    by (rule hoare_weaken [OF add_loaded_triple [OF assms(1) wf0 _ b]]) (use that assms(6, 7) in \<open>auto simp: un\<close>)
  have own: "hoare ?V ((=) ?T0) (from_db (get_map_owner_id H ?pd)) (\<lambda>owner T'. ?T0 = T' \<and> ?owner owner) (wf_db H)"
  proof (rule hoareI)
    fix w :: "'d kworld" and owner w' assume T: "?T0 = \<alpha> (wdb w)" and run: "from_db (get_map_owner_id H ?pd) w = (Ok owner, w')"
    have "\<alpha> (wdb w) (db_tree ?pd) = Some src" using fun_cong [OF T, of "pre_load_tree r"] by simp
    then show "?T0 = \<alpha> (wdb w') \<and> ?owner owner"
      using T run by (simp add: get_map_owner_id_def del: opt_res.simps)
  qed (use wf0 in auto)
  have load: "hoare \<alpha> ((=) T) (program_data_load H tmp ?pd) (\<lambda>data T'. ?T0 = T' \<and> data = ?pd) (wf_db H)"
  proof -
    have "\<exists>d'. program_data_load H tmp ?pd d = (Ok ?pd, d') \<and> \<alpha> d' = ?T0" if "T = \<alpha> d" for d
      using load_ok [of tmp ?pd src d] src free that by simp
    then show ?thesis by (intro hoareI) (metis prod.inject res.inject(1))+
  qed
  have rest: "hoare ?V ((=) ?T0) (bind_st (from_db (get_map_owner_id H ?pd)) (add_loaded E im cfg ?pd p)) ?R (wf_db H)" for im cfg
    by (rule hoare_bind [OF own], rule hoare_pure, rule tail)
  show ?thesis
    unfolding add_program_loaded assms(1) t
    by (rule hoare_bind [OF hoare_quiet [OF setup_quiet]], use wf in simp, rule hoare_bind [OF hoare_quiet [OF quiet_basic(2)]], use wf in simp,
        rule hoare_bind [OF hoare_on_db [OF load]], rule hoare_pure, simp only: p, rule rest)
qed


subsection \<open>Removing a program\<close>

lemma delete_map_triple:
  assumes os: "os_db X = H" and wf: "wf_db H T"
  shows "hoare (\<lambda>w. \<alpha> (wdb w)) ((=) T) (delete_map X i owner) (\<lambda>_ T'. wf_db H T'
      \<and> (\<forall>U. maps_abs H T U \<longrightarrow> maps_abs H T' (spec_delete i owner U)) \<and> (\<forall>t \<in> prog_trees. users_only T T' t)) (wf_db H)"
proof -
  let ?x = "case owner of Some o' \<Rightarrow> o' | None \<Rightarrow> i"
  let ?Q = "\<lambda>T'. wf_db H T' \<and> (\<forall>U. maps_abs H T U \<longrightarrow> maps_abs H T' (spec_delete i owner U)) \<and> (\<forall>t \<in> prog_trees. users_only T T' t)"
  have str: "T t \<noteq> None \<Longrightarrow> is_str t" and progs: "programs_ok H T" for t
    using wf by (auto simp: wf_db_def programs_ok_def known_is_str)
  have del: "wf_db H (\<alpha> (wdb w')) \<and> maps_abs H (\<alpha> (wdb w')) (spec_delete i owner U) \<and> (\<forall>t \<in> prog_trees. users_only T (\<alpha> (wdb w')) t)"
    if T: "T = \<alpha> (wdb w)" and run: "delete_map X i owner w = (r, w')" and U: "maps_abs H T U" for w r w' U
  proof (cases "U ?x")
    case None
    then have "T (map_tree ?x) = None" using db_inv_tree [OF wf_db_inv [OF wf U]] by simp
    then have "(get_map H ?x :: ('d, bpfman_error, string option) st) (wdb w) = (Ok None, wdb w)"
      unfolding T by (intro get_map_none str [unfolded T])
    then have "w' = w" using run by (simp add: delete_map_def os bind_st_def Let_def)
    then show ?thesis using wf U None T by (auto simp: spec_delete_def users_only_cong)
  next
    case (Some M)
    from wf_db_inv [OF wf U] Some obtain m where m: "T (map_tree ?x) = Some m" "users H m M" by (rule db_inv_map)
    obtain d' us m' where u: "users H m' (M - {#i#})"
      and last: "M - {#i#} = {#} \<longrightarrow> delete_map X i owner w =
        (case remove_dir_all (io_fault X) (calc_map_pin_path ?x) (wfs w) of (r, f) \<Rightarrow>
          (map_err (\<lambda>e. Error (''can't delete map dir: '' @ e)) r, w\<lparr>wdb := d', wfs := f\<rparr>)) \<and> \<alpha> d' = T(map_tree ?x := None)"
      and more: "M - {#i#} \<noteq> {#} \<longrightarrow> delete_map X i owner w = (Ok (), w\<lparr>wdb := d'\<rparr>)
        \<and> \<alpha> d' = upd_users H us (set us) (T(map_tree ?x \<mapsto> m'))"
      by (rule delete_run [OF os str [unfolded T] progs [unfolded T] refl m [unfolded T], folded T])
    have other: "users_only T (T(map_tree ?x := v)) t" if "t \<in> prog_trees" for t v
      using that by (intro users_only_cong) auto
    show ?thesis
    proof (cases "M - {#i#} = {#}")
      case True
      then have "\<alpha> (wdb w') = T(map_tree ?x := None)" using last run by (auto split: prod.splits)
      then show ?thesis using wf_map_drop [OF wf] maps_abs_drop [OF U] other True Some by (simp add: spec_delete_def)
    next
      case False
      then have "\<alpha> (wdb w') = upd_users H us (set us) (T(map_tree ?x \<mapsto> m'))" using more run by auto
      then show ?thesis
        using wf_upd_users [OF wf_map_upd [OF wf u False]] maps_abs_upd [OF U u] False Some
          ballI [of prog_trees, OF users_only_upd [OF other]] by (simp add: spec_delete_def maps_abs_upd_users)
    qed
  qed
  obtain U where "maps_abs H T U" using wf by (auto simp: wf_db_def)
  with del have "?Q (\<alpha> (wdb w'))" if "T = \<alpha> (wdb w)" and "delete_map X i owner w = (r, w')" for w r w' using that by blast
  then show ?thesis by (intro hoareI) blast+
qed

text \<open>The dispatcher of the interface is deleted or rebuilt.\<close>

lemma rebuild_triple:
  assumes "e_db E = H" and "reports (e_aya E) F" and wf: "wf_db H T" and "\<forall>x. old = Some x \<longrightarrow> droppable x"
  shows "hoare (\<lambda>w. \<alpha> (wdb w)) ((=) T)
    (bind_st (on_db (filter_programs H pt ix dir)) (\<lambda>programs.
     bind_st (from_db (revision_after H old)) (\<lambda>revision.
     then_st (dispatcher_new E im ic programs revision old) (ret ()))))
    (\<lambda>_. evolves H F core T) (evolves H F core T)"
proof -
  let ?V = "\<lambda>w :: 'd kworld. \<alpha> (wdb w)"
  have rev: "hoare ?V ((=) T) (from_db (revision_after H old)) (\<lambda>_ T'. T = T' \<and> True) ((=) T)"
    by (rule hoareI) auto
  have new: "hoare ?V ((=) T) (then_st (dispatcher_new E im ic programs revision old) (ret ())) (\<lambda>_. evolves H F core T) (evolves H F core T)"
    if "\<forall>p \<in> set programs. prog_ready H T p" for programs revision
    by (rule hoare_exact, rule stable_then [OF dispatcher_new_evo [OF assms(1-3) that] stable_leaves(1)]) (use assms(4) in blast)
  show ?thesis
    by (intro exact_bind [OF hoare_on_db [OF filter_programs_triple [OF wf]]] exact_bind [OF rev] new)
qed

lemma remove_multi_evo:
  assumes "e_db E = H" and "reports (e_aya E) F" and wf: "wf_db H T0"
  shows "stable (\<lambda>w. \<alpha> (wdb w)) (evolves H F core T0) (remove_multi_attach_program E cfg did pt ix name dir)"
proof -
  let ?V = "\<lambda>w :: 'd kworld. \<alpha> (wdb w)" and ?P = "evolves H F core T0"
  have num: "stable ?V ?P (on_db (num_attached_programs H did))"
    by (rule stable_on_db, rule stable_from [OF _ wf]) (auto intro: hoare_weaken [OF num_attached_triple] evolves_refl)
  have disp: "hoare ?V ?P (on_db (get_dispatcher H did)) (\<lambda>old T. ?P T \<and> (\<forall>x. old = Some x \<longrightarrow> droppable x)) ?P"
    by (rule hoare_on_db, rule hoare_rebase_result [OF _ subset_refl], rule hoare_weaken [OF get_dispatcher_triple])
      (auto intro: evolves_refl wf_evolves [OF wf])
  have rebuild: "stable ?V ?P
    (bind_st (on_db (filter_programs H pt ix dir)) (\<lambda>programs.
     bind_st (from_db (revision_after H old)) (\<lambda>revision.
     then_st (dispatcher_new E im ic programs revision old) (ret ()))))" if "\<forall>x. old = Some x \<longrightarrow> droppable x" for im ic old
    by (rule stable_from [OF _ wf], rule rebuild_triple [OF assms(1, 2)]) (use that in auto)
  have steps: "stable ?V ?P (bind_st (reads (\<lambda>_. expect_opt ''unwrap'' ix)) (\<lambda>ix'.
       then_st (on_db (set_program_positions H pt ix' dir)) (
       bind_st (on_db (filter_programs H pt ix dir)) (\<lambda>programs.
       bind_st (from_db (revision_after H old)) (\<lambda>revision.
       then_st (dispatcher_new E im ic programs revision old) (ret ()))))))" if "\<forall>x. old = Some x \<longrightarrow> droppable x" for im ic old
    by (intro stable_bind stable_then stable_leaves(2) stable_on_db positions_evo(1) [OF wf subset_refl] rebuild [OF that])
  have rest: "stable ?V ?P (case old of Some x \<Rightarrow> if n = 0 then dispatcher_delete E x True else m | None \<Rightarrow> m)"
    if "\<forall>x. old = Some x \<longrightarrow> droppable x" and "stable ?V ?P m" for n :: usize and old and m :: "('d kworld, bpfman_error, unit) st"
    using that dispatcher_delete_evo [OF assms(1)] by (cases old) simp_all
  show ?thesis
    unfolding remove_multi_attach_program_def Let_def assms(1)
    by (rule stable_bind, rule stable_leaves, rule stable_bind [OF num], rule stable_bind, rule stable_leaves,
        rule hoare_bind [OF disp], rule hoare_pure, rule rest [OF _ steps])
qed

lemma delete_known_triple:
  assumes os: "os_db X = H" and wf: "wf_db H T" and t: "program_get_data p = \<lparr>db_tree = prog_tree i\<rparr>"
  shows "hoare (\<lambda>w :: 'd kworld. \<alpha> (wdb w)) ((=) T) (map_err_st BpfmanProgramDeleteError (program_delete X p))
    (\<lambda>_. (=) (T(prog_tree i := None))) (wf_db H)"
proof -
  let ?V = "\<lambda>w :: 'd kworld. \<alpha> (wdb w)" and ?T = "T(prog_tree i := None)"
  have wf': "wf_db H ?T" by (rule wf_prog_upd [OF wf]) simp
  have drop: "hoare \<alpha> ((=) T) (\<lambda>d. case db_drop_tree H (prog_tree i) d of Inl e \<Rightarrow> (Err e, d) | Inr d' \<Rightarrow> (Ok (), d')) (\<lambda>_. (=) ?T) (wf_db H)"
  proof -
    have "\<exists>d'. db_drop_tree H (prog_tree i) d = Inr d' \<and> \<alpha> d' = (\<alpha> d)(prog_tree i := None)" for d by (rule drop_ok) simp
    note drops = this
    show ?thesis
    proof (rule hoareI)
      fix d u d' assume "T = \<alpha> d" "(case db_drop_tree H (prog_tree i) d of Inl e \<Rightarrow> (Err e, d) | Inr d' \<Rightarrow> (Ok (), d')) = (Ok u, d')"
      then show "?T = \<alpha> d'" using drops [of d] by auto
    next
      fix d r d' assume "(case db_drop_tree H (prog_tree i) d of Inl e \<Rightarrow> (Err e, d) | Inr d' \<Rightarrow> (Ok (), d')) = (r, d')" "\<forall>a. r \<noteq> Ok a"
      then show "wf_db H (\<alpha> d')" using drops [of d] by auto
    qed
  qed
  have "hoare ?V ((=) T) (program_delete X p) (\<lambda>_. (=) ?T) (wf_db H)"
    unfolding program_delete_def os t
    by (rule hoare_bind [OF hoare_quiet [OF quiet_world(1)]], use wf in simp, rule hoare_then [OF hoare_on_db], use drop in simp,
      rule hoare_then [OF hoare_quiet [OF quiet_world(2)]], use wf' in simp, rule hoare_quiet [OF quiet_world(2)], use wf' in simp)
  then show ?thesis by (rule hoare_map_err)
qed

text \<open>What a successful \<open>remove_program\<close> makes of a database.\<close>

end

definition removed :: "'d host \<Rightarrow> u32 \<Rightarrow> u32 option \<Rightarrow> trees \<Rightarrow> trees \<Rightarrow> bool" where
  "removed H i owner T T' \<longleftrightarrow> wf_db H T' \<and> T' (prog_tree i) = None
     \<and> (\<forall>U. maps_abs H T U \<longrightarrow> maps_abs H T' (spec_delete i owner U))
     \<and> (\<forall>j. j \<noteq> i \<longrightarrow> kept T T' (prog_tree j))"

context store
begin

lemma remove_program_triple:
  assumes "e_db E = H" and wf: "wf_db H T"
  shows "hoare (\<lambda>w. \<alpha> (wdb w)) ((=) T) (remove_program E i)
    (\<lambda>_ T'. \<exists>m owner. T (prog_tree i) = Some m \<and> opt_res (bytes_to_u32 H) (m MAP_OWNER_ID) = (Ok owner :: (bpfman_error, u32 option) res)
      \<and> removed H i owner T T') (wf_db H)"
proof -
  let ?V = "\<lambda>w :: 'd kworld. \<alpha> (wdb w)" and ?T1 = "T(prog_tree i := None)"
  let ?Q = "\<lambda>T'. \<exists>m owner. T (prog_tree i) = Some m \<and> opt_res (bytes_to_u32 H) (m MAP_OWNER_ID) = (Ok owner :: (bpfman_error, u32 option) res)
      \<and> removed H i owner T T'"
  have os: "os_db (e_os E) = H" using assms(1) by simp
  have all: "reports (e_aya E) UNIV" by (simp add: reports_def)
  have wf1: "wf_db H ?T1" by (rule wf_prog_upd [OF wf]) simp
  have gone: "hoare ?V ((=) T) (
           if is_multi prog then
             bind_st (from_db (program_dispatcher_id H prog)) (\<lambda>did.
             bind_st (reads (\<lambda>_. ok_or DispatcherNotRequired did)) (\<lambda>did.
             bind_st (from_db (program_kind H prog)) (\<lambda>program_type.
             bind_st (from_db (program_if_index H prog)) (\<lambda>if_index.
             bind_st (from_db (\<lambda>d. expect_res ''unwrap'' (program_if_name H prog d))) (\<lambda>if_name.
             bind_st (from_db (program_direction H prog)) (\<lambda>direction.
             then_st (map_err_st BpfmanProgramDeleteError (program_delete (e_os E) prog))
               (remove_multi_attach_program E cfg did program_type if_index if_name direction)))))))
           else map_err_st BpfmanProgramDeleteError (program_delete (e_os E) prog)) (\<lambda>_. evolves H UNIV core ?T1) (wf_db H)"
    if t: "program_get_data prog = \<lparr>db_tree = prog_tree i\<rparr>" for prog cfg
  proof -
    note del = delete_known_triple [OF os wf t]
    have multi: "hoare ?V ((=) T) (then_st (map_err_st BpfmanProgramDeleteError (program_delete (e_os E) prog))
        (remove_multi_attach_program E cfg did pt ix name dir)) (\<lambda>_. evolves H UNIV core ?T1) (wf_db H)" for did pt ix name dir
      by (rule hoare_then [OF del], rule hoare_exact, rule hoare_weaken [OF remove_multi_evo [OF assms(1) all wf1]])
        (auto intro: wf_evolves [OF wf1])
    have "hoare ?V ((=) T) (map_err_st BpfmanProgramDeleteError (program_delete (e_os E) prog)) (\<lambda>_. evolves H UNIV core ?T1) (wf_db H)"
      by (rule hoare_weaken [OF del]) (auto intro: evolves_refl)
    then show ?thesis by (intro hoare_cases(1) hoare_skip quiet_world quiet_basic multi) (use wf in simp_all)
  qed
  have last: "hoare ?V (evolves H UNIV core ?T1) (delete_map (e_os E) i owner) (\<lambda>_. removed H i owner T) (wf_db H)" for owner
  proof -
    have "hoare ?V ((=) T2) (delete_map (e_os E) i owner) (\<lambda>_. removed H i owner T) (wf_db H)" if e: "evolves H UNIV core ?T1 T2" for T2
    proof -
      have wf2: "wf_db H T2" by (rule wf_evolves [OF wf1 e]) simp
      have k: "kept ?T1 T2 (prog_tree j)" for j by (rule kept_evolves [OF e]) simp
      have maps: "maps_abs H T2 U" if "maps_abs H T U" for U
      proof -
        have "prog_tree i \<notin> range map_tree" by auto
        then show ?thesis using that evolves_maps_abs [OF e, of U] by (simp add: maps_abs_other)
      qed
      have "removed H i owner T T'" if "wf_db H T'" "\<forall>U. maps_abs H T2 U \<longrightarrow> maps_abs H T' (spec_delete i owner U)"
        "\<forall>t \<in> prog_trees. users_only T2 T' t" for T'
      proof -
        have k': "kept ?T1 T' (prog_tree j)" for j using kept_trans [OF k kept_users_only] that(3) by blast
        have "T' (prog_tree i) = None" using kept_None [OF k' [of i]] by simp
        moreover have "kept T T' (prog_tree j)" if "j \<noteq> i" for j
          using kept_trans [OF kept_cong [of T _ ?T1] k' [of j]] that by simp
        ultimately show ?thesis using that maps by (simp add: removed_def)
      qed
      then show ?thesis by (rule_tac hoare_weaken [OF delete_map_triple [OF os wf2]]) auto
    qed
    then show ?thesis by (auto simp: hoare_def)
  qed
  have own: "hoare ?V ((=) T) (from_db (get_map_owner_id H (program_get_data prog)))
      (\<lambda>owner T'. T = T' \<and> opt_res (bytes_to_u32 H) (m MAP_OWNER_ID) = (Ok owner :: (bpfman_error, u32 option) res)) (wf_db H)"
    if t: "program_get_data prog = \<lparr>db_tree = prog_tree i\<rparr>" and m: "T (prog_tree i) = Some m" for prog m
    using wf m by (intro hoareI) (auto simp: t get_map_owner_id_def simp del: opt_res.simps)
  have get: "hoare \<alpha> ((=) T) (get_by_id H i :: ('d, bpfman_error, program option) st) (\<lambda>p T'. T = T' \<and> (\<forall>prog. p = Some prog \<longrightarrow>
      program_get_data prog = \<lparr>db_tree = prog_tree i\<rparr> \<and> T (prog_tree i) \<noteq> None)) (wf_db H)"
  proof (cases "T (prog_tree i)")
    case None
    then show ?thesis by (intro hoareI) (auto simp: get_by_id_none)
  next
    case (Some m)
    then have ok: "prog_ok H i m" using wf by (simp add: wf_db_def)
    have run: "\<exists>p. (get_by_id H i :: ('d, bpfman_error, program option) st) d = (Ok (Some p), opened H (prog_tree i) d)
        \<and> program_get_data p = \<lparr>db_tree = prog_tree i\<rparr> \<and> \<alpha> (opened H (prog_tree i) d) = T" if "T = \<alpha> d" for d
      using get_by_id_some [of d i m, OF _ ok] Some that abs_opened_old by metis
    show ?thesis using Some by (intro hoareI) (drule run, force)+
  qed
  have tail: "hoare ?V ((=) T) (case p of
       None \<Rightarrow> throw e
     | Some prog \<Rightarrow> bind_st (from_db (get_map_owner_id H (program_get_data prog))) (\<lambda>owner. then_st (m prog) (delete_map (e_os E) i owner)))
     (\<lambda>_. ?Q) (wf_db H)"
    if p: "\<forall>prog. p = Some prog \<longrightarrow> program_get_data prog = \<lparr>db_tree = prog_tree i\<rparr> \<and> T (prog_tree i) \<noteq> None"
      and m: "\<And>prog. program_get_data prog = \<lparr>db_tree = prog_tree i\<rparr> \<Longrightarrow> hoare ?V ((=) T) (m prog) (\<lambda>_. evolves H UNIV core ?T1) (wf_db H)"
    for p e and m :: "program \<Rightarrow> ('d kworld, bpfman_error, unit) st"
  proof (cases p)
    case (Some prog)
    then obtain t where t: "program_get_data prog = \<lparr>db_tree = prog_tree i\<rparr>" "T (prog_tree i) = Some t" using p by auto
    have "hoare ?V ((=) T) (then_st (m prog) (delete_map (e_os E) i owner)) (\<lambda>_. ?Q) (wf_db H)"
      if "opt_res (bytes_to_u32 H) (t MAP_OWNER_ID) = (Ok owner :: (bpfman_error, u32 option) res)" for owner
      by (rule hoare_then [OF m [OF t(1)] hoare_weaken [OF last]]) (use that t(2) in auto)
    then show ?thesis
      unfolding Some option.case by (intro hoare_bind [OF own [OF t]] hoare_pure)
  qed (use wf in \<open>simp add: hoare_throw\<close>)
  show ?thesis
    unfolding remove_program_def Let_def assms(1)
    by (rule hoare_skip [OF setup_quiet], rule hoare_bind [OF hoare_on_db [OF get]], rule hoare_pure, rule tail, assumption, rule gone, assumption)
      (use wf in simp)
qed

end


subsection \<open>Requests that only look\<close>

lemma wf_from_evo:
  assumes "\<And>T. wf_db H T \<Longrightarrow> R T \<Longrightarrow> stable V (evolves H UNIV X T) m" and "default_tree \<in> X"
  shows "hoare V (\<lambda>T. wf_db H T \<and> R T) m (\<lambda>_. wf_db H) (wf_db H)"
proof -
  have "wf_db H (V s')" if "wf_db H (V s) \<and> R (V s)" "m s = (r, s')" for s r s'
    using hoareD_any [OF assms(1) _ that(2), of "V s"] wf_evolves [OF _ _ assms(2)] that(1) by (metis evolves_refl)
  then show ?thesis by (intro hoareI) blast+
qed

context store
begin

lemma open_wf:
  assumes "known_tree t" and "t \<notin> prog_trees" and "t \<notin> range map_tree"
  shows "hoare \<alpha> (wf_db H) (open_tree H msg t) (\<lambda>_ T. wf_db H T \<and> T t \<noteq> None) (wf_db H)"
proof -
  have "wf_db H (\<alpha> (opened H t d))" if "wf_db H (\<alpha> d)" for d
    by (rule wf_evolves [OF that, of UNIV core])
      (use stableD [OF open_evo [OF assms] evolves_refl, of UNIV core d msg] in \<open>simp_all add: open_tree_def fun_upd_def\<close>)
  then show ?thesis by (intro hoareI) (auto simp: open_tree_def)
qed

lemma unsupported_wf:
  assumes "\<And>data P. stable \<alpha> P (set_kernel_info H data prog) \<Longrightarrow> stable \<alpha> P (put data)"
  shows "stable \<alpha> (wf_db H) (unsupported_program H prog put)"
proof -
  let ?t = "show_u32 (api_id prog)"
  have "CHR ''o'' \<in> set t" if "t \<in> prog_trees" for t using that by (auto simp: prog_tree_def pre_load_tree_def)
  then have "?t \<notin> prog_trees" using letters_notin_show(2) by metis
  then have t: "known_tree ?t" "?t \<notin> prog_trees" "?t \<notin> range map_tree" by auto
  have "hoare \<alpha> (\<lambda>T. wf_db H T \<and> T ?t \<noteq> None) (put \<lparr>db_tree = ?t\<rparr>) (\<lambda>_. wf_db H) (wf_db H)"
    by (rule wf_from_evo [where X = "insert ?t core"], rule assms, rule set_kernel_info_evo) (use t in auto)
  then show ?thesis
    unfolding unsupported_program_def Let_def new_empty_def
    by (intro hoare_then [OF open_wf] hoare_then [OF _ stable_leaves(1)]) (use t in auto)
qed

lemma scan_quiet:
  assumes "wf_db H T"
  shows "hoare \<alpha> ((=) T) (get_programs_iter H) (\<lambda>_. (=) T) ((=) T)"
  unfolding get_programs_iter_def
  by (rule hoare_at, rule hoare_weaken [OF scan_programs_triple [OF _ assms]]) (use assms in \<open>auto simp: names_set\<close>)

lemma loaded_wf:
  "stable \<alpha> (wf_db H) (list_loaded H lf known ps)" "stable \<alpha> (wf_db H) (find_loaded H i ps)"
proof -
  have "stable \<alpha> (wf_db H) (unsupported_program H prog (\<lambda>data. ignore_st (set_kernel_info H data prog)))" for prog
    by (rule unsupported_wf, rule stable_wrapped)
  moreover have "stable \<alpha> (wf_db H) (unsupported_program H prog (\<lambda>data. expect_st msg (set_kernel_info H data prog)))" for prog msg
    by (rule unsupported_wf, rule stable_wrapped)
  note un = calculation this
  show "stable \<alpha> (wf_db H) (list_loaded H lf known ps)"
  proof (induction ps arbitrary: known)
    case (Cons x ps)
    then show ?case by (cases x) (auto intro!: stable_bind stable_leaves un split: option.split)
  qed (unfold list_loaded.simps, rule stable_leaves)
  show "stable \<alpha> (wf_db H) (find_loaded H i ps)"
  proof (induction ps)
    case (Cons x ps)
    then show ?case by (cases x) (auto intro!: stable_bind stable_leaves un)
  qed (unfold find_loaded.simps, rule stable_leaves)
qed

lemma looking_wf:
  assumes "e_db E = H"
  shows "stable (\<lambda>w. \<alpha> (wdb w)) (wf_db H) (list_programs E lf)" and "stable (\<lambda>w. \<alpha> (wdb w)) (wf_db H) (get_program E i)"
    and "stable (\<lambda>w. \<alpha> (wdb w)) (wf_db H) (pull_bytecode E img)"
proof -
  let ?V = "\<lambda>w :: 'd kworld. \<alpha> (wdb w)"
  have scan: "stable \<alpha> (wf_db H) (get_programs_iter H :: ('d, bpfman_error, _) st)"
  proof -
    have "\<alpha> d = \<alpha> (snd ((get_programs_iter H :: ('d, bpfman_error, _) st) d))" if "wf_db H (\<alpha> d)" for d
      by (rule stableD [OF scan_quiet [OF that] refl])
    then show ?thesis by (intro stableI) simp
  qed
  have get: "stable \<alpha> (wf_db H) (get_by_id H i :: ('d, bpfman_error, _) st)"
    by (rule stableI) (simp add: get_by_id_abs)
  have "stable \<alpha> (wf_db H) (get_image H (e_oci E) im url policy user pass)" for im url policy user pass
    by (rule hoare_weaken [OF wf_from_evo [of H "\<lambda>_. True", OF get_image_evo, of core]]) (auto simp: wf_db_def)
  note image = this
  show "stable ?V (wf_db H) (list_programs E lf)"
    unfolding list_programs_def assms
    by (intro stable_bind stable_quiet [OF setup_quiet] stable_on_db scan stable_leaves loaded_wf)
  show "stable ?V (wf_db H) (get_program E i)"
    unfolding get_program_def assms
    by (intro stable_bind stable_quiet [OF setup_quiet] stable_on_db get stable_cases stable_leaves loaded_wf)
  show "stable ?V (wf_db H) (pull_bytecode E img)"
    unfolding pull_bytecode_def assms
    by (intro stable_bind stable_then stable_wrapped stable_quiet [OF setup_quiet] stable_on_db image stable_leaves)
qed

end

end
