(* ===== verification/Request_Histories.thy ===== *)
theory Request_Histories
  imports Program_Lifecycle
begin

text \<open>
  What the requests to the manager do to the database, from the outside: a program that was added
  is found, one that was removed is gone, whatever the program's kind, and every history of
  requests, whatever their outcomes, leaves a database whose programs can be read back.
\<close>


subsection \<open>Adding and removing\<close>

context store
begin

lemma get_owner_ok: "\<alpha> d (db_tree pd) = Some m \<Longrightarrow> get_map_owner_id H pd d = opt_res (bytes_to_u32 H) (m MAP_OWNER_ID)"
  by (simp add: get_map_owner_id_def)

lemma added_found:
  assumes "built H r src p" and "added H r p owner (T(pre_load_tree r \<mapsto> src)) i (\<alpha> d)"
  shows "\<exists>d'. (get_by_id H i :: ('d, bpfman_error, program option) st) d = (Ok (Some (program_set_data \<lparr>db_tree = prog_tree i\<rparr> p)), d')"
proof -
  obtain kind where kind: "src KIND = Some (ne4 H (program_type_to_u32 kind))" "program_of_kind kind (pre_load_tree r) src = Ok p"
    using assms(1) by (auto simp: built_def)
  obtain m where m: "\<alpha> d (prog_tree i) = Some m" "m ID = Some (ne4 H i)" "\<And>k. fixed_key k \<Longrightarrow> m k = src k"
    using assms(2) by (auto simp: added_def)
  let ?d = "opened H (prog_tree i) d"
  have "\<alpha> ?d (prog_tree i) = Some m" using abs_opened_old [OF m(1)] m(1) by simp
  then have "new_from_db H i (prog_tree i) ?d = Ok (program_set_data \<lparr>db_tree = prog_tree i\<rparr> p)"
    using new_from_db_kind [of ?d "prog_tree i" m i kind] m(2) m(3) [OF fixed_kind(1)] kind(1)
      program_of_kind_moved [OF kind(2) m(3)] by simp
  then show ?thesis using m(1) by (simp add: get_by_id_def in_names then_st_def bind_st_def Let_def)
qed

end

text \<open>
  C10: adding a program of any kind, when it succeeds, gives it an id that was free, and under this
  id the manager finds the program again, with everything the request said; its temporary tree is
  gone, its maps are accounted for as the abstract state of the maps says, no other program
  appeared or went, and those that stay keep their id and what their requests said.
\<close>

theorem added_program_found:
  assumes "store (e_db E) \<alpha>" and "wf_db (e_db E) (\<alpha> (wdb w))" and "\<alpha> (wdb w) (pre_load_tree r) = None"
    and "\<alpha> tmp (pre_load_tree r) = Some src" and "built (e_db E) r src p"
    and "reports (e_aya E) (unused (\<alpha> (wdb w)))" and "r \<in> unused (\<alpha> (wdb w))"
    and "add_program E tmp p w = (Ok p', w')"
  shows "\<exists>i owner m. \<alpha> (wdb w) (prog_tree i) = None \<and> p' = program_set_data \<lparr>db_tree = prog_tree i\<rparr> p
    \<and> (\<exists>d. (get_by_id (e_db E) i :: ('a, bpfman_error, program option) st) (wdb w') = (Ok (Some p'), d))
    \<and> \<alpha> (wdb w') (prog_tree i) = Some m \<and> (\<forall>k. fixed_key k \<longrightarrow> m k = src k)
    \<and> \<alpha> (wdb w') (pre_load_tree r) = None \<and> wf_db (e_db E) (\<alpha> (wdb w'))
    \<and> get_map_owner_id (e_db E) (program_get_data p) tmp = Ok owner
    \<and> (\<forall>U. maps_abs (e_db E) (\<alpha> (wdb w)) U \<longrightarrow> maps_abs (e_db E) (\<alpha> (wdb w')) (spec_save i owner U))
    \<and> (\<forall>j. j \<noteq> i \<longrightarrow> kept (\<alpha> (wdb w)) (\<alpha> (wdb w')) (prog_tree j))"
proof -
  note st = assms(1)
  let ?H = "e_db E" and ?T = "\<alpha> (wdb w)" and ?T' = "\<alpha> (wdb w')"
  from hoareD(1) [OF store.add_program_triple [OF st refl assms(2-7)] refl assms(8)]
  obtain owner i where o: "opt_res (bytes_to_u32 ?H) (src MAP_OWNER_ID) = (Ok owner :: (bpfman_error, u32 option) res)"
    and i: "i \<in> unused ?T" and p': "p' = program_set_data \<lparr>db_tree = prog_tree i\<rparr> p"
    and ad: "added ?H r p owner (?T(pre_load_tree r \<mapsto> src)) i ?T'" by blast
  have "get_map_owner_id ?H (program_get_data p) tmp = Ok owner"
    using store.get_owner_ok [OF st, of tmp "program_get_data p" src] built_data [OF assms(5)] assms(4) o by simp
  moreover obtain m where "?T' (prog_tree i) = Some m" "\<forall>k. fixed_key k \<longrightarrow> m k = src k" using ad by (auto simp: added_def)
  moreover have "maps_abs ?H ?T' (spec_save i owner U)" if "maps_abs ?H ?T U" for U
  proof -
    have "pre_load_tree r \<notin> range map_tree" by auto
    then show ?thesis using ad that by (simp add: added_def maps_abs_other)
  qed
  moreover have "kept ?T ?T' (prog_tree j)" if "j \<noteq> i" for j
    using ad that kept_trans [OF kept_cong [of ?T "prog_tree j" "?T(pre_load_tree r \<mapsto> src)"]] by (simp add: added_def)
  moreover have "?T' (pre_load_tree r) = None" "wf_db ?H ?T'" "?T (prog_tree i) = None"
    using ad i by (simp_all add: added_def unused_def)
  ultimately show ?thesis using p' store.added_found [OF st assms(5) ad] by blast
qed

text \<open>
  C11: removing a program of any kind, when it succeeds, takes it out of the database: its id finds
  nothing, it is no user of its maps any more, and all other programs are found as before.
\<close>

theorem removed_program_gone:
  assumes "store (e_db E) \<alpha>" and "wf_db (e_db E) (\<alpha> (wdb w))" and "remove_program E i w = (Ok u, w')"
  shows "\<exists>owner. get_map_owner_id (e_db E) \<lparr>db_tree = prog_tree i\<rparr> (wdb w) = Ok owner
    \<and> \<alpha> (wdb w) (prog_tree i) \<noteq> None \<and> \<alpha> (wdb w') (prog_tree i) = None
    \<and> (get_by_id (e_db E) i :: ('a, bpfman_error, program option) st) (wdb w') = (Ok None, wdb w')
    \<and> wf_db (e_db E) (\<alpha> (wdb w'))
    \<and> (\<forall>U. maps_abs (e_db E) (\<alpha> (wdb w)) U \<longrightarrow> maps_abs (e_db E) (\<alpha> (wdb w')) (spec_delete i owner U))
    \<and> (\<forall>j. j \<noteq> i \<longrightarrow> kept (\<alpha> (wdb w)) (\<alpha> (wdb w')) (prog_tree j))"
proof -
  note st = assms(1)
  from hoareD(1) [OF store.remove_program_triple [OF st refl assms(2)] refl assms(3)]
  obtain m owner where m: "\<alpha> (wdb w) (prog_tree i) = Some m"
    and o: "opt_res (bytes_to_u32 (e_db E)) (m MAP_OWNER_ID) = (Ok owner :: (bpfman_error, u32 option) res)"
    and rm: "removed (e_db E) i owner (\<alpha> (wdb w)) (\<alpha> (wdb w'))" by blast
  have "get_map_owner_id (e_db E) \<lparr>db_tree = prog_tree i\<rparr> (wdb w) = Ok owner"
    using store.get_owner_ok [OF st, of "wdb w" "\<lparr>db_tree = prog_tree i\<rparr>" m] m o by simp
  moreover have "(get_by_id (e_db E) i :: ('a, bpfman_error, program option) st) (wdb w') = (Ok None, wdb w')"
    by (rule store.get_by_id_none [OF st]) (use rm in \<open>simp add: removed_def\<close>)
  ultimately show ?thesis using m rm by (auto simp: removed_def)
qed


subsection \<open>Histories of requests\<close>

text \<open>
  A request to the manager in the environment \<open>E\<close>, with any outcome. A program that is added was
  built under a random number that is in use nowhere, and the kernel gives ids that are in use
  nowhere.
\<close>

inductive request :: "('d \<Rightarrow> trees) \<Rightarrow> ('d, 'sig, 'layer) env \<Rightarrow> 'd kworld \<Rightarrow> 'd kworld \<Rightarrow> bool"
  for \<alpha> :: "'d \<Rightarrow> trees" and E :: "('d, 'sig, 'layer) env" where
  Request_Add: "\<alpha> (wdb w) (pre_load_tree r) = None \<Longrightarrow> \<alpha> tmp (pre_load_tree r) = Some src \<Longrightarrow> built (e_db E) r src p \<Longrightarrow>
    reports (e_aya E) (unused (\<alpha> (wdb w))) \<Longrightarrow> r \<in> unused (\<alpha> (wdb w)) \<Longrightarrow> request \<alpha> E w (snd (add_program E tmp p w))"
| Request_Remove: "request \<alpha> E w (snd (remove_program E i w))"
| Request_List: "request \<alpha> E w (snd (list_programs E lf w))"
| Request_Get: "request \<alpha> E w (snd (get_program E i w))"
| Request_Pull: "request \<alpha> E w (snd (pull_bytecode E img w))"

text \<open>Between two requests everything but the database may change.\<close>

inductive requests :: "('d \<Rightarrow> trees) \<Rightarrow> 'd host \<Rightarrow> 'd kworld \<Rightarrow> ('d, 'sig, 'layer) env list \<Rightarrow> 'd kworld \<Rightarrow> bool"
  for \<alpha> :: "'d \<Rightarrow> trees" and H :: "'d host" where
  Requests_Nil: "requests \<alpha> H w [] w"
| Requests_Snoc: "requests \<alpha> H w Es u \<Longrightarrow> wdb v = wdb u \<Longrightarrow> e_db E = H \<Longrightarrow> request \<alpha> E v w' \<Longrightarrow> requests \<alpha> H w (Es @ [E]) w'"

lemma hoare_any:
  assumes "hoare V P m Q E" and "P (V s)" and "\<And>a T. Q a T \<Longrightarrow> R T" and "\<And>T. E T \<Longrightarrow> R T"
  shows "R (V (snd (m s)))"
  using hoareD [OF assms(1, 2), of _ "snd (m s)"] assms(3, 4) by (metis prod.collapse)

lemma request_wf:
  assumes "store (e_db E) \<alpha>" and "wf_db (e_db E) (\<alpha> (wdb w))" and "request \<alpha> E w w'"
  shows "wf_db (e_db E) (\<alpha> (wdb w'))"
  using assms(3)
proof cases
  case (Request_Add r tmp src p)
  show ?thesis unfolding Request_Add(1)
    by (rule hoare_any [OF store.add_program_triple [OF assms(1) refl assms(2) Request_Add(2-6)]]) (auto simp: added_def)
next
  case (Request_Remove i)
  show ?thesis unfolding Request_Remove(1)
    by (rule hoare_any [OF store.remove_program_triple [OF assms(1) refl assms(2)]]) (auto simp: removed_def)
qed (use stableD [OF store.looking_wf(1) [OF assms(1) refl]] stableD [OF store.looking_wf(2) [OF assms(1) refl]]
      stableD [OF store.looking_wf(3) [OF assms(1) refl]] assms(2) in blast)+

text \<open>
  C8: the database stays well formed along every history of requests, whether they succeed, fail
  half way or panic: all its trees have names of the manager's, the tree of each program holds its
  id and a kind the manager knows, programs of interfaces are marked as attached, and every map
  entry has a user. So looking up any id never panics and finds exactly the programs there are.
\<close>

theorem requests_keep_database:
  assumes "store H \<alpha>" and "wf_db H (\<alpha> (wdb w))" and "requests \<alpha> H w Es w'"
  shows "wf_db H (\<alpha> (wdb w')) \<and> (\<forall>i. \<exists>p d. (get_by_id H i :: ('d, bpfman_error, program option) st) (wdb w') = (Ok p, d)
    \<and> (p \<noteq> None \<longleftrightarrow> \<alpha> (wdb w') (prog_tree i) \<noteq> None))"
proof -
  have wf: "wf_db H (\<alpha> (wdb w'))" using assms(3, 2)
  proof induction
    case (Requests_Snoc w Es u v E w')
    then show ?case using request_wf [of E \<alpha> v w'] assms(1) by simp
  qed
  have "\<exists>p d. (get_by_id H i :: ('d, bpfman_error, program option) st) (wdb w') = (Ok p, d) \<and> (p \<noteq> None \<longleftrightarrow> \<alpha> (wdb w') (prog_tree i) \<noteq> None)" for i
  proof (cases "\<alpha> (wdb w') (prog_tree i)")
    case None
    then show ?thesis using store.get_by_id_none [OF assms(1)] by blast
  next
    case (Some m)
    with wf have "prog_ok H i m" by (simp add: wf_db_def)
    then show ?thesis using store.get_by_id_some [OF assms(1) Some] Some by (metis option.distinct(1))
  qed
  with wf show ?thesis by blast
qed


text \<open>
  C38: a request that names a map owner that does not exist is refused, but the program it had
  already copied into the database stays there: the temporary tree is left with all its entries.
\<close>

theorem unknown_owner_leaves_tree:
  assumes "store (e_db E) \<alpha>" and "setup_bpfman E w = (Ok cfg, v)" and "the_image_manager E = (Ok im :: (bpfman_error, image_manager) res)"
    and "program_get_data p = \<lparr>db_tree = t\<rparr>" and "\<alpha> tmp t = Some src" and "\<alpha> (wdb w) t = None"
    and "src MAP_OWNER_ID = Some (ne4 (e_db E) o')" and "\<alpha> (wdb w) (map_tree o') = None" and "t \<noteq> map_tree o'"
  shows "\<exists>d'. add_program E tmp p w = (Err (Error ''map_owner_id does not exists''), v\<lparr>wdb := d'\<rparr>)
    \<and> \<alpha> d' = (\<alpha> (wdb w))(t \<mapsto> src)"
proof -
  note st = assms(1)
  let ?H = "e_db E" and ?pd = "\<lparr>db_tree = t\<rparr>"
  have v: "wdb v = wdb w" by (rule setup_keeps_db [OF assms(2)])
  have "\<alpha> tmp (db_tree ?pd) = Some src" using assms(5) by simp
  from store.load_ok [OF st this, of "wdb w"]
  obtain d' where load: "program_data_load ?H tmp ?pd (wdb w) = (Ok ?pd, d')" and T': "\<alpha> d' = (\<alpha> (wdb w))(t \<mapsto> src)"
    using assms(6) by auto
  have src: "\<alpha> d' (db_tree ?pd) = Some src" using T' by simp
  have "get_map_owner_id ?H ?pd d' = Ok (Some o')"
    using store.get_owner_ok [OF st src] assms(7) by simp
  moreover have "is_map_owner_id_valid ?H o' d' = Err (Error ''map_owner_id does not exists'')"
    using store.in_names [OF st, of "map_tree o'" d'] T' assms(8, 9) by (simp add: is_map_owner_id_valid_def)
  ultimately have "add_program E tmp p w = (Err (Error ''map_owner_id does not exists''), v\<lparr>wdb := d'\<rparr>)"
    using assms(2, 3, 4) load v by (simp add: add_program_loaded add_loaded_def bind_st_def then_st_def)
  with T' show ?thesis by blast
qed


subsection \<open>A program that shares maps\<close>

text \<open>A database with one program and its map, and a tracepoint program that shares it.\<close>

definition demo_life_db :: ref_db where
  "demo_life_db = [(default_tree, []),
     (map_tree 3, [(MAPS_USED_BY_PREFIX @ show_nat 0, ne4 ref_host 3)]),
     (prog_tree 3, [(ID, ne4 ref_host 3), (KIND, ne4 ref_host (program_type_to_u32 ProgramType_Tracepoint))])]"

definition demo_life_src :: "(string \<times> bytes) list" where
  "demo_life_src = [(ID, ne4 ref_host 7), (KIND, ne4 ref_host (program_type_to_u32 ProgramType_Tracepoint)),
     (LOCATION_FILENAME, as_bytes ''/p''), (MAP_OWNER_ID, ne4 ref_host 3), (NAME, as_bytes ''enter''),
     (TRACEPOINT_NAME, as_bytes ''sched/sched_switch'')]"

definition demo_life_env :: "(ref_db, unit, unit) env" where
  "demo_life_env = demo_ready_env\<lparr>e_aya := demo_aya\<lparr>a_load := \<lambda>l b bs. Inr \<lparr>obj_handle = 0,
     obj_programs = [(''enter'', Is_TracePoint)], obj_maps = [''stats'']\<rparr>\<rparr>\<rparr>"

abbreviation demo_life_prog :: program where
  "demo_life_prog \<equiv> Program_Tracepoint \<lparr>tracepoint_data = \<lparr>db_tree = pre_load_tree 7\<rparr>\<rparr>"

lemma demo_life_trees:
  "ref_abs demo_life_db t = (if t = default_tree then Some Map.empty
     else if t = map_tree 3 then Some [MAPS_USED_BY_PREFIX @ show_nat 0 \<mapsto> ne4 ref_host 3]
     else if t = prog_tree 3 then Some [ID \<mapsto> ne4 ref_host 3, KIND \<mapsto> ne4 ref_host (program_type_to_u32 ProgramType_Tracepoint)]
     else None)"
  by (simp add: demo_life_db_def ref_abs_def fun_upd_twist)

lemma demo_life_maps: "maps_abs ref_host (ref_abs demo_life_db) [3 \<mapsto> {#3#}]"
proof -
  have "users ref_host [MAPS_USED_BY_PREFIX @ show_nat 0 \<mapsto> ne4 ref_host 3] {#3#}"
    using users_numbered [of Map.empty ref_host "[3]"] by (simp add: numbered_def)
  then show ?thesis by (simp add: maps_abs_def demo_life_trees)
qed

lemma demo_life_wf: "wf_db ref_host (ref_abs demo_life_db)"
proof -
  have "no_orphans [3 \<mapsto> {#3#}]" by (simp add: no_orphans_def)
  moreover have "prog_ok ref_host i m \<and> attached_ok ref_host m" if "ref_abs demo_life_db (prog_tree i) = Some m" for i m
    using that by (auto simp: demo_life_trees prog_ok_def attached_ok_def supported_kinds_def kind_bytes_inject split: if_splits)
  ultimately show ?thesis using demo_life_maps by (auto simp: wf_db_def demo_life_trees)
qed

lemma demo_life_built: "built ref_host 7 (map_of demo_life_src) demo_life_prog"
  by (auto simp: built_def demo_life_src_def supported_kinds_def program_of_kind_def)

lemma demo_life_hyps:
  "e_db demo_life_env = ref_host" "store (e_db demo_life_env) ref_abs" "ref_abs demo_life_db (pre_load_tree 7) = None"
  "7 \<in> unused (ref_abs demo_life_db)" "reports (e_aya demo_life_env) (unused (ref_abs demo_life_db))"
  by (simp_all add: demo_life_env_def demo_ready_env_def demo_env_def ref_store demo_life_trees unused_def reports_def demo_aya_def demo_info_def)

lemma setup_files: "setup_bpfman E w = (r, v) \<Longrightarrow> v = w\<lparr>wfs := wfs v\<rparr>"
  by (auto simp: setup_bpfman_def Let_def then_st_def bind_st_def map_err_st_def split: prod.splits res.splits)

lemma demo_life_setup: "setup_bpfman demo_life_env = setup_bpfman demo_ready_env"
  by (rule ext) (simp add: setup_bpfman_def demo_life_env_def)

definition demo_life_world :: "ref_db kworld" where
  "demo_life_world = \<lparr>wdb = demo_life_db, wfs = Map.empty, wkern = []\<rparr>"

abbreviation demo_life_tmp :: ref_db where
  "demo_life_tmp \<equiv> [(pre_load_tree 7, demo_life_src)]"

abbreviation demo_life_pd :: program_data where
  "demo_life_pd \<equiv> \<lparr>db_tree = pre_load_tree 7\<rparr>"

text \<open>The database after the copy, before the kernel is asked, and after it has answered.\<close>

definition demo_life_copied :: ref_db where
  "demo_life_copied = demo_life_db @ demo_life_tmp"

definition demo_life_pinned :: ref_db where
  "demo_life_pinned = demo_life_db @ [(pre_load_tree 7, demo_life_src @ [(MAP_PIN_PATH, as_bytes (calc_map_pin_path 3))])]"

definition demo_life_filled :: ref_db where
  "demo_life_filled = demo_life_db @ [(pre_load_tree 7, demo_life_src @ [(MAP_PIN_PATH, as_bytes (calc_map_pin_path 3)), (PROGRAM_BYTES, [7])])]"

definition demo_life_loaded :: ref_db where
  "demo_life_loaded = snd (set_kernel_info ref_host demo_life_pd demo_info demo_life_filled)"

abbreviation demo_life_im :: image_manager where
  "demo_life_im \<equiv> \<lparr>cosign = \<lparr>allow_unsigned = True\<rparr>\<rparr>"

lemma demo_life_copy:
  "program_data_load ref_host demo_life_tmp demo_life_pd demo_life_db = (Ok demo_life_pd, demo_life_copied)"
  "get_map_owner_id ref_host demo_life_pd demo_life_copied = Ok (Some 3)"
  "is_map_owner_id_valid ref_host 3 demo_life_copied = Ok (calc_map_pin_path 3)"
  by code_simp+

lemma demo_life_fill:
  "set_map_pin_path ref_host demo_life_pd (calc_map_pin_path 3) demo_life_copied = (Ok (), demo_life_pinned)"
  "set_program_bytes ref_host (e_oci demo_life_env) (e_open_file demo_life_env) demo_life_im demo_life_pd demo_life_pinned = (Ok (), demo_life_filled)"
  by code_simp+

lemma demo_life_reads:
  "get_name ref_host demo_life_pd demo_life_filled = Ok ''enter''"
  "get_global_data ref_host demo_life_pd demo_life_filled = Ok []"
  "get_map_pin_path ref_host demo_life_pd demo_life_filled = Ok (Some (calc_map_pin_path 3))"
  "get_program_bytes ref_host demo_life_pd demo_life_filled = Ok [7]"
  "tracepoint_get_tracepoint ref_host \<lparr>tracepoint_data = demo_life_pd\<rparr> demo_life_filled = Ok ''sched/sched_switch''"
  by code_simp+

lemma demo_life_info:
  "is_ok (fst (set_kernel_info ref_host demo_life_pd demo_info demo_life_filled))"
  "get_id ref_host demo_life_pd demo_life_loaded = Ok 9"
  "get_map_pin_path ref_host demo_life_pd demo_life_loaded = Ok (Some (calc_map_pin_path 3))"
  by code_simp+

lemma demo_life_finish:
  "is_ok (fst (finish_add demo_life_env demo_life_prog (Some 3) 9 \<lparr>wdb = demo_life_loaded, wfs = f, wkern = ks\<rparr>))"
  by code_simp

lemma demo_life_manager: "the_image_manager demo_life_env = (Ok demo_life_im :: (bpfman_error, image_manager) res)"
  by code_simp

lemma demo_life_attach:
  "\<exists>g ks'. add_single_attach_program demo_life_env demo_life_prog \<lparr>wdb = demo_life_filled, wfs = f, wkern = ks\<rparr>
     = (Ok 9, \<lparr>wdb = demo_life_loaded, wfs = g, wkern = ks'\<rparr>)"
proof -
  have env: "e_db demo_life_env = ref_host" "a_info (e_aya demo_life_env) l q = Inr demo_info"
    "a_load (e_aya demo_life_env) l b bs = Inr \<lparr>obj_handle = 0, obj_programs = [(''enter'', Is_TracePoint)], obj_maps = [''stats'']\<rparr>"
    "a_unit (e_aya demo_life_env) l c = Inr ()" "a_num (e_aya demo_life_env) l c = Inr (length l)"
    "a_pin (e_aya demo_life_env) l f c = Inr (File 384)" for l q b bs c f
    by (simp_all add: demo_life_env_def demo_ready_env_def demo_env_def demo_aya_def)
  have split: "split_on (CHR ''/'') ''sched/sched_switch'' = [''sched'', ''sched_switch'']" by code_simp
  have info: "set_kernel_info ref_host demo_life_pd demo_info demo_life_filled = (Ok (), demo_life_loaded)"
    using demo_life_info(1) is_ok_run by (fastforce simp: demo_life_loaded_def)
  show ?thesis
    using demo_life_reads demo_life_info info
    by (simp add: add_single_attach_program_def attach_tracepoint_def record_kernel_info_def pin_link_def pin_program_def
        pin_own_maps_def Let_def bind_st_def then_st_def map_err_st_def expect_st_def k_defs k_pin_def env split program_mut_def try_into_def)
qed

lemma demo_life_run_from:
  assumes "program_data_load ref_host tmp demo_life_pd demo_life_db = (Ok demo_life_pd, demo_life_copied)"
  shows "\<exists>g ks p' w'. finish_add demo_life_env demo_life_prog (Some 3) 9 \<lparr>wdb = demo_life_loaded, wfs = g, wkern = ks\<rparr> = (Ok p', w')
    \<and> add_program demo_life_env tmp demo_life_prog demo_life_world = (Ok p', w')"
proof -
  obtain cfg v where "setup_bpfman demo_life_env demo_life_world = (Ok cfg, v)"
    using demo_setup_run [of demo_life_world] by (auto simp: demo_life_world_def demo_life_setup)
  with setup_files [OF this] obtain f where
    run: "setup_bpfman demo_life_env demo_life_world = (Ok cfg, \<lparr>wdb = demo_life_db, wfs = f, wkern = []\<rparr>)"
    by (simp add: demo_life_world_def)
  have db: "e_db demo_life_env = ref_host" by (rule demo_life_hyps)
  obtain g ks where att: "add_single_attach_program demo_life_env demo_life_prog \<lparr>wdb = demo_life_filled, wfs = f, wkern = []\<rparr>
      = (Ok 9, \<lparr>wdb = demo_life_loaded, wfs = g, wkern = ks\<rparr>)" using demo_life_attach by blast
  obtain p' w' where fin: "finish_add demo_life_env demo_life_prog (Some 3) 9 \<lparr>wdb = demo_life_loaded, wfs = g, wkern = ks\<rparr> = (Ok p', w')"
    using is_ok_run [OF demo_life_finish] by blast
  have "add_loaded demo_life_env demo_life_im cfg demo_life_pd demo_life_prog (Some 3) \<lparr>wdb = demo_life_copied, wfs = f, wkern = []\<rparr>
      = (Ok p', w')"
    using demo_life_copy(3) demo_life_fill att fin
    by (simp add: add_loaded_def db bind_st_def then_st_def store_if_index_def add_by_kind_def)
  moreover have "add_program demo_life_env tmp demo_life_prog demo_life_world =
      add_loaded demo_life_env demo_life_im cfg demo_life_pd demo_life_prog (Some 3) \<lparr>wdb = demo_life_copied, wfs = f, wkern = []\<rparr>"
    using run demo_life_manager assms demo_life_copy(2) by (simp add: add_program_loaded db bind_st_def)
  ultimately show ?thesis using fin by auto
qed

lemma demo_life_run: "\<exists>p' w'. add_program demo_life_env demo_life_tmp demo_life_prog demo_life_world = (Ok p', w')"
  using demo_life_run_from [OF demo_life_copy(1)] by blast

lemma demo_life_owner: "get_map_owner_id ref_host demo_life_pd demo_life_tmp = Ok (Some 3)"
  by code_simp

theorem added_program_found_witness:
  "\<exists>p' w' i. add_program demo_life_env demo_life_tmp demo_life_prog demo_life_world = (Ok p', w')
    \<and> (\<exists>d. (get_by_id ref_host i :: (ref_db, bpfman_error, program option) st) (wdb w') = (Ok (Some p'), d))
    \<and> maps_abs ref_host (ref_abs (wdb w')) [3 \<mapsto> {#i, 3#}]"
proof -
  obtain p' w' where run: "add_program demo_life_env demo_life_tmp demo_life_prog demo_life_world = (Ok p', w')"
    using demo_life_run by blast
  have w: "wdb demo_life_world = demo_life_db" by (simp add: demo_life_world_def)
  have tmp: "ref_abs demo_life_tmp (pre_load_tree 7) = Some (map_of demo_life_src)" by (simp add: ref_abs_def)
  note db = demo_life_hyps(1)
  from added_program_found [of demo_life_env ref_abs demo_life_world 7 demo_life_tmp, unfolded w db,
      OF ref_store demo_life_wf demo_life_hyps(3) tmp demo_life_built demo_life_hyps(5, 4) run]
  obtain i owner where "\<exists>d. (get_by_id ref_host i :: (ref_db, bpfman_error, program option) st) (wdb w') = (Ok (Some p'), d)"
    and "get_map_owner_id ref_host (program_get_data demo_life_prog) demo_life_tmp = Ok owner"
    and "\<forall>U. maps_abs ref_host (ref_abs demo_life_db) U \<longrightarrow> maps_abs ref_host (ref_abs (wdb w')) (spec_save i owner U)" by blast
  moreover have "owner = Some 3" using calculation(2) demo_life_owner by simp
  moreover have "spec_save i (Some 3) [3 \<mapsto> {#3#}] = [3 \<mapsto> {#i, 3#}]" by (simp add: spec_save_def)
  ultimately show ?thesis using run demo_life_maps by metis
qed

theorem requests_keep_database_witness:
  "\<exists>w'. requests ref_abs ref_host demo_life_world [demo_life_env, demo_life_env] w'
    \<and> (\<exists>p d. (get_by_id ref_host 9 :: (ref_db, bpfman_error, program option) st) (wdb w') = (Ok p, d))"
proof -
  let ?v = "snd (add_program demo_life_env demo_life_tmp demo_life_prog demo_life_world)"
  let ?w = "snd (remove_program demo_life_env 3 ?v)"
  have w: "wdb demo_life_world = demo_life_db" by (simp add: demo_life_world_def)
  have tmp: "ref_abs demo_life_tmp (pre_load_tree 7) = Some (map_of demo_life_src)" by (simp add: ref_abs_def)
  have "request ref_abs demo_life_env demo_life_world ?v"
    by (rule Request_Add [where r = 7 and src = "map_of demo_life_src"])
      (simp_all only: w demo_life_hyps demo_life_built tmp)
  from Requests_Snoc [OF Requests_Nil refl demo_life_hyps(1) this]
  have "requests ref_abs ref_host demo_life_world ([] @ [demo_life_env]) ?v" .
  from Requests_Snoc [OF this refl demo_life_hyps(1) Request_Remove [of ref_abs demo_life_env ?v 3]]
  have hist: "requests ref_abs ref_host demo_life_world [demo_life_env, demo_life_env] ?w" by simp
  have "wf_db ref_host (ref_abs (wdb demo_life_world))" unfolding w by (rule demo_life_wf)
  from requests_keep_database [OF ref_store this hist] hist show ?thesis by blast
qed

definition demo_bare_world :: "ref_db kworld" where
  "demo_bare_world = \<lparr>wdb = [(default_tree, [])], wfs = Map.empty, wkern = []\<rparr>"

theorem unknown_owner_leaves_tree_witness:
  "\<exists>e w'. add_program demo_life_env demo_life_tmp demo_life_prog demo_bare_world = (Err e, w')
    \<and> ref_abs (wdb w') (pre_load_tree 7) = Some (map_of demo_life_src)"
proof -
  obtain cfg v where run: "setup_bpfman demo_life_env demo_bare_world = (Ok cfg, v)"
    using demo_setup_run [of demo_bare_world] by (auto simp: demo_bare_world_def demo_life_setup)
  have none: "ref_abs (wdb demo_bare_world) t = None" if "t \<noteq> default_tree" for t
    using that by (simp add: demo_bare_world_def ref_abs_def)
  have "map_of demo_life_src MAP_OWNER_ID = Some (ne4 (e_db demo_life_env) 3)"
    by (simp add: demo_life_src_def demo_life_hyps(1))
  with unknown_owner_leaves_tree [of demo_life_env ref_abs demo_bare_world cfg v demo_life_im demo_life_prog "pre_load_tree 7" demo_life_tmp
      "map_of demo_life_src" 3, OF demo_life_hyps(2) run demo_life_manager]
  show ?thesis by (auto simp: none ref_abs_def [of demo_life_tmp])
qed

text \<open>Removing the program that shares the map of the other.\<close>

definition demo_shared_db :: ref_db where
  "demo_shared_db = [(default_tree, []),
     (map_tree 3, [(MAPS_USED_BY_PREFIX @ show_nat 0, ne4 ref_host 3), (MAPS_USED_BY_PREFIX @ show_nat 1, ne4 ref_host 8)]),
     (prog_tree 3, [(ID, ne4 ref_host 3), (KIND, ne4 ref_host (program_type_to_u32 ProgramType_Tracepoint))]),
     (prog_tree 8, [(ID, ne4 ref_host 8), (KIND, ne4 ref_host (program_type_to_u32 ProgramType_Tracepoint)),
       (MAP_OWNER_ID, ne4 ref_host 3)])]"

abbreviation demo_shared_prog :: program where
  "demo_shared_prog \<equiv> Program_Tracepoint \<lparr>tracepoint_data = \<lparr>db_tree = prog_tree 8\<rparr>\<rparr>"

definition demo_shared_fs :: fs where
  "demo_shared_fs = [prog_pin 8 \<mapsto> File 384, prog_link_pin 8 \<mapsto> File 384]"

definition demo_shared_world :: "ref_db kworld" where
  "demo_shared_world = \<lparr>wdb = demo_shared_db, wfs = demo_shared_fs, wkern = []\<rparr>"

lemma demo_shared_trees:
  "ref_abs demo_shared_db t = (if t = default_tree then Some Map.empty
     else if t = map_tree 3 then Some [MAPS_USED_BY_PREFIX @ show_nat 0 \<mapsto> ne4 ref_host 3, MAPS_USED_BY_PREFIX @ show_nat 1 \<mapsto> ne4 ref_host 8]
     else if t = prog_tree 3 then Some [ID \<mapsto> ne4 ref_host 3, KIND \<mapsto> ne4 ref_host (program_type_to_u32 ProgramType_Tracepoint)]
     else if t = prog_tree 8 then Some [ID \<mapsto> ne4 ref_host 8, KIND \<mapsto> ne4 ref_host (program_type_to_u32 ProgramType_Tracepoint),
       MAP_OWNER_ID \<mapsto> ne4 ref_host 3]
     else None)"
  by (auto simp: demo_shared_db_def ref_abs_def fun_eq_iff)

lemma demo_shared_maps: "maps_abs ref_host (ref_abs demo_shared_db) [3 \<mapsto> {#3, 8#}]"
proof -
  have "users ref_host (numbered MAPS_USED_BY_PREFIX (map (ne4 ref_host) [3, 8])) {#3, 8#}"
    using users_numbered [of Map.empty ref_host "[3, 8]"] by simp
  moreover have "numbered MAPS_USED_BY_PREFIX (map (ne4 ref_host) [3, 8]) =
      [MAPS_USED_BY_PREFIX @ show_nat 0 \<mapsto> ne4 ref_host 3, MAPS_USED_BY_PREFIX @ show_nat 1 \<mapsto> ne4 ref_host 8]"
    by (simp add: numbered_def fun_upd_twist)
  ultimately show ?thesis by (simp add: maps_abs_def demo_shared_trees)
qed

lemma demo_shared_wf: "wf_db ref_host (ref_abs demo_shared_db)"
proof -
  have "no_orphans [3 \<mapsto> {#3, 8#}]" by (simp add: no_orphans_def)
  moreover have "prog_ok ref_host i m \<and> attached_ok ref_host m" if "ref_abs demo_shared_db (prog_tree i) = Some m" for i m
    using that by (auto simp: demo_shared_trees prog_ok_def attached_ok_def supported_kinds_def kind_bytes_inject split: if_splits)
  ultimately show ?thesis using demo_shared_maps by (auto simp: wf_db_def demo_shared_trees)
qed

lemma demo_shared_reads:
  "(get_by_id ref_host 8 :: (ref_db, bpfman_error, program option) st) demo_shared_db = (Ok (Some demo_shared_prog), demo_shared_db)"
  "get_map_owner_id ref_host \<lparr>db_tree = prog_tree 8\<rparr> demo_shared_db = Ok (Some 3)"
  "get_id ref_host \<lparr>db_tree = prog_tree 8\<rparr> demo_shared_db = Ok 8"
  by code_simp+

lemma demo_shared_delete:
  "is_ok (fst (delete_map demo_os 8 (Some 3) \<lparr>wdb = projr (db_drop_tree ref_host (prog_tree 8) demo_shared_db), wfs = f, wkern = ks\<rparr>))"
  by code_simp

lemma demo_shared_free: "\<forall>p \<in> set startup_dirs. path_free (wfs demo_shared_world) p"
proof -
  have "\<forall>p \<in> set startup_dirs. \<forall>q \<in> set (ancestors p @ [p]). q \<noteq> prog_pin 8 \<and> q \<noteq> prog_link_pin 8" by code_simp
  then show ?thesis by (auto simp: path_free_def is_file_def demo_shared_world_def demo_shared_fs_def)
qed

lemma demo_shared_run: "\<exists>w'. remove_program demo_ready_env 8 demo_shared_world = (Ok (), w')"
proof -
  obtain cfg v where s: "setup_bpfman demo_ready_env demo_shared_world = (Ok cfg, v)"
    and files: "\<forall>q. is_file (wfs v) q \<longleftrightarrow> is_file demo_shared_fs q"
    using demo_setup_files [OF demo_shared_free] by (auto simp: demo_shared_world_def)
  with setup_files [OF s] obtain f where
    run: "setup_bpfman demo_ready_env demo_shared_world = (Ok cfg, \<lparr>wdb = demo_shared_db, wfs = f, wkern = []\<rparr>)"
    and "\<forall>q. is_file f q \<longleftrightarrow> is_file demo_shared_fs q"
    by (simp add: demo_shared_world_def)
  then have "is_file f (prog_pin 8)" "is_file f (prog_link_pin 8)" by (auto simp: is_file_def demo_shared_fs_def)
  then obtain a b where ab: "f (prog_pin 8) = Some (File a)" "f (prog_link_pin 8) = Some (File b)"
    by (auto simp: is_file_def split: option.splits fs_node.splits)
  let ?d = "projr (db_drop_tree ref_host (prog_tree 8) demo_shared_db)"
  have env: "e_db demo_ready_env = ref_host" "e_os demo_ready_env = demo_os" by (simp_all add: demo_ready_env_def demo_env_def)
  obtain d where drop: "db_drop_tree ref_host (prog_tree 8) demo_shared_db = Inr d" using ref.drop_ok [of "prog_tree 8"] by auto
  have "prog_pin 8 \<noteq> prog_link_pin 8" by (rule prog_pin_ne)
  then have del: "program_delete demo_os demo_shared_prog (\<lparr>wdb = demo_shared_db, wfs = f, wkern = []\<rparr> :: ref_db kworld)
      = (Ok (), \<lparr>wdb = d, wfs = f(prog_pin 8 := None, prog_link_pin 8 := None), wkern = []\<rparr>)"
    using demo_shared_reads(3) drop ab
    by (simp add: program_delete_def bind_st_def then_st_def remove_if_exists_def path_exists_def remove_file_def)
  obtain w' :: "ref_db kworld" where "delete_map demo_os 8 (Some 3) \<lparr>wdb = d, wfs = f(prog_pin 8 := None, prog_link_pin 8 := None), wkern = []\<rparr> = (Ok (), w')"
    using is_ok_run [OF demo_shared_delete] drop by fastforce
  then have "remove_program demo_ready_env 8 demo_shared_world = (Ok (), w')"
    using run demo_shared_reads del by (simp add: remove_program_def env Let_def bind_st_def then_st_def map_err_st_def)
  then show ?thesis by blast
qed

theorem removed_program_gone_witness:
  "\<exists>w'. remove_program demo_ready_env 8 demo_shared_world = (Ok (), w')
    \<and> ref_abs (wdb w') (prog_tree 8) = None \<and> maps_abs ref_host (ref_abs (wdb w')) [3 \<mapsto> {#3#}]"
proof -
  obtain w' where run: "remove_program demo_ready_env 8 demo_shared_world = (Ok (), w')" using demo_shared_run by blast
  have env: "e_db demo_ready_env = ref_host" "wdb demo_shared_world = demo_shared_db"
    by (simp_all add: demo_ready_env_def demo_env_def demo_shared_world_def)
  from removed_program_gone [of demo_ready_env ref_abs demo_shared_world 8 "()" w', unfolded env, OF ref_store demo_shared_wf run]
  have "ref_abs (wdb w') (prog_tree 8) = None" "maps_abs ref_host (ref_abs (wdb w')) (spec_delete 8 (Some 3) [3 \<mapsto> {#3, 8#}])"
    using demo_shared_maps demo_shared_reads(2) by auto
  with run show ?thesis by (auto simp: spec_delete_def)
qed

end
