(* ===== verification/Image_Policy.thy ===== *)
theory Image_Policy
  imports Kernel_Protocol Manager_Behaviour
begin

text \<open>
  The signature policy across components: the configuration (\<open>config.rs\<close>) decides what the verifier
  of the image manager (\<open>oci_utils\<close>) accepts, and the manager (\<open>lib.rs\<close>) asks it before an image is
  stored or its bytecode is loaded.
\<close>

lemma is_ok_iff: "is_ok r \<longleftrightarrow> (\<exists>a. r = Ok a)"
  by (cases r) simp_all

text \<open>Without a trusted signature the strict verifier refuses, and nothing is read or stored.\<close>

lemma cosign_refuses:
  assumes "\<not> allow_unsigned cv" and "parse_oci_reference C url = Inr r" and "triangulate C r (auth_of user pass) = Inr (sg, digest)"
    and "trusted_signature_layers C (auth_of user pass) digest sg = Inl e"
  shows "\<exists>msg. cosign_verify C cv url user pass = Err msg"
  using assms by (cases e) (simp_all add: cosign_verify_def)

lemma get_image_refuses:
  assumes "cosign_verify C (cosign im) url user pass = Err msg"
  shows "\<exists>e. get_image H C im url policy user pass d = (Err e, d)"
  using assms by (cases "parse_reference C url") (simp_all add: get_image_def bind_st_def then_st_def)

lemma set_program_bytes_refuses:
  assumes "get_location H pd d = Ok (Location_Image img)"
    and "cosign_verify C (cosign im) (image_url img) (username img) (password img) = Err msg"
  shows "\<exists>e. set_program_bytes H C op im pd d = (Err e, d)"
  using get_image_refuses [OF assms(2), of H "bi_image_pull_policy img" d] assms(1)
  by (auto simp: set_program_bytes_def location_get_program_bytes_def bind_st_def map_err_st_def)

text \<open>The location depends on five entries of the tree only.\<close>

context store
begin

lemma get_location_cong:
  assumes "\<alpha> d (db_tree pd) = Some m" and "\<alpha> d' (db_tree pd) = Some m'"
    and "\<forall>k \<in> {LOCATION_FILENAME, LOCATION_IMAGE_URL, LOCATION_IMAGE_PULL_POLICY, LOCATION_USERNAME, LOCATION_PASSWORD}. m' k = m k"
  shows "get_location H pd d' = get_location H pd d"
proof -
  have get: "sled_get H (db_tree pd) k d' = sled_get H (db_tree pd) k d" if "m' k = m k" for k
    using assms(1, 2) that by (simp add: sled_get_def)
  have str: "get_string H k pd d' = get_string H k pd d" if "m' k = m k" for k
    using get [OF that] by (simp add: get_string_def)
  have opt: "get_opt H dec k pd d' = get_opt H dec k pd d" if "m' k = m k" for k and dec :: "bytes \<Rightarrow> (bpfman_error, string) res"
    using assms(1, 2) that by simp
  from assms(3) have "m' LOCATION_FILENAME = m LOCATION_FILENAME" "m' LOCATION_IMAGE_URL = m LOCATION_IMAGE_URL"
    "m' LOCATION_IMAGE_PULL_POLICY = m LOCATION_IMAGE_PULL_POLICY" "m' LOCATION_USERNAME = m LOCATION_USERNAME"
    "m' LOCATION_PASSWORD = m LOCATION_PASSWORD" by simp_all
  note eqs = get [OF this(1)] str [OF this(2)] str [OF this(3)] opt [OF this(4)] opt [OF this(5)]
  show ?thesis unfolding get_location_def eqs ..
qed

text \<open>\<open>add_program\<close> stops at the bytecode when the image is refused.\<close>

lemma add_program_refuses:
  assumes E: "e_db E = H"
    and im: "\<And>im. the_image_manager E = (Ok im :: (bpfman_error, image_manager) res) \<Longrightarrow>
      \<exists>msg. cosign_verify (e_oci E) (cosign im) (image_url img) (username img) (password img) = Err msg"
    and p: "program_get_data p = \<lparr>db_tree = t\<rparr>" and src: "\<alpha> tmp t = Some src" and new: "\<alpha> (wdb w) t = None"
    and loc: "get_location H \<lparr>db_tree = t\<rparr> tmp = Ok (Location_Image img)"
  shows "\<not> is_ok (fst (add_program E tmp p w)) \<and> wkern (snd (add_program E tmp p w)) = wkern w"
proof -
  obtain r v where su: "setup_bpfman E w = (r, v)" by fastforce
  have v: "wdb v = wdb w" "wkern v = wkern w"
    using setup_keeps_db [OF su] setup_no_kcall [of E] su by (auto simp: no_kcall_def dest: spec [of _ w])
  let ?pd = "\<lparr>db_tree = t\<rparr>"
  obtain d1 where load: "program_data_load H tmp ?pd (wdb w) = (Ok ?pd, d1)" and d1: "\<alpha> d1 t = Some src"
    using load_ok [of tmp ?pd src "wdb w"] src new by auto
  have bytes: "\<exists>e. set_program_bytes H (e_oci E) (e_open_file E) im' ?pd d = (Err e, d)"
    if "the_image_manager E = (Ok im' :: (bpfman_error, image_manager) res)" "\<alpha> d t = Some m" "m = src \<or> m = src(MAP_PIN_PATH \<mapsto> b)" for im' d m b
  proof -
    have "get_location H ?pd d = Ok (Location_Image img)"
      using get_location_cong [of tmp ?pd src d m] that(2, 3) src loc by auto
    with im [OF that(1)] show ?thesis by (blast intro: set_program_bytes_refuses)
  qed
  show ?thesis
  proof (cases "the_image_manager E :: (bpfman_error, image_manager) res")
    case (Ok im')
    note fails = bytes [OF Ok d1] bytes [OF Ok, of "inserted H t MAP_PIN_PATH _ d1", OF _ disjI2 [OF refl]]
    have "\<alpha> (inserted H t MAP_PIN_PATH b d1) t = Some (src(MAP_PIN_PATH \<mapsto> b))" for b using d1 by simp
    from fails(2) [OF this] obtain err where
      "\<And>b. set_program_bytes H (e_oci E) (e_open_file E) im' ?pd (inserted H t MAP_PIN_PATH b d1) =
        (Err (err b), inserted H t MAP_PIN_PATH b d1)" by metis
    with fails(1) show ?thesis
      using su v load d1 E p Ok
      by (cases r; cases "get_map_owner_id H ?pd d1")
        (auto simp: add_program_def Let_def bind_st_def then_st_def set_map_pin_path_def is_map_owner_id_valid_def split: option.split)
  qed (use su v in \<open>cases r; simp add: add_program_def Let_def bind_st_def\<close>)+
qed

end

text \<open>
  C20: when the configuration does not allow unsigned images, an image for which no trusted signature
  can be had is refused: pulling it fails and leaves the database as it was, and a request to load a
  program from it fails without a single call to the kernel.
\<close>

theorem unsigned_image_refused:
  assumes "store (e_db E) \<alpha>" and "\<not> unsigned_allowed (open_config_file (e_toml E) (e_config_file E))"
    and "parse_oci_reference (e_oci E) (image_url img) = Inr r"
    and "triangulate (e_oci E) r (auth_of (username img) (password img)) = Inr (sg, digest)"
    and "trusted_signature_layers (e_oci E) (auth_of (username img) (password img)) digest sg = Inl e"
  shows "\<not> is_ok (fst (pull_bytecode E img w)) \<and> wdb (snd (pull_bytecode E img w)) = wdb w
    \<and> (program_get_data p = \<lparr>db_tree = t\<rparr> \<and> \<alpha> tmp t = Some src \<and> \<alpha> (wdb w) t = None
        \<and> get_location (e_db E) \<lparr>db_tree = t\<rparr> tmp = Ok (Location_Image img) \<longrightarrow>
      \<not> is_ok (fst (add_program E tmp p w)) \<and> wkern (snd (add_program E tmp p w)) = wkern w)"
proof -
  have no: "\<exists>msg. cosign_verify (e_oci E) (cosign im) (image_url img) (username img) (password img) = Err msg"
    if "the_image_manager E = (Ok im :: ('x, image_manager) res)" for im
  proof (rule cosign_refuses [OF _ assms(3-5)])
    show "\<not> allow_unsigned (cosign im)"
      using init_image_manager_Ok [OF that [unfolded the_image_manager_def]] assms(2) by simp
  qed
  obtain s v where su: "setup_bpfman E w = (s, v)" by fastforce
  note v = setup_keeps_db [OF su]
  have "\<not> is_ok (fst (pull_bytecode E img w)) \<and> wdb (snd (pull_bytecode E img w)) = wdb w"
  proof (cases "the_image_manager E :: (string, image_manager) res")
    case (Ok im)
    with no [OF Ok] get_image_refuses obtain e where
      "get_image (e_db E) (e_oci E) im (image_url img) (bi_image_pull_policy img) (username img) (password img) (wdb v) = (Err e, wdb v)"
      by metis
    then show ?thesis using Ok su v by (cases s) (simp_all add: pull_bytecode_def then_st_def bind_st_def map_err_st_def)
  qed (use su v in \<open>cases s; simp add: pull_bytecode_def then_st_def bind_st_def map_err_st_def\<close>)+
  then show ?thesis using store.add_program_refuses [OF assms(1) refl no] by blast
qed

text \<open>A registry whose image has no signature, and a request to load a program from it.\<close>

definition demo_strict_env :: "(ref_db, unit, unit) env" where
  "demo_strict_env = demo_ready_env\<lparr>
     e_oci := demo_oci\<lparr>trusted_signature_layers := \<lambda>a d s. Inl (RegistryPullManifestError ''no signature'')\<rparr>,
     e_toml := \<lambda>s. Inr \<lparr>interfaces = None, signing = Some \<lparr>signing_allow_unsigned = False\<rparr>, database = None\<rparr>,
     e_config_file := Inr ''allow_unsigned = false''\<rparr>"

definition demo_image :: bytecode_image where
  "demo_image = \<lparr>image_url = ''quay.io/bpfman-bytecode/xdp_pass'', bi_image_pull_policy = ImagePullPolicy_Always, username = None, password = None\<rparr>"

definition demo_image_tmp :: ref_db where
  "demo_image_tmp = [(pre_load_tree 7, [(LOCATION_IMAGE_URL, as_bytes ''quay.io/bpfman-bytecode/xdp_pass''),
     (LOCATION_IMAGE_PULL_POLICY, as_bytes ''Always'')])]"

abbreviation demo_image_prog :: program where
  "demo_image_prog \<equiv> Program_Xdp \<lparr>xdp_data = \<lparr>db_tree = pre_load_tree 7\<rparr>\<rparr>"

theorem unsigned_image_refused_witness:
  "\<not> is_ok (fst (pull_bytecode demo_strict_env demo_image \<lparr>wdb = [], wfs = Map.empty, wkern = []\<rparr>))
    \<and> \<not> is_ok (fst (add_program demo_strict_env demo_image_tmp demo_image_prog \<lparr>wdb = [], wfs = Map.empty, wkern = []\<rparr>))
    \<and> wkern (snd (add_program demo_strict_env demo_image_tmp demo_image_prog \<lparr>wdb = [], wfs = Map.empty, wkern = []\<rparr>)) = []"
proof -
  have host: "e_db demo_strict_env = ref_host" by (simp add: demo_strict_env_def demo_ready_env_def demo_env_def)
  have strict: "\<not> unsigned_allowed (open_config_file (e_toml demo_strict_env) (e_config_file demo_strict_env))" by code_simp
  have loc: "get_location ref_host \<lparr>db_tree = pre_load_tree 7\<rparr> demo_image_tmp = Ok (Location_Image demo_image)" by code_simp
  have reg: "parse_oci_reference (e_oci demo_strict_env) (image_url demo_image) = Inr \<lparr>registry = ''quay.io'',
      repository = ''quay.io/bpfman-bytecode/xdp_pass'', ref_tag = Some ''latest'', ref_digest = None\<rparr>"
    "triangulate (e_oci demo_strict_env) r a = Inr ((), ''sha256:00'')"
    "trusted_signature_layers (e_oci demo_strict_env) a ''sha256:00'' () = Inl (RegistryPullManifestError ''no signature'')" for r a
    by (simp_all add: demo_strict_env_def demo_image_def ref_oci_def)
  have "ref_abs demo_image_tmp (pre_load_tree 7) \<noteq> None" "ref_abs [] (pre_load_tree 7) = None"
    by (simp_all add: ref_abs_def demo_image_tmp_def)
  with unsigned_image_refused [of demo_strict_env ref_abs demo_image, OF _ strict reg, unfolded host, OF ref_store,
      of "\<lparr>wdb = [], wfs = Map.empty, wkern = []\<rparr>" demo_image_prog "pre_load_tree 7" demo_image_tmp] loc
  show ?thesis by auto
qed

end
