(* ===== verification/Bpfman_Api.thy ===== *)
theory Bpfman_Api
  imports Manager_Behaviour
begin

text \<open>
  The gRPC interface: the messages of \<open>bpfman-api/src/bpfman.v1.rs\<close>, their conversions in
  \<open>bpfman-api/src/lib.rs\<close> and the handlers of \<open>bpfman-api/src/bin/rpc/rpc.rs\<close>. A program is built
  in a temporary database (the parameters \<open>tmp\<close>, the outcome of opening it, and \<open>rnd\<close>, the random
  id it gets) and handed to the manager.
\<close>


subsection \<open>Messages\<close>

record v1_bytecode_image =
  v1_url :: string
  v1_image_pull_policy :: i32
  v1_username :: "string option"
  v1_password :: "string option"

datatype v1_location = V1_Image v1_bytecode_image | V1_File string

record v1_bytecode_location =
  v1_location :: "v1_location option"

record xdp_attach_info =
  xa_priority :: i32
  xa_iface :: string
  xa_position :: i32
  xa_proceed_on :: "i32 list"

record tc_attach_info =
  ta_priority :: i32
  ta_iface :: string
  ta_position :: i32
  ta_direction :: string
  ta_proceed_on :: "i32 list"

record kprobe_attach_info =
  ka_fn_name :: string
  ka_offset :: u64
  ka_retprobe :: bool
  ka_container_pid :: "i32 option"

record uprobe_attach_info =
  ua_fn_name :: "string option"
  ua_offset :: u64
  ua_target :: string
  ua_retprobe :: bool
  ua_pid :: "i32 option"
  ua_container_pid :: "i32 option"

datatype attach_info =
    Info_Xdp xdp_attach_info
  | Info_Tc tc_attach_info
  | Info_Tracepoint string
  | Info_Kprobe kprobe_attach_info
  | Info_Uprobe uprobe_attach_info
  | Info_Fentry string
  | Info_Fexit string

record v1_attach_info =
  ai_info :: "attach_info option"

record program_info =
  pi_name :: string
  pi_bytecode :: "v1_bytecode_location option"
  pi_attach :: "v1_attach_info option"
  pi_global_data :: "(string, bytes) hashmap"
  pi_map_owner_id :: "u32 option"
  pi_map_pin_path :: string
  pi_map_used_by :: "string list"
  pi_metadata :: "(string, string) hashmap"

record kernel_program_info =
  ki_id :: u32
  ki_name :: string
  ki_program_type :: u32
  ki_loaded_at :: string
  ki_tag :: string
  ki_gpl_compatible :: bool
  ki_map_ids :: "u32 list"
  ki_btf_id :: u32
  ki_bytes_xlated :: u32
  ki_jited :: bool
  ki_bytes_jited :: u32
  ki_bytes_memlock :: u32
  ki_verified_insns :: u32

record load_request =
  lr_bytecode :: "v1_bytecode_location option"
  lr_name :: string
  lr_program_type :: u32
  lr_attach :: "v1_attach_info option"
  lr_metadata :: "(string, string) hashmap"
  lr_global_data :: "(string, bytes) hashmap"
  lr_uuid :: "string option"
  lr_map_owner_id :: "u32 option"

record list_request =
  ls_program_type :: "u32 option"
  ls_bpfman_programs_only :: "bool option"
  ls_match_metadata :: "(string, string) hashmap"

text \<open>\<open>LoadResponse\<close>, \<open>GetResponse\<close> and \<open>ListResult\<close> have the same two fields.\<close>

record program_reply =
  pr_info :: "program_info option"
  pr_kernel_info :: "kernel_program_info option"

datatype rpc_status = Aborted string


subsection \<open>Conversions\<close>

definition v1_bytecode :: "location \<Rightarrow> v1_bytecode_location option" where
  "v1_bytecode loc = (case loc of
     Location_Image m \<Rightarrow> Some \<lparr>v1_location = Some (V1_Image \<lparr>v1_url = image_url m,
       v1_image_pull_policy = image_pull_policy_to_i32 (bi_image_pull_policy m),
       v1_username = Some [], v1_password = Some []\<rparr>)\<rparr>
   | Location_File m \<Rightarrow> Some \<lparr>v1_location = Some (V1_File m)\<rparr>)"

text \<open>\<open>unwrap_or(0) as i32\<close> keeps the low 32 bits of a position.\<close>

definition position_i32 :: "usize option \<Rightarrow> i32" where
  "position_i32 pos = (case pos of None \<Rightarrow> 0 | Some n \<Rightarrow> ucast n)"

fun attach_info_of :: "'d host \<Rightarrow> program \<Rightarrow> 'd \<Rightarrow> (bpfman_error, attach_info option) res" where
  "attach_info_of H (Program_Xdp p) d =
     bind_res (xdp_get_priority H p d) (\<lambda>prio.
     bind_res (xdp_get_iface H p d) (\<lambda>iface.
     bind_res (xdp_get_current_position H p d) (\<lambda>pos.
     bind_res (xdp_get_proceed_on H p d) (\<lambda>po.
     Ok (Some (Info_Xdp \<lparr>xa_priority = prio, xa_iface = iface, xa_position = position_i32 pos,
       xa_proceed_on = xdp_as_action_vec po\<rparr>))))))"
| "attach_info_of H (Program_Tc p) d =
     bind_res (tc_get_priority H p d) (\<lambda>prio.
     bind_res (tc_get_iface H p d) (\<lambda>iface.
     bind_res (tc_get_current_position H p d) (\<lambda>pos.
     bind_res (tc_get_direction H p d) (\<lambda>dir.
     bind_res (tc_get_proceed_on H p d) (\<lambda>po.
     Ok (Some (Info_Tc \<lparr>ta_priority = prio, ta_iface = iface, ta_position = position_i32 pos,
       ta_direction = show_direction dir, ta_proceed_on = tc_as_action_vec po\<rparr>)))))))"
| "attach_info_of H (Program_Tracepoint p) d = ok_map (\<lambda>t. Some (Info_Tracepoint t)) (tracepoint_get_tracepoint H p d)"
| "attach_info_of H (Program_Kprobe p) d =
     bind_res (kprobe_get_fn_name H p d) (\<lambda>f.
     bind_res (kprobe_get_offset H p d) (\<lambda>off.
     bind_res (kprobe_get_retprobe H p d) (\<lambda>r.
     bind_res (kprobe_get_container_pid H p d) (\<lambda>c.
     Ok (Some (Info_Kprobe \<lparr>ka_fn_name = f, ka_offset = off, ka_retprobe = r, ka_container_pid = c\<rparr>))))))"
| "attach_info_of H (Program_Uprobe p) d =
     bind_res (uprobe_get_fn_name H p d) (\<lambda>f.
     bind_res (uprobe_get_offset H p d) (\<lambda>off.
     bind_res (uprobe_get_target H p d) (\<lambda>target.
     bind_res (uprobe_get_retprobe H p d) (\<lambda>r.
     bind_res (uprobe_get_pid H p d) (\<lambda>pid.
     bind_res (uprobe_get_container_pid H p d) (\<lambda>c.
     Ok (Some (Info_Uprobe \<lparr>ua_fn_name = f, ua_offset = off, ua_target = target, ua_retprobe = r,
       ua_pid = pid, ua_container_pid = c\<rparr>))))))))"
| "attach_info_of H (Program_Fentry p) d = ok_map (\<lambda>f. Some (Info_Fentry f)) (fentry_get_fn_name H p d)"
| "attach_info_of H (Program_Fexit p) d = ok_map (\<lambda>f. Some (Info_Fexit f)) (fexit_get_fn_name H p d)"
| "attach_info_of H (Program_Unsupported _) d = Ok None"

definition program_info_try_from :: "'d host \<Rightarrow> program \<Rightarrow> 'd \<Rightarrow> (bpfman_error, program_info) res" where
  "program_info_try_from H program d =
     (let data = program_get_data program in
     bind_res (get_location H data d) (\<lambda>loc.
     bind_res (attach_info_of H program d) (\<lambda>info.
     bind_res (get_name H data d) (\<lambda>name.
     bind_res (get_global_data H data d) (\<lambda>global_data.
     bind_res (get_map_owner_id H data d) (\<lambda>owner.
     bind_res (get_map_pin_path H data d) (\<lambda>path.
     bind_res (get_maps_used_by H data d) (\<lambda>used_by.
     bind_res (get_metadata H data d) (\<lambda>metadata.
     Ok \<lparr>pi_name = name, pi_bytecode = v1_bytecode loc, pi_attach = Some \<lparr>ai_info = info\<rparr>,
       pi_global_data = global_data, pi_map_owner_id = owner,
       pi_map_pin_path = (case path of None \<Rightarrow> [] | Some v \<Rightarrow> v),
       pi_map_used_by = map show_u32 used_by, pi_metadata = metadata\<rparr>)))))))))"

definition kernel_program_info_try_from ::
  "'d host \<Rightarrow> program \<Rightarrow> 'd \<Rightarrow> (bpfman_error, kernel_program_info) res" where
  "kernel_program_info_try_from H program d =
     (let data = program_get_data program in
     bind_res (get_id H data d) (\<lambda>i.
     bind_res (get_kernel_name H data d) (\<lambda>name.
     bind_res (program_kind H program d) (\<lambda>kind.
     bind_res (get_kernel_loaded_at H data d) (\<lambda>loaded_at.
     bind_res (get_kernel_tag H data d) (\<lambda>tag.
     bind_res (get_kernel_gpl_compatible H data d) (\<lambda>gpl.
     bind_res (get_kernel_map_ids H data d) (\<lambda>map_ids.
     bind_res (get_kernel_btf_id H data d) (\<lambda>btf_id.
     bind_res (get_kernel_bytes_xlated H data d) (\<lambda>bytes_xlated.
     bind_res (get_kernel_jited H data d) (\<lambda>jited.
     bind_res (get_kernel_bytes_jited H data d) (\<lambda>bytes_jited.
     bind_res (get_kernel_bytes_memlock H data d) (\<lambda>bytes_memlock.
     bind_res (get_kernel_verified_insns H data d) (\<lambda>verified_insns.
     Ok \<lparr>ki_id = i, ki_name = name, ki_program_type = program_type_to_u32 kind, ki_loaded_at = loaded_at,
       ki_tag = tag, ki_gpl_compatible = gpl, ki_map_ids = map_ids, ki_btf_id = btf_id,
       ki_bytes_xlated = bytes_xlated, ki_jited = jited, ki_bytes_jited = bytes_jited,
       ki_bytes_memlock = bytes_memlock, ki_verified_insns = verified_insns\<rparr>))))))))))))))"

text \<open>An empty user name or password is none.\<close>

definition none_if_empty :: "string option \<Rightarrow> string option" where
  "none_if_empty v = (case v of Some [] \<Rightarrow> None | _ \<Rightarrow> v)"

definition bytecode_image_from :: "v1_bytecode_image \<Rightarrow> ('e, bytecode_image) res" where
  "bytecode_image_from v = bytecode_image_new (v1_url v) (v1_image_pull_policy v)
     (none_if_empty (v1_username v)) (none_if_empty (v1_password v))"



subsection \<open>Handlers\<close>

definition request_location :: "load_request \<Rightarrow> (rpc_status, location) res" where
  "request_location req =
     bind_res (ok_or (Aborted ''missing bytecode info'') (lr_bytecode req)) (\<lambda>b.
     bind_res (ok_or (Aborted ''missing location'') (v1_location b)) (\<lambda>l. case l of
       V1_Image i \<Rightarrow> ok_map Location_Image (bytecode_image_from i)
     | V1_File p \<Rightarrow> Ok (Location_File p)))"

definition request_info :: "load_request \<Rightarrow> (rpc_status, attach_info) res" where
  "request_info req =
     bind_res (ok_or (Aborted ''missing attach info'') (lr_attach req)) (\<lambda>a.
     ok_or (Aborted ''missing info'') (ai_info a))"

text \<open>The error of a failed constructor, with the kind of program it names.\<close>

definition created :: "string \<Rightarrow> ('a \<Rightarrow> program) \<Rightarrow> ('d, bpfman_error, 'a) st \<Rightarrow> ('d, rpc_status, program) st" where
  "created what mk m = bind_st (map_err_st (\<lambda>e. Aborted (''failed to create '' @ what @ '': '' @ show_bpfman_error e)) m)
     (\<lambda>p. ret (mk p))"

fun program_of_info :: "'d host \<Rightarrow> program_data \<Rightarrow> attach_info \<Rightarrow> ('d, rpc_status, program) st" where
  "program_of_info H data (Info_Xdp a) =
     bind_st (reads (\<lambda>_. map_err (\<lambda>_. Aborted ''failed to parse proceed_on'') (xdp_from_int32s (xa_proceed_on a)))) (\<lambda>po.
     created ''xdpprogram'' Program_Xdp (xdp_new H data (xa_priority a) (xa_iface a) po))"
| "program_of_info H data (Info_Tc a) =
     bind_st (reads (\<lambda>_. map_err (\<lambda>_. Aborted ''direction is not a string'') (direction_from_string (ta_direction a)))) (\<lambda>dir.
     bind_st (reads (\<lambda>_. map_err (\<lambda>_. Aborted ''failed to parse proceed_on'') (tc_from_int32s (ta_proceed_on a)))) (\<lambda>po.
     created ''tcprogram'' Program_Tc (tc_new H data (ta_priority a) (ta_iface a) po dir)))"
| "program_of_info H data (Info_Tracepoint t) = created ''tcprogram'' Program_Tracepoint (tracepoint_new H data t)"
| "program_of_info H data (Info_Kprobe a) = created ''kprobeprogram'' Program_Kprobe
     (kprobe_new H data (ka_fn_name a) (ka_offset a) (ka_retprobe a) (ka_container_pid a))"
| "program_of_info H data (Info_Uprobe a) = created ''uprobeprogram'' Program_Uprobe
     (uprobe_new H data (ua_fn_name a) (ua_offset a) (ua_target a) (ua_retprobe a) (ua_pid a) (ua_container_pid a))"
| "program_of_info H data (Info_Fentry f) = created ''fentryprogram'' Program_Fentry (fentry_new H data f)"
| "program_of_info H data (Info_Fexit f) = created ''fexitprogram'' Program_Fexit (fexit_new H data f)"

text \<open>
  A program that is built in a temporary database: \<open>ProgramData::new\<close>, then the constructor of its
  kind. The result is the program with that database.
\<close>

definition build_in_tmp ::
  "(bpfman_error, program_data) res \<times> 'd option \<Rightarrow> (bpfman_error \<Rightarrow> 'e) \<Rightarrow>
   (program_data \<Rightarrow> ('d, 'e, program) st) \<Rightarrow> ('e, program \<times> 'd) res" where
  "build_in_tmp new of_err build = (case new of
     (Ok data, Some d) \<Rightarrow> (case build data d of
         (Ok p, d') \<Rightarrow> Ok (p, d') | (Err e, _) \<Rightarrow> Err e | (Panic p, _) \<Rightarrow> Panic p)
   | (Ok data, None) \<Rightarrow> Panic ''unable to open temporary database''
   | (Err e, _) \<Rightarrow> Err (of_err e)
   | (Panic p, _) \<Rightarrow> Panic p)"

definition request_program :: "'d host \<Rightarrow> string + 'd \<Rightarrow> u32 \<Rightarrow> load_request \<Rightarrow> (rpc_status, program \<times> 'd) res" where
  "request_program H tmp rnd req =
     bind_res (request_location req) (\<lambda>loc.
     build_in_tmp (program_data_new H tmp rnd loc (lr_name req) (lr_metadata req) (lr_global_data req) (lr_map_owner_id req))
       (\<lambda>e. Aborted (''failed to create ProgramData: '' @ show_bpfman_error e))
       (\<lambda>data. bind_st (reads (\<lambda>_. request_info req)) (program_of_info H data)))"

definition aborted_err :: "string \<Rightarrow> bpfman_error \<Rightarrow> rpc_status" where
  "aborted_err context e = Aborted (context @ show_bpfman_error e)"

definition kernel_reply :: "('d, 'sig, 'layer) env \<Rightarrow> program \<Rightarrow> ('d kworld, rpc_status, kernel_program_info) st" where
  "kernel_reply E program = map_err_st (aborted_err ''convert Program to GRPC kernel program info: '')
     (from_db (kernel_program_info_try_from (e_db E) program))"

definition rpc_load ::
  "('d, 'sig, 'layer) env \<Rightarrow> string + 'd \<Rightarrow> u32 \<Rightarrow> load_request \<Rightarrow> ('d kworld, rpc_status, program_reply) st" where
  "rpc_load E tmp rnd req =
     bind_st (reads (\<lambda>_. request_program (e_db E) tmp rnd req)) (\<lambda>(program, d).
     bind_st (map_err_st (aborted_err []) (add_program E d program)) (\<lambda>program.
     bind_st (map_err_st (aborted_err ''convert Program to GRPC program: '')
       (from_db (program_info_try_from (e_db E) program))) (\<lambda>info.
     bind_st (kernel_reply E program) (\<lambda>kernel_info.
     ret \<lparr>pr_info = Some info, pr_kernel_info = Some kernel_info\<rparr>))))"

definition rpc_unload :: "('d, 'sig, 'layer) env \<Rightarrow> u32 \<Rightarrow> ('d kworld, rpc_status, unit) st" where
  "rpc_unload E i = map_err_st (aborted_err []) (remove_program E i)"

definition info_reply ::
  "('d, 'sig, 'layer) env \<Rightarrow> program \<Rightarrow> ('d kworld, rpc_status, program_reply) st" where
  "info_reply E program =
     bind_st (case program of
         Program_Unsupported _ \<Rightarrow> ret None
       | _ \<Rightarrow> bind_st (map_err_st (aborted_err ''failed to get program metadata: '')
           (from_db (program_info_try_from (e_db E) program))) (\<lambda>i. ret (Some i))) (\<lambda>info.
     bind_st (kernel_reply E program) (\<lambda>kernel_info.
     ret \<lparr>pr_info = info, pr_kernel_info = Some kernel_info\<rparr>))"

definition rpc_get :: "('d, 'sig, 'layer) env \<Rightarrow> u32 \<Rightarrow> ('d kworld, rpc_status, program_reply) st" where
  "rpc_get E i = bind_st (map_err_st (aborted_err []) (get_program E i)) (info_reply E)"

fun info_replies ::
  "('d, 'sig, 'layer) env \<Rightarrow> program list \<Rightarrow> ('d kworld, rpc_status, program_reply list) st" where
  "info_replies E [] = ret []"
| "info_replies E (r # rs) = bind_st (info_reply E r) (\<lambda>e. bind_st (info_replies E rs) (\<lambda>es. ret (e # es)))"

definition rpc_list :: "('d, 'sig, 'layer) env \<Rightarrow> list_request \<Rightarrow> ('d kworld, rpc_status, program_reply list) st" where
  "rpc_list E req =
     (let lf = \<lparr>lf_program_type = ls_program_type req, metadata_selector = ls_match_metadata req,
        bpfman_programs_only = (case ls_bpfman_programs_only req of None \<Rightarrow> False | Some b \<Rightarrow> b)\<rparr> in
     bind_st (map_err_st (aborted_err ''failed to list programs: '') (list_programs E lf)) (info_replies E))"

definition rpc_pull_bytecode ::
  "('d, 'sig, 'layer) env \<Rightarrow> v1_bytecode_image option \<Rightarrow> ('d kworld, rpc_status, unit) st" where
  "rpc_pull_bytecode E request =
     bind_st (reads (\<lambda>_. ok_or (Aborted ''Empty pull_bytecode request received'') request)) (\<lambda>i.
     bind_st (reads (\<lambda>_. bytecode_image_from i)) (\<lambda>img.
     map_err_st Aborted (pull_bytecode E img)))"



subsection \<open>Properties of the interface\<close>

text \<open>A reply that shows no credentials.\<close>

definition hides_credentials :: "program_reply \<Rightarrow> bool" where
  "hides_credentials r \<longleftrightarrow> (\<forall>info loc im. pr_info r = Some info \<longrightarrow> pi_bytecode info = Some loc \<longrightarrow>
     v1_location loc = Some (V1_Image im) \<longrightarrow> v1_username im = Some [] \<and> v1_password im = Some [])"

lemma program_info_hides:
  assumes "program_info_try_from H program d = Ok info"
  shows "hides_credentials \<lparr>pr_info = Some info, pr_kernel_info = k\<rparr>"
proof -
  obtain loc where "pi_bytecode info = v1_bytecode loc"
    using assms by (auto simp: program_info_try_from_def Let_def bind_res_eq_Ok)
  then show ?thesis by (cases loc) (auto simp: hides_credentials_def v1_bytecode_def)
qed

lemma info_reply_hides: "info_reply E program w = (Ok r, w') \<Longrightarrow> hides_credentials r"
proof -
  assume "info_reply E program w = (Ok r, w')"
  then obtain info k where r: "r = \<lparr>pr_info = info, pr_kernel_info = Some k\<rparr>"
    and info: "info = None \<or> (\<exists>i. info = Some i \<and> program_info_try_from (e_db E) program (wdb w) = Ok i)"
    by (cases program) (auto simp: info_reply_def bind_st_eq_Ok map_err_st_eq_Ok)
  show ?thesis
  proof (cases info)
    case None
    then show ?thesis by (simp add: r hides_credentials_def)
  next
    case (Some i)
    with info show ?thesis by (auto simp: r program_info_hides)
  qed
qed

lemma info_replies_hide: "info_replies E ps w = (Ok rs, w') \<Longrightarrow> \<forall>r \<in> set rs. hides_credentials r"
  by (induction ps arbitrary: w rs) (auto simp: bind_st_eq_Ok dest: info_reply_hides)

text \<open>
  C28: no reply shows registry credentials. Whatever the database holds, a successful load, get or
  list answers every image location with an empty user name and an empty password.
\<close>

theorem replies_hide_credentials:
  shows "(rpc_load E tmp rnd req w = (Ok r, w') \<longrightarrow> hides_credentials r)
    \<and> (rpc_get E i w = (Ok r, w') \<longrightarrow> hides_credentials r)
    \<and> (rpc_list E lreq w = (Ok rs, w') \<longrightarrow> (\<forall>r \<in> set rs. hides_credentials r))"
proof (intro conjI impI)
  assume "rpc_load E tmp rnd req w = (Ok r, w')"
  then obtain program d info k where "program_info_try_from (e_db E) program d = Ok info"
    "r = \<lparr>pr_info = Some info, pr_kernel_info = Some k\<rparr>"
    by (auto simp: rpc_load_def bind_st_eq_Ok map_err_st_eq_Ok)
  then show "hides_credentials r" by (simp add: program_info_hides)
next
  assume "rpc_get E i w = (Ok r, w')"
  then show "hides_credentials r" by (auto simp: rpc_get_def bind_st_eq_Ok dest: info_reply_hides)
next
  assume "rpc_list E lreq w = (Ok rs, w')"
  then obtain ps v where "info_replies E ps v = (Ok rs, w')" by (auto simp: rpc_list_def Let_def bind_st_eq_Ok)
  then show "\<forall>r \<in> set rs. hides_credentials r" by (rule info_replies_hide)
qed

text \<open>The attach information of the kinds that are attached on their own, with valid strings.\<close>

fun single_info :: "attach_info \<Rightarrow> bool" where
  "single_info (Info_Xdp a) = False"
| "single_info (Info_Tc a) = False"
| "single_info (Info_Tracepoint t) = is_str t"
| "single_info (Info_Kprobe a) = is_str (ka_fn_name a)"
| "single_info (Info_Uprobe a) = ((\<forall>f. ua_fn_name a = Some f \<longrightarrow> is_str f) \<and> is_str (ua_target a))"
| "single_info (Info_Fentry f) = is_str f"
| "single_info (Info_Fexit f) = is_str f"

text \<open>
  C29: what a client asks for is what it is shown. Building a tracepoint, kprobe, uprobe, fentry or
  fexit program from the attach information of a request succeeds, and the information that is
  answered for the program is that of the request, field by field.
\<close>

theorem attach_info_round_trip:
  assumes "store H \<alpha>" and "\<alpha> d (db_tree data) = Some m" and "single_info info"
    and "m KPROBE_CONTAINER_PID = None" and "m UPROBE_FN_NAME = None" and "m UPROBE_PID = None"
    and "m UPROBE_CONTAINER_PID = None"
  shows "\<exists>p d'. program_of_info H data info d = (Ok p, d') \<and> attach_info_of H p d' = Ok (Some info)"
proof -
  note st = assms(1)
  note new = store.new_list_run [OF st, OF assms(2)]
  note abs = store.abs_wrote_list [OF st, OF assms(2)]
  note gets = store.get_string_ok [OF st] store.sled_get_ok [OF st] store.get_opt_ok [OF st]
  note lists = kprobe_new_list uprobe_new_list one_string_new_list
  show ?thesis
  proof (cases info)
    case (Info_Kprobe a)
    then show ?thesis
      using assms(3, 4)
      by (cases "ka_container_pid a")
        (simp_all add: created_def bind_st_def map_err_st_def lists new abs kvs_defs gets kprobe_get_fn_name_def
          kprobe_get_offset_def kprobe_get_retprobe_def kprobe_get_container_pid_def)
  next
    case (Info_Tracepoint t)
    then show ?thesis using assms(3)
      by (simp add: created_def bind_st_def map_err_st_def lists new abs kvs_defs gets tracepoint_get_tracepoint_def)
  next
    case (Info_Uprobe a)
    then show ?thesis
      using assms(3, 5-7)
      by (cases "ua_container_pid a"; cases "ua_pid a"; cases "ua_fn_name a")
        (simp_all add: created_def bind_st_def map_err_st_def lists new abs kvs_defs gets uprobe_get_fn_name_def
          uprobe_get_offset_def uprobe_get_target_def uprobe_get_retprobe_def uprobe_get_pid_def uprobe_get_container_pid_def)
  next
    case (Info_Fentry f)
    then show ?thesis using assms(3)
      by (simp add: created_def bind_st_def map_err_st_def lists new abs kvs_defs gets fentry_get_fn_name_def)
  next
    case (Info_Fexit f)
    then show ?thesis using assms(3)
      by (simp add: created_def bind_st_def map_err_st_def lists new abs kvs_defs gets fexit_get_fn_name_def)
  qed (use assms(3) in simp_all)
qed

text \<open>A loaded program from an image that was pulled with credentials.\<close>

definition demo_reply_db :: ref_db where
  "demo_reply_db = snd (set_kernel_info ref_host \<lparr>db_tree = prog_tree 9\<rparr> demo_info [(prog_tree 9,
     [(KIND, ne4 ref_host (program_type_to_u32 ProgramType_Tracepoint)), (NAME, as_bytes ''enter''),
      (TRACEPOINT_NAME, as_bytes ''sched/sched_switch''), (LOCATION_IMAGE_URL, as_bytes ''quay.io/x''),
      (LOCATION_IMAGE_PULL_POLICY, as_bytes ''Always''), (LOCATION_USERNAME, as_bytes ''me''),
      (LOCATION_PASSWORD, as_bytes ''secret'')])])"

abbreviation demo_reply_prog :: program where
  "demo_reply_prog \<equiv> Program_Tracepoint \<lparr>tracepoint_data = \<lparr>db_tree = prog_tree 9\<rparr>\<rparr>"

lemma demo_reply_get:
  "(get_by_id ref_host 9 :: (ref_db, bpfman_error, program option) st) demo_reply_db = (Ok (Some demo_reply_prog), demo_reply_db)"
  by code_simp

lemma demo_reply_ok:
  "is_ok (program_info_try_from ref_host demo_reply_prog demo_reply_db)"
  "is_ok (kernel_program_info_try_from ref_host demo_reply_prog demo_reply_db)"
  by code_simp+

theorem replies_hide_credentials_witness:
  "\<exists>r w'. rpc_get demo_ready_env 9 \<lparr>wdb = demo_reply_db, wfs = Map.empty, wkern = []\<rparr> = (Ok r, w') \<and> hides_credentials r"
proof -
  let ?w = "\<lparr>wdb = demo_reply_db, wfs = Map.empty, wkern = []\<rparr> :: ref_db kworld"
  obtain cfg v where run: "setup_bpfman demo_ready_env ?w = (Ok cfg, v)" using demo_setup_run [of ?w] by auto
  then have v: "wdb v = demo_reply_db" using setup_keeps_db by fastforce
  obtain i k where "program_info_try_from ref_host demo_reply_prog demo_reply_db = Ok i"
    "kernel_program_info_try_from ref_host demo_reply_prog demo_reply_db = Ok k"
    using is_ok_ex demo_reply_ok by metis
  then have "rpc_get demo_ready_env 9 ?w = (Ok \<lparr>pr_info = Some i, pr_kernel_info = Some k\<rparr>, v)"
    using run v demo_reply_get
    by (simp add: rpc_get_def get_program_def info_reply_def kernel_reply_def bind_st_def map_err_st_def
        demo_ready_env_def demo_env_def)
  with replies_hide_credentials [where E = demo_ready_env and i = 9 and w = ?w] show ?thesis by blast
qed

theorem attach_info_round_trip_witness:
  "\<exists>p d'. program_of_info ref_host \<lparr>db_tree = ''t''\<rparr> (Info_Kprobe \<lparr>ka_fn_name = ''do_unlinkat'', ka_offset = 8,
      ka_retprobe = False, ka_container_pid = None\<rparr>) [(''t'', [])] = (Ok p, d')
    \<and> attach_info_of ref_host p d' = Ok (Some (Info_Kprobe \<lparr>ka_fn_name = ''do_unlinkat'', ka_offset = 8,
      ka_retprobe = False, ka_container_pid = None\<rparr>))"
  by (rule attach_info_round_trip [OF ref_store, where m = Map.empty]) (simp_all add: ref_abs_def)

end
