(* ===== verification/Api_Histories.thy ===== *)
theory Api_Histories
  imports Request_Histories Image_Policy Bpfman_Api
begin

text \<open>
  From a client's request to its later lookups: what the gRPC handlers (\<open>rpc.rs\<close>) build from a request
  is what the manager expects, and what the server answers to a load it answers again to a get.
\<close>

text \<open>The keys of a tree that a request fills for every kind of program.\<close>

definition request_key :: "string \<Rightarrow> bool" where
  "request_key k \<longleftrightarrow> k = MAP_OWNER_ID \<or> prefix PREFIX_METADATA k \<or> prefix PREFIX_GLOBAL_DATA k"

lemma request_key_cases:
  assumes "request_key k"
  obtains "k = MAP_OWNER_ID" | z where "k = PREFIX_METADATA @ z" | z where "k = PREFIX_GLOBAL_DATA @ z"
  using assms unfolding request_key_def prefix_def by blast

lemma request_key_fixed: "request_key k \<Longrightarrow> fixed_key k"
  by (erule request_key_cases) (simp_all add: fixed_key_def plain_key_def prefix_defs)

lemma request_key_kept:
  assumes "request_key k"
  shows "upd_list (xdp_kvs H pr ifc xpo) m k = m k" "upd_list (tc_kvs H pr ifc tpo dir) m k = m k"
    "upd_list (kprobe_kvs H fn off rp cpid) m k = m k" "upd_list (uprobe_kvs H ufn off target rp pid cpid) m k = m k"
    "upd_list (one_string_kvs H TRACEPOINT_NAME v kind) m k = m k"
    "upd_list (one_string_kvs H FENTRY_FN_NAME v kind) m k = m k"
    "upd_list (one_string_kvs H FEXIT_FN_NAME v kind) m k = m k"
  using assms by (cases rule: request_key_cases, simp_all add: kvs_defs)+

context store
begin

text \<open>A constructor makes a program the manager can rebuild from its tree.\<close>

lemma created_built:
  assumes m: "\<alpha> d (pre_load_tree r) = Some m" and i: "m ID = Some (ne4 H r)"
    and run: "created what C (then_st (insert_list H (pre_load_tree r) kvs) (ret x)) d = (Ok p, d')"
    and kind: "kind \<in> supported_kinds" "upd_list kvs m ID = m ID" "upd_list kvs m KIND = Some (ne4 H (program_type_to_u32 kind))"
      "program_of_kind kind (pre_load_tree r) (upd_list kvs m) = Ok (C x)"
    and keep: "\<And>k. request_key k \<Longrightarrow> upd_list kvs m k = m k"
  shows "\<exists>src. \<alpha> d' (pre_load_tree r) = Some src \<and> built H r src p \<and> (\<forall>k. request_key k \<longrightarrow> src k = m k)"
proof -
  have "p = C x \<and> d' = wrote_list (pre_load_tree r) kvs d"
    using run new_list_run [OF m, of kvs x] by (auto simp: created_def bind_st_def map_err_st_def)
  then show ?thesis using m i kind keep by (auto simp: built_def)
qed

lemma info_built:
  assumes m: "\<alpha> d (pre_load_tree r) = Some m" and i: "m ID = Some (ne4 H r)"
    and none: "m UPROBE_OFFSET = None" "m FENTRY_FN_NAME = None"
    and run: "program_of_info H \<lparr>db_tree = pre_load_tree r\<rparr> info d = (Ok p, d')"
  shows "\<exists>src. \<alpha> d' (pre_load_tree r) = Some src \<and> built H r src p \<and> (\<forall>k. request_key k \<longrightarrow> src k = m k)"
proof -
  note made = created_built [OF m i]
  note facts = kvs_defs none program_of_kind_def supported_kinds_def
  show ?thesis
  proof (cases info)
    case (Info_Xdp a)
    with run obtain po where "created ''xdpprogram'' Program_Xdp (xdp_new H \<lparr>db_tree = pre_load_tree r\<rparr> (xa_priority a) (xa_iface a) po) d = (Ok p, d')"
      by (auto simp: bind_st_eq_Ok)
    then show ?thesis unfolding xdp_new_list program_data.select_convs
      by (rule made [where kind = ProgramType_Xdp]) (erule request_key_kept | simp add: facts)+
  next
    case (Info_Tc a)
    with run obtain dir po where "created ''tcprogram'' Program_Tc (tc_new H \<lparr>db_tree = pre_load_tree r\<rparr> (ta_priority a) (ta_iface a) po dir) d = (Ok p, d')"
      by (auto simp: bind_st_eq_Ok)
    then show ?thesis unfolding tc_new_list program_data.select_convs
      by (rule made [where kind = ProgramType_Tc]) (erule request_key_kept | simp add: facts)+
  next
    case (Info_Tracepoint t)
    with run have "created ''tcprogram'' Program_Tracepoint (tracepoint_new H \<lparr>db_tree = pre_load_tree r\<rparr> t) d = (Ok p, d')" by simp
    then show ?thesis unfolding one_string_new_list program_data.select_convs
      by (rule made [where kind = ProgramType_Tracepoint]) (erule request_key_kept | simp add: facts)+
  next
    case (Info_Kprobe a)
    with run have "created ''kprobeprogram'' Program_Kprobe (kprobe_new H \<lparr>db_tree = pre_load_tree r\<rparr>
      (ka_fn_name a) (ka_offset a) (ka_retprobe a) (ka_container_pid a)) d = (Ok p, d')" by simp
    then show ?thesis unfolding kprobe_new_list program_data.select_convs
      by (rule made [where kind = ProgramType_Probe]) (erule request_key_kept | simp add: facts)+
  next
    case (Info_Uprobe a)
    with run have "created ''uprobeprogram'' Program_Uprobe (uprobe_new H \<lparr>db_tree = pre_load_tree r\<rparr>
      (ua_fn_name a) (ua_offset a) (ua_target a) (ua_retprobe a) (ua_pid a) (ua_container_pid a)) d = (Ok p, d')" by simp
    then show ?thesis unfolding uprobe_new_list program_data.select_convs
      by (rule made [where kind = ProgramType_Probe]) (erule request_key_kept | simp add: facts)+
  next
    case (Info_Fentry f)
    with run have "created ''fentryprogram'' Program_Fentry (fentry_new H \<lparr>db_tree = pre_load_tree r\<rparr> f) d = (Ok p, d')" by simp
    then show ?thesis unfolding one_string_new_list program_data.select_convs
      by (rule made [where kind = ProgramType_Tracing]) (erule request_key_kept | simp add: facts)+
  next
    case (Info_Fexit f)
    with run have "created ''fexitprogram'' Program_Fexit (fexit_new H \<lparr>db_tree = pre_load_tree r\<rparr> f) d = (Ok p, d')" by simp
    then show ?thesis unfolding one_string_new_list program_data.select_convs
      by (rule made [where kind = ProgramType_Tracing]) (erule request_key_kept | simp add: facts)+
  qed
qed

lemma request_built:
  assumes "\<alpha> tmp (pre_load_tree r) = None" and "request_program H (Inr tmp) r req = Ok (p, d)"
  shows "\<exists>loc src. request_location req = Ok loc \<and> \<alpha> d (pre_load_tree r) = Some src \<and> built H r src p
    \<and> (\<forall>k. request_key k \<longrightarrow> src k = new_program_map H r loc (lr_name req) (lr_metadata req) (lr_global_data req) (lr_map_owner_id req) k)"
proof -
  from assms(2) obtain loc where loc: "request_location req = Ok loc" by (auto simp: request_program_def bind_res_eq_Ok)
  let ?m = "new_program_map H r loc (lr_name req) (lr_metadata req) (lr_global_data req) (lr_map_owner_id req)"
  obtain d1 where new: "program_data_init H r loc (lr_name req) (lr_metadata req) (lr_global_data req) (lr_map_owner_id req) tmp =
      (Ok \<lparr>db_tree = pre_load_tree r\<rparr>, d1)" and d1: "\<alpha> d1 = (\<alpha> tmp)(pre_load_tree r \<mapsto> ?m)"
    by (rule program_data_init_ok [OF assms(1)])
  from assms(2) loc new obtain info where
    "program_of_info H \<lparr>db_tree = pre_load_tree r\<rparr> info d1 = (Ok p, d)"
    by (auto simp: request_program_def program_data_new_def build_in_tmp_def bind_st_def split: prod.splits res.splits)
  moreover have "?m UPROBE_OFFSET = None" "?m FENTRY_FN_NAME = None"
    by (auto simp: new_program_map_def map_add_def add_location_other split: option.splits)
  ultimately have "\<exists>src. \<alpha> d (pre_load_tree r) = Some src \<and> built H r src p \<and> (\<forall>k. request_key k \<longrightarrow> src k = ?m k)"
    using d1 by (intro info_built) (simp_all add: new_program_map_reads)
  with loc show ?thesis by blast
qed

text \<open>What is read of a program depends on its tree only.\<close>

lemmas kind_getter_defs =
  xdp_get_priority_def xdp_get_iface_def xdp_get_proceed_on_def xdp_get_current_position_def
  tc_get_priority_def tc_get_iface_def tc_get_proceed_on_def tc_get_current_position_def tc_get_direction_def
  tracepoint_get_tracepoint_def kprobe_get_fn_name_def kprobe_get_offset_def kprobe_get_retprobe_def
  kprobe_get_container_pid_def uprobe_get_fn_name_def uprobe_get_offset_def uprobe_get_retprobe_def
  uprobe_get_container_pid_def uprobe_get_pid_def uprobe_get_target_def fentry_get_fn_name_def fexit_get_fn_name_def

lemma info_cong:
  assumes m: "\<alpha> d t = Some m" "\<alpha> d' t = Some m" and p: "program_get_data p = \<lparr>db_tree = t\<rparr>"
  shows "program_info_try_from H p d' = program_info_try_from H p d"
    and "kernel_program_info_try_from H p d' = kernel_program_info_try_from H p d"
proof -
  have get: "sled_get H t k d' = sled_get H t k d" "sled_get_option H t k d' = sled_get_option H t k d"
    "db_scan_prefix H t k d' = db_scan_prefix H t k d" for k
    using m by (simp_all add: sled_get_def sled_get_option_def scan_Inr)
  have scan: "scan_values H t k msg f d' = scan_values H t k msg f d" "scan_pairs H t k msg g d' = scan_pairs H t k msg g d"
    for k msg and f :: "bytes \<Rightarrow> (bpfman_error, 'x) res" and g :: "bytes \<Rightarrow> (bpfman_error, 'y) res"
    by (simp_all add: scan_values_def scan_pairs_def get)
  note base = pd_getter_defs get_u32_def get_string_def get_bool_def get_opt_def get scan program_data.select_convs
  have loc: "get_location H \<lparr>db_tree = t\<rparr> d' = get_location H \<lparr>db_tree = t\<rparr> d"
    using get_location_cong [of d "\<lparr>db_tree = t\<rparr>" m d' m] m by simp
  have attach: "attach_info_of H p d' = attach_info_of H p d"
    using p by (cases p) (simp_all add: base kind_getter_defs)
  show "program_info_try_from H p d' = program_info_try_from H p d"
    by (simp only: program_info_try_from_def Let_def p loc attach base get_global_data_def get_maps_used_by_def get_metadata_def)
  have kind: "program_kind H p d' = program_kind H p d" using p by (cases p) (simp_all add: base)
  show "kernel_program_info_try_from H p d' = kernel_program_info_try_from H p d"
    by (simp only: kernel_program_info_try_from_def Let_def p kind base get_kernel_map_ids_def)
qed

text \<open>The entries of a request are read back from a tree that holds them.\<close>

lemma request_reads:
  assumes m: "\<alpha> d (db_tree pd) = Some m" and req: "\<forall>k. request_key k \<longrightarrow> m k = new_program_map H r loc name md gd owner k"
    and md: "distinct (map fst md)" "\<forall>(k, v) \<in> set md. is_str k \<and> is_str v"
    and gd: "distinct (map fst gd)" "\<forall>(k, v) \<in> set gd. is_str k"
  shows "get_map_owner_id H pd d = Ok owner"
    and "\<exists>md'. get_metadata H pd d = Ok md' \<and> map_of md' = map_of md"
    and "\<exists>gd'. get_global_data H pd d = Ok gd' \<and> map_of gd' = map_of gd"
proof -
  have "m MAP_OWNER_ID = map_option (ne4 H) owner"
    using req by (simp add: request_key_def new_program_map_reads)
  then show "get_map_owner_id H pd d = Ok owner" using m by (cases owner) (simp_all add: get_owner_ok)
  have str: "is_str k \<and> is_str v" if "map_of md k = Some v" for k v using md(2) map_of_SomeD [OF that] by blast
  have "m (PREFIX_METADATA @ k) = map_option as_bytes (map_of md k)" for k
    using req md(1) by (simp add: request_key_def new_program_map_reads)
  then show "\<exists>md'. get_metadata H pd d = Ok md' \<and> map_of md' = map_of md"
    unfolding get_metadata_def
    by (intro read_hashmap [OF m, where enc = as_bytes]) (simp_all add: str)
  have "m (PREFIX_GLOBAL_DATA @ k) = map_of gd k" for k
    using req gd(1) by (simp add: request_key_def new_program_map_reads)
  then show "\<exists>gd'. get_global_data H pd d = Ok gd' \<and> map_of gd' = map_of gd"
    unfolding get_global_data_def
    by (intro read_hashmap [OF m, where enc = "\<lambda>b. b"]) (use gd(2) in \<open>auto simp: option.map_ident dest: map_of_SomeD\<close>)
qed

text \<open>A lookup of a program the manager has added answers as the load did.\<close>

lemma get_added:
  assumes E: "e_db E' = H" and su: "setup_bpfman E' v = (Ok cfg, v')"
    and b: "built H r src p" and ad: "added H r p owner (T(pre_load_tree r \<mapsto> src)) i (\<alpha> (wdb v))"
    and info: "program_info_try_from H (program_set_data \<lparr>db_tree = prog_tree i\<rparr> p) (wdb v) = Ok info"
    and ker: "kernel_program_info_try_from H (program_set_data \<lparr>db_tree = prog_tree i\<rparr> p) (wdb v) = Ok ker"
  shows "rpc_get E' i v = (Ok \<lparr>pr_info = Some info, pr_kernel_info = Some ker\<rparr>, v'\<lparr>wdb := opened H (prog_tree i) (wdb v)\<rparr>)"
proof -
  let ?p = "program_set_data \<lparr>db_tree = prog_tree i\<rparr> p" and ?d = "opened H (prog_tree i) (wdb v)"
  obtain m where m: "\<alpha> (wdb v) (prog_tree i) = Some m" and wf: "wf_db H (\<alpha> (wdb v))" using ad by (auto simp: added_def)
  then have "prog_ok H i m" by (simp add: wf_db_def)
  from get_by_id_some [OF m this] obtain q where "(get_by_id H i :: ('d, bpfman_error, program option) st) (wdb v) = (Ok (Some q), ?d)" by metis
  with added_found [OF b ad] have get: "(get_by_id H i :: ('d, bpfman_error, program option) st) (wdb v) = (Ok (Some ?p), ?d)" by auto
  have m': "\<alpha> ?d (prog_tree i) = Some m" using abs_opened_old [OF m] m by simp
  have data: "program_get_data ?p = \<lparr>db_tree = prog_tree i\<rparr>" by (cases p) simp_all
  note read = info_cong [OF m m' data] info ker
  have sup: "\<forall>x. ?p \<noteq> Program_Unsupported x"
    using b by (cases p) (auto simp: built_def program_of_kind_def supported_kinds_def split: if_splits)
  have "get_program E' i v = (Ok ?p, v'\<lparr>wdb := ?d\<rparr>)"
    using su get setup_keeps_db [OF su] by (simp add: get_program_def E bind_st_def)
  moreover have "info_reply E' ?p (v'\<lparr>wdb := ?d\<rparr>) = (Ok \<lparr>pr_info = Some info, pr_kernel_info = Some ker\<rparr>, v'\<lparr>wdb := ?d\<rparr>)"
    using read sup by (cases ?p) (simp_all add: info_reply_def kernel_reply_def E bind_st_def map_err_st_def)
  ultimately show ?thesis by (simp add: rpc_get_def bind_st_def map_err_st_def)
qed

end

text \<open>
  C12: what a client loads it gets. When a load request succeeds, the reply names an id that was not in
  use, carries the metadata, the global data and the map owner of the request, and a get request with
  that id, at any later time before the database changes, answers with the very same reply.
  The kernel reports ids that are not in use, the random name of the temporary tree is free, and the
  keys of the two dictionaries are distinct strings.
\<close>

theorem loaded_program_served:
  assumes "store (e_db E) \<alpha>" and "wf_db (e_db E) (\<alpha> (wdb w))" and "\<alpha> (wdb w) (pre_load_tree r) = None"
    and "r \<in> unused (\<alpha> (wdb w))" and "reports (e_aya E) (unused (\<alpha> (wdb w)))" and "\<alpha> tmp (pre_load_tree r) = None"
    and "distinct (map fst (lr_metadata req))" and "\<forall>(k, x) \<in> set (lr_metadata req). is_str k \<and> is_str x"
    and "distinct (map fst (lr_global_data req))" and "\<forall>(k, x) \<in> set (lr_global_data req). is_str k"
    and "rpc_load E (Inr tmp) r req w = (Ok reply, w')"
    and "e_db E' = e_db E" and "wdb v = wdb w'" and "setup_bpfman E' v = (Ok cfg, v')"
  shows "\<exists>info ker v''. reply = \<lparr>pr_info = Some info, pr_kernel_info = Some ker\<rparr> \<and> \<alpha> (wdb w) (prog_tree (ki_id ker)) = None
    \<and> map_of (pi_metadata info) = map_of (lr_metadata req) \<and> map_of (pi_global_data info) = map_of (lr_global_data req)
    \<and> pi_map_owner_id info = lr_map_owner_id req
    \<and> rpc_get E' (ki_id ker) v = (Ok reply, v'') \<and> \<alpha> (wdb v'') = \<alpha> (wdb w')"
proof -
  note st = assms(1)
  let ?H = "e_db E" and ?T = "\<alpha> (wdb w)"
  from assms(11) obtain p d0 p' info ker where req: "request_program ?H (Inr tmp) r req = Ok (p, d0)"
    and add: "add_program E d0 p w = (Ok p', w')"
    and info: "program_info_try_from ?H p' (wdb w') = Ok info" and ker: "kernel_program_info_try_from ?H p' (wdb w') = Ok ker"
    and reply: "reply = \<lparr>pr_info = Some info, pr_kernel_info = Some ker\<rparr>"
    by (auto simp: rpc_load_def kernel_reply_def bind_st_eq_Ok map_err_st_eq_Ok)
  from store.request_built [OF st assms(6) req] obtain loc src where src: "\<alpha> d0 (pre_load_tree r) = Some src" "built ?H r src p"
    "\<forall>k. request_key k \<longrightarrow> src k = new_program_map ?H r loc (lr_name req) (lr_metadata req) (lr_global_data req) (lr_map_owner_id req) k"
    by blast
  from hoareD(1) [OF store.add_program_triple [OF st refl assms(2, 3) src(1, 2) assms(5, 4)] refl add]
  obtain i owner where i: "i \<in> unused ?T" and p': "p' = program_set_data \<lparr>db_tree = prog_tree i\<rparr> p"
    and ad: "added ?H r p owner (?T(pre_load_tree r \<mapsto> src)) i (\<alpha> (wdb w'))" by blast
  obtain m where m: "\<alpha> (wdb w') (prog_tree i) = Some m" "m ID = Some (ne4 ?H i)" "\<And>k. fixed_key k \<Longrightarrow> m k = src k"
    using ad by (auto simp: added_def)
  have data: "program_get_data p' = \<lparr>db_tree = prog_tree i\<rparr>" unfolding p' by (cases p) simp_all
  have mt: "\<alpha> (wdb w') (db_tree \<lparr>db_tree = prog_tree i\<rparr>) = Some m" using m(1) by simp
  have keys: "\<forall>k. request_key k \<longrightarrow> m k = new_program_map ?H r loc (lr_name req) (lr_metadata req) (lr_global_data req) (lr_map_owner_id req) k"
    using m(3) src(3) request_key_fixed by simp
  note reads = store.request_reads [OF st mt keys assms(7-10)]
  have fields: "map_of (pi_metadata info) = map_of (lr_metadata req)" "map_of (pi_global_data info) = map_of (lr_global_data req)"
    "pi_map_owner_id info = lr_map_owner_id req"
    using info reads by (auto simp: program_info_try_from_def Let_def data bind_res_eq_Ok)
  have id: "ki_id ker = i"
    using ker store.get_u32_ok [OF st mt m(2)] by (auto simp: kernel_program_info_try_from_def Let_def data get_id_def bind_res_eq_Ok)
  have get: "rpc_get E' i v = (Ok reply, v'\<lparr>wdb := opened ?H (prog_tree i) (wdb v)\<rparr>)"
    unfolding reply
    by (rule store.get_added [OF st assms(12, 14) src(2)]) (use ad info ker p' assms(13) in simp_all)
  have "\<alpha> (opened ?H (prog_tree i) (wdb v)) = \<alpha> (wdb w')"
    using store.abs_opened_old [OF st, of "wdb v" "prog_tree i" m] m(1) assms(13) by simp
  moreover have "?T (prog_tree i) = None" using i by (simp add: unused_def)
  ultimately show ?thesis using reply fields id get by auto
qed

text \<open>A load request for a tracepoint program that shares the maps of program 3.\<close>

definition demo_load :: load_request where
  "demo_load = \<lparr>lr_bytecode = Some \<lparr>v1_location = Some (V1_File ''/p'')\<rparr>, lr_name = ''enter'', lr_program_type = 5,
     lr_attach = Some \<lparr>ai_info = Some (Info_Tracepoint ''sched/sched_switch'')\<rparr>, lr_metadata = [], lr_global_data = [],
     lr_uuid = None, lr_map_owner_id = Some 3\<rparr>"

definition demo_load_tmp :: ref_db where
  "demo_load_tmp = (case request_program ref_host (Inr []) 7 demo_load of Ok (p, d) \<Rightarrow> d | _ \<Rightarrow> [])"

lemma demo_load_request: "request_program ref_host (Inr []) 7 demo_load = Ok (demo_life_prog, demo_load_tmp)"
  by code_simp

lemma demo_load_copy:
  "program_data_load ref_host demo_load_tmp demo_life_pd demo_life_db = (Ok demo_life_pd, demo_life_copied)"
  by code_simp

lemma demo_load_info:
  "case finish_add demo_life_env demo_life_prog (Some 3) 9 \<lparr>wdb = demo_life_loaded, wfs = f, wkern = ks\<rparr> of
     (Ok p, w) \<Rightarrow> is_ok (program_info_try_from ref_host p (wdb w)) | _ \<Rightarrow> False"
  by code_simp

lemma demo_load_kernel:
  "case finish_add demo_life_env demo_life_prog (Some 3) 9 \<lparr>wdb = demo_life_loaded, wfs = f, wkern = ks\<rparr> of
     (Ok p, w) \<Rightarrow> is_ok (kernel_program_info_try_from ref_host p (wdb w)) | _ \<Rightarrow> False"
  by code_simp

lemma demo_load_run: "\<exists>reply w'. rpc_load demo_life_env (Inr []) 7 demo_load demo_life_world = (Ok reply, w')"
proof -
  obtain g ks p' w' where fin: "finish_add demo_life_env demo_life_prog (Some 3) 9 \<lparr>wdb = demo_life_loaded, wfs = g, wkern = ks\<rparr> = (Ok p', w')"
    and add: "add_program demo_life_env demo_load_tmp demo_life_prog demo_life_world = (Ok p', w')"
    using demo_life_run_from [OF demo_load_copy] by blast
  from fin demo_load_info [of g ks] demo_load_kernel [of g ks] obtain info ker where
    "program_info_try_from ref_host p' (wdb w') = Ok info" "kernel_program_info_try_from ref_host p' (wdb w') = Ok ker"
    by (auto simp: is_ok_iff)
  with add demo_load_request show ?thesis
    by (simp add: rpc_load_def kernel_reply_def demo_life_hyps(1) bind_st_def map_err_st_def)
qed

theorem loaded_program_served_witness:
  "\<exists>reply w' i v v''. rpc_load demo_life_env (Inr []) 7 demo_load demo_life_world = (Ok reply, w')
    \<and> wdb v = wdb w' \<and> rpc_get demo_life_env i v = (Ok reply, v'')"
proof -
  obtain reply w' where run: "rpc_load demo_life_env (Inr []) 7 demo_load demo_life_world = (Ok reply, w')"
    using demo_load_run by blast
  let ?v = "\<lparr>wdb = wdb w', wfs = Map.empty, wkern = []\<rparr>"
  obtain cfg v' where su: "setup_bpfman demo_life_env ?v = (Ok cfg, v')"
    using demo_setup_run [of ?v] by (auto simp: demo_life_setup)
  have w: "wdb demo_life_world = demo_life_db" by (simp add: demo_life_world_def)
  note db = demo_life_hyps(1)
  have "ref_abs [] (pre_load_tree 7) = None" "distinct (map fst (lr_metadata demo_load))" "distinct (map fst (lr_global_data demo_load))"
    "\<forall>(k, x) \<in> set (lr_metadata demo_load). is_str k \<and> is_str x" "\<forall>(k, x) \<in> set (lr_global_data demo_load). is_str k"
    by (simp_all add: ref_abs_def demo_load_def)
  from loaded_program_served [of demo_life_env ref_abs demo_life_world 7 "[]" demo_load reply w' demo_life_env ?v cfg v', unfolded w db,
      OF ref_store demo_life_wf demo_life_hyps(3, 4, 5) this(1, 2, 4, 3, 5) run refl _ su]
  obtain i v'' where "rpc_get demo_life_env i ?v = (Ok reply, v'')" by auto
  with run show ?thesis by (intro exI [of _ reply] exI [of _ w'] exI [of _ i] exI [of _ ?v] exI [of _ v'']) simp
qed

end
