(* ===== verification/Bpfman_Cli.thy ===== *)
theory Bpfman_Cli
  imports Bpfman_Api "HOL-Library.AList"
begin

text \<open>
  The command line of \<open>bpfman/src/bin/cli\<close>: the values of the arguments as \<open>args.rs\<close> declares them
  (splitting the command line itself is clap's), the parsers of single arguments, the commands and
  the tables they print. The hex and base64 codecs are parameters. An error is its text, as
  \<open>anyhow\<close> shows it, and a table is its header with its rows; laying it out is comfy_table's.
\<close>

record cli_lib =
  from_hex :: "string \<Rightarrow> bytes option"
  encode_upper :: "bytes \<Rightarrow> string"
  base64_decode :: "string \<Rightarrow> string + bytes"


subsection \<open>Arguments\<close>

record global_arg =
  ga_name :: string
  ga_value :: bytes

datatype load_commands =
    Load_Xdp string i32 "string list"
  | Load_Tc string string i32 "string list"
  | Load_Tracepoint string
  | Load_Kprobe string "u64 option" bool "i32 option"
  | Load_Uprobe "string option" "u64 option" string bool "i32 option" "i32 option"
  | Load_Fentry string
  | Load_Fexit string

record pull_bytecode_args =
  pa_image_url :: string
  pa_registry_auth :: "string option"
  pa_pull_policy :: string

record load_file_args =
  lf_path :: string
  lf_name :: string
  lf_global :: "global_arg list option"
  lf_metadata :: "(string \<times> string) list option"
  lf_map_owner_id :: "u32 option"
  lf_command :: load_commands

record load_image_args =
  li_pull_args :: pull_bytecode_args
  li_name :: string
  li_global :: "global_arg list option"
  li_metadata :: "(string \<times> string) list option"
  li_map_owner_id :: "u32 option"
  li_command :: load_commands

record list_args =
  la_program_type :: "program_type option"
  la_metadata_selector :: "(string \<times> string) list option"
  la_all :: bool

datatype commands =
    Cmd_Load_File load_file_args
  | Cmd_Load_Image load_image_args
  | Cmd_Unload u32
  | Cmd_List list_args
  | Cmd_Get u32
  | Cmd_Image_Pull pull_bytecode_args

datatype arg_error = InvalidInput

definition parse_key_val :: "string \<Rightarrow> (arg_error, string \<times> string) res" where
  "parse_key_val s = bind_res (ok_or InvalidInput (position (\<lambda>c. c = CHR ''='') s)) (\<lambda>pos.
     Ok (take pos s, drop (pos + 1) s))"

definition parse_global_arg :: "cli_lib \<Rightarrow> string \<Rightarrow> (arg_error, global_arg) res" where
  "parse_global_arg L arg =
     (let parts = split_on (CHR ''='') arg in
     bind_res (ok_or InvalidInput (first parts)) (\<lambda>name.
     bind_res (ok_or InvalidInput (first (drop 1 parts))) (\<lambda>v.
     bind_res (ok_or InvalidInput (from_hex L v)) (\<lambda>value.
     if value = [] then Err InvalidInput else Ok \<lparr>ga_name = name, ga_value = value\<rparr>))))"

text \<open>Collecting pairs into a hash map: the last value of a key stays.\<close>

definition hashmap_of :: "('k \<times> 'v) list \<Rightarrow> ('k, 'v) hashmap" where
  "hashmap_of kvs = foldl (\<lambda>m kv. AList.update (fst kv) (snd kv) m) [] kvs"

definition parse_global :: "global_arg list option \<Rightarrow> (string, bytes) hashmap" where
  "parse_global g = hashmap_of (map (\<lambda>a. (ga_name a, ga_value a)) (case g of None \<Rightarrow> [] | Some gs \<Rightarrow> gs))"

definition pairs_or_default :: "('k \<times> 'v) list option \<Rightarrow> ('k, 'v) hashmap" where
  "pairs_or_default kvs = hashmap_of (case kvs of None \<Rightarrow> [] | Some l \<Rightarrow> l)"


subsection \<open>Programs from commands\<close>

definition anyhow_st :: "('d, bpfman_error, 'a) st \<Rightarrow> ('d, string, 'a) st" where
  "anyhow_st m = map_err_st show_bpfman_error m"

fun cli_get_program :: "'d host \<Rightarrow> load_commands \<Rightarrow> program_data \<Rightarrow> ('d, string, program) st" where
  "cli_get_program H (Load_Xdp iface priority proceed_on) data =
     bind_st (reads (\<lambda>_. map_err (\<lambda>e. ''error parsing proceed_on '' @ show_parse_error e) (xdp_from_strings proceed_on))) (\<lambda>proc_on.
     bind_st (reads (\<lambda>_. map_err show_parse_error (xdp_from_int32s (xdp_as_action_vec proc_on)))) (\<lambda>po.
     bind_st (anyhow_st (xdp_new H data priority iface po)) (\<lambda>p. ret (Program_Xdp p))))"
| "cli_get_program H (Load_Tc direction iface priority proceed_on) data =
     (if direction \<noteq> ''ingress'' \<and> direction \<noteq> ''egress'' then throw (direction @ '' is not a valid direction'') else
     bind_st (reads (\<lambda>_. map_err (\<lambda>e. ''error parsing proceed_on '' @ show_parse_error e) (tc_from_strings proceed_on))) (\<lambda>proc_on.
     bind_st (reads (\<lambda>_. map_err show_parse_error (direction_from_string direction))) (\<lambda>dir.
     bind_st (anyhow_st (tc_new H data priority iface proc_on dir)) (\<lambda>p. ret (Program_Tc p)))))"
| "cli_get_program H (Load_Tracepoint tracepoint) data =
     bind_st (anyhow_st (tracepoint_new H data tracepoint)) (\<lambda>p. ret (Program_Tracepoint p))"
| "cli_get_program H (Load_Kprobe fn_name offset retprobe container_pid) data =
     (if container_pid \<noteq> None then throw ''kprobe container option not supported yet'' else
     bind_st (anyhow_st (kprobe_new H data fn_name (case offset of None \<Rightarrow> 0 | Some n \<Rightarrow> n) retprobe None))
       (\<lambda>p. ret (Program_Kprobe p)))"
| "cli_get_program H (Load_Uprobe fn_name offset target retprobe pid container_pid) data =
     bind_st (anyhow_st (uprobe_new H data fn_name (case offset of None \<Rightarrow> 0 | Some n \<Rightarrow> n) target retprobe pid container_pid))
       (\<lambda>p. ret (Program_Uprobe p))"
| "cli_get_program H (Load_Fentry fn_name) data =
     bind_st (anyhow_st (fentry_new H data fn_name)) (\<lambda>p. ret (Program_Fentry p))"
| "cli_get_program H (Load_Fexit fn_name) data =
     bind_st (anyhow_st (fexit_new H data fn_name)) (\<lambda>p. ret (Program_Fexit p))"

text \<open>\<open>image.rs\<close>: the registry authentication is base64 of user name, colon, password.\<close>

definition split_once :: "char \<Rightarrow> string \<Rightarrow> (string \<times> string) option" where
  "split_once c s = map_option (\<lambda>n. (take n s, drop (n + 1) s)) (position (\<lambda>x. x = c) s)"

definition decode_auth :: "cli_lib \<Rightarrow> string \<Rightarrow> (string, string \<times> string) res" where
  "decode_auth L a =
     bind_res (of_sum (base64_decode L a)) (\<lambda>raw.
     bind_res (if utf8_valid raw then Ok (chars_of raw) else Err ''invalid utf-8 sequence'') (\<lambda>s.
     expect_opt ''unwrap'' (split_once (CHR '':'') s)))"

definition image_of_pull_args :: "cli_lib \<Rightarrow> pull_bytecode_args \<Rightarrow> (string, bytecode_image) res" where
  "image_of_pull_args L a =
     bind_res (map_err show_parse_error (image_pull_policy_from_str (pa_pull_policy a))) (\<lambda>policy.
     bind_res (opt_res (decode_auth L) (pa_registry_auth a)) (\<lambda>auth.
     Ok \<lparr>image_url = pa_image_url a, bi_image_pull_policy = policy,
       username = map_option fst auth, password = map_option snd auth\<rparr>))"


subsection \<open>Tables\<close>

record table =
  header :: "string list"
  rows :: "string list list"

definition show_bool :: "bool \<Rightarrow> string" where
  "show_bool b = (if b then ''true'' else ''false'')"

definition show_u64 :: "u64 \<Rightarrow> string" where
  "show_u64 n = show_nat (unat n)"

definition show_i32 :: "i32 \<Rightarrow> string" where
  "show_i32 n = show_int (sint n)"

text \<open>\<open>{:?}\<close> of a vector of numbers.\<close>

definition debug_u32s :: "u32 list \<Rightarrow> string" where
  "debug_u32s ns = ''['' @ str_join '', '' (map show_u32 ns) @ '']''"

text \<open>Several values under one label, which stands in the first row only.\<close>

definition labelled :: "string \<Rightarrow> string list \<Rightarrow> string list list" where
  "labelled label vs = (case vs of
     [] \<Rightarrow> [[label, ''None'']]
   | v # rest \<Rightarrow> [label, v] # map (\<lambda>r. [[], r]) rest)"

definition location_rows :: "location \<Rightarrow> string list list" where
  "location_rows loc = (case loc of
     Location_Image i \<Rightarrow> [[''Image URL:'', image_url i], [''Pull Policy:'', show_image_pull_policy (bi_image_pull_policy i)]]
   | Location_File p \<Rightarrow> [[''Path:'', p]])"

definition global_text :: "cli_lib \<Rightarrow> string \<times> bytes \<Rightarrow> string" where
  "global_text L kv = fst kv @ ''='' @ encode_upper L (snd kv)"

definition metadata_text :: "string \<times> string \<Rightarrow> string" where
  "metadata_text kv = fst kv @ ''='' @ snd kv"

definition or_none :: "string \<Rightarrow> ('a \<Rightarrow> string) \<Rightarrow> 'a option \<Rightarrow> string" where
  "or_none none f x = (case x of None \<Rightarrow> none | Some a \<Rightarrow> f a)"

definition probe_row :: "bool \<Rightarrow> string list" where
  "probe_row retprobe = [''Probe Type:'', show_probe_type (if retprobe then ProbeType_Kretprobe else ProbeType_Kprobe)]"

fun kind_rows :: "'d host \<Rightarrow> program \<Rightarrow> 'd \<Rightarrow> (bpfman_error, string list list) res" where
  "kind_rows H (Program_Xdp p) d =
     bind_res (xdp_get_priority H p d) (\<lambda>prio.
     bind_res (xdp_get_iface H p d) (\<lambda>iface.
     bind_res (xdp_get_current_position H p d) (\<lambda>pos.
     bind_res (xdp_get_proceed_on H p d) (\<lambda>po.
     Ok [[''Priority:'', show_i32 prio], [''Iface:'', iface], [''Position:'', or_none ''NONE'' show_u64 pos],
       [''Proceed On:'', show_xdp_proceed_on po]]))))"
| "kind_rows H (Program_Tc p) d =
     bind_res (tc_get_priority H p d) (\<lambda>prio.
     bind_res (tc_get_iface H p d) (\<lambda>iface.
     bind_res (tc_get_current_position H p d) (\<lambda>pos.
     bind_res (tc_get_direction H p d) (\<lambda>dir.
     bind_res (tc_get_proceed_on H p d) (\<lambda>po.
     Ok [[''Priority:'', show_i32 prio], [''Iface:'', iface], [''Position:'', or_none ''NONE'' show_u64 pos],
       [''Direction:'', show_direction dir], [''Proceed On:'', show_tc_proceed_on po]])))))"
| "kind_rows H (Program_Tracepoint p) d = ok_map (\<lambda>t. [[''Tracepoint:'', t]]) (tracepoint_get_tracepoint H p d)"
| "kind_rows H (Program_Kprobe p) d =
     bind_res (kprobe_get_retprobe H p d) (\<lambda>r.
     bind_res (kprobe_get_fn_name H p d) (\<lambda>f.
     bind_res (kprobe_get_offset H p d) (\<lambda>off.
     bind_res (kprobe_get_container_pid H p d) (\<lambda>c.
     Ok [probe_row r, [''Function Name:'', f], [''Offset:'', show_u64 off], [''PID:'', or_none ''0'' show_i32 c]]))))"
| "kind_rows H (Program_Uprobe p) d =
     bind_res (uprobe_get_retprobe H p d) (\<lambda>r.
     bind_res (uprobe_get_fn_name H p d) (\<lambda>f.
     bind_res (uprobe_get_offset H p d) (\<lambda>off.
     bind_res (uprobe_get_target H p d) (\<lambda>target.
     bind_res (uprobe_get_pid H p d) (\<lambda>pid.
     bind_res (uprobe_get_container_pid H p d) (\<lambda>c.
     Ok [probe_row r, [''Function Name:'', or_none ''NONE'' (\<lambda>n. n) f], [''Offset:'', show_u64 off],
       [''Target:'', target], [''PID'', or_none ''0'' show_i32 pid], [''Container PID:'', or_none ''0'' show_i32 c]]))))))"
| "kind_rows H (Program_Fentry p) d = ok_map (\<lambda>f. [[''Function Name:'', f]]) (fentry_get_fn_name H p d)"
| "kind_rows H (Program_Fexit p) d = ok_map (\<lambda>f. [[''Function Name:'', f]]) (fexit_get_fn_name H p d)"
| "kind_rows H (Program_Unsupported _) d = Ok [[''Unsupported Program Type'', ''None'']]"

definition new_program :: "cli_lib \<Rightarrow> 'd host \<Rightarrow> program \<Rightarrow> 'd \<Rightarrow> (bpfman_error, table) res" where
  "new_program L H program d =
     (let data = program_get_data program in
     bind_res (get_name H data d) (\<lambda>name.
     bind_res (get_location H data d) (\<lambda>loc.
     bind_res (get_global_data H data d) (\<lambda>global_data.
     bind_res (get_metadata H data d) (\<lambda>metadata.
     bind_res (get_map_pin_path H data d) (\<lambda>path.
     bind_res (get_map_owner_id H data d) (\<lambda>owner.
     bind_res (get_maps_used_by H data d) (\<lambda>used_by.
     bind_res (kind_rows H program d) (\<lambda>own.
     Ok \<lparr>header = [''Bpfman State''],
       rows = [[''Name:'', if name = [] then ''None'' else name]] @ location_rows loc
         @ labelled ''Global:'' (map (global_text L) global_data)
         @ labelled ''Metadata:'' (map metadata_text metadata)
         @ [[''Map Pin Path:'', or_none ''None'' (\<lambda>p. p) path], [''Map Owner ID:'', or_none ''None'' show_u32 owner]]
         @ labelled ''Maps Used By:'' (map show_u32 used_by) @ own\<rparr>)))))))))"

definition new_kernel_info :: "'d host \<Rightarrow> program \<Rightarrow> 'd \<Rightarrow> (bpfman_error, table) res" where
  "new_kernel_info H r d =
     (let p = program_get_data r in
     bind_res (get_kernel_name H p d) (\<lambda>name.
     bind_res (get_id H p d) (\<lambda>i.
     bind_res (program_kind H r d) (\<lambda>kind.
     bind_res (get_kernel_loaded_at H p d) (\<lambda>loaded_at.
     bind_res (get_kernel_tag H p d) (\<lambda>tag.
     bind_res (get_kernel_gpl_compatible H p d) (\<lambda>gpl.
     bind_res (get_kernel_map_ids H p d) (\<lambda>map_ids.
     bind_res (get_kernel_btf_id H p d) (\<lambda>btf_id.
     bind_res (get_kernel_bytes_xlated H p d) (\<lambda>bytes_xlated.
     bind_res (get_kernel_jited H p d) (\<lambda>jited.
     bind_res (get_kernel_bytes_jited H p d) (\<lambda>bytes_jited.
     bind_res (get_kernel_bytes_memlock H p d) (\<lambda>bytes_memlock.
     bind_res (get_kernel_verified_insns H p d) (\<lambda>verified_insns.
     Ok \<lparr>header = [''Kernel State''],
       rows = [[''Program ID:'', show_u32 i], [''Name:'', if name = [] then ''None'' else name],
         [''Type:'', show_program_type kind], [''Loaded At:'', loaded_at], [''Tag:'', tag],
         [''GPL Compatible:'', show_bool gpl], [''Map IDs:'', debug_u32s map_ids], [''BTF ID:'', show_u32 btf_id],
         [''Size Translated (bytes):'', show_u32 bytes_xlated], [''JITted:'', show_bool jited],
         [''Size JITted:'', show_u32 bytes_jited], [''Kernel Allocated Memory (bytes):'', show_u32 bytes_memlock],
         [''Verified Instruction Count:'', show_u32 verified_insns]]\<rparr>))))))))))))))"

definition new_list :: table where
  "new_list = \<lparr>header = [''Program ID'', ''Name'', ''Type'', ''Load Time''], rows = []\<rparr>"

definition add_response_prog :: "'d host \<Rightarrow> program \<Rightarrow> 'd \<Rightarrow> table \<Rightarrow> (bpfman_error, table) res" where
  "add_response_prog H r d t =
     (let data = program_get_data r in
     bind_res (get_id H data d) (\<lambda>i.
     bind_res (get_kernel_name H data d) (\<lambda>name.
     bind_res (program_kind H r d) (\<lambda>kind.
     bind_res (get_kernel_loaded_at H data d) (\<lambda>loaded_at.
     Ok (t\<lparr>rows := rows t @ [[show_u32 i, name, show_program_type kind, loaded_at]]\<rparr>))))))"


subsection \<open>Commands\<close>

text \<open>The world of a command: the manager's, and the tables printed so far.\<close>

record 'd cli_world =
  cw_manager :: "'d kworld"
  cw_out :: "table list"

definition on_manager :: "('d kworld, 'e, 'a) st \<Rightarrow> ('d cli_world, 'e, 'a) st" where
  "on_manager m = zoom cw_manager (\<lambda>w c. c\<lparr>cw_manager := w\<rparr>) m"

definition print_table :: "table \<Rightarrow> ('d cli_world, 'e, unit) st" where
  "print_table t = (\<lambda>c. (Ok (), c\<lparr>cw_out := cw_out c @ [t]\<rparr>))"

definition print_program ::
  "cli_lib \<Rightarrow> ('d, 'sig, 'layer) env \<Rightarrow> program \<Rightarrow> ('d cli_world, bpfman_error, unit) st" where
  "print_program L E program =
     bind_st (on_manager (from_db (new_program L (e_db E) program))) (\<lambda>t.
     then_st (print_table t) (
     bind_st (on_manager (from_db (new_kernel_info (e_db E) program))) print_table))"

definition execute_load ::
  "cli_lib \<Rightarrow> ('d, 'sig, 'layer) env \<Rightarrow> string + 'd \<Rightarrow> u32 \<Rightarrow> location \<Rightarrow> string \<Rightarrow> (string \<times> string) list option \<Rightarrow>
   global_arg list option \<Rightarrow> u32 option \<Rightarrow> load_commands \<Rightarrow> ('d cli_world, string, unit) st" where
  "execute_load L E tmp rnd loc name metadata global owner command =
     bind_st (reads (\<lambda>_. build_in_tmp (program_data_new (e_db E) tmp rnd loc name (pairs_or_default metadata) (parse_global global) owner)
       show_bpfman_error (cli_get_program (e_db E) command))) (\<lambda>(program, d).
     bind_st (on_manager (anyhow_st (add_program E d program))) (\<lambda>program.
     anyhow_st (print_program L E program)))"

definition execute_load_file ::
  "cli_lib \<Rightarrow> ('d, 'sig, 'layer) env \<Rightarrow> string + 'd \<Rightarrow> u32 \<Rightarrow> load_file_args \<Rightarrow> ('d cli_world, string, unit) st" where
  "execute_load_file L E tmp rnd args = execute_load L E tmp rnd (Location_File (lf_path args)) (lf_name args)
     (lf_metadata args) (lf_global args) (lf_map_owner_id args) (lf_command args)"

definition execute_load_image ::
  "cli_lib \<Rightarrow> ('d, 'sig, 'layer) env \<Rightarrow> string + 'd \<Rightarrow> u32 \<Rightarrow> load_image_args \<Rightarrow> ('d cli_world, string, unit) st" where
  "execute_load_image L E tmp rnd args =
     bind_st (reads (\<lambda>_. image_of_pull_args L (li_pull_args args))) (\<lambda>i.
     execute_load L E tmp rnd (Location_Image i) (li_name args) (li_metadata args) (li_global args)
       (li_map_owner_id args) (li_command args))"

text \<open>The tables' errors are \<open>anyhow\<close> errors, which \<open>BpfmanError\<close> takes as \<open>RpcSendError\<close>.\<close>

definition execute_get :: "cli_lib \<Rightarrow> ('d, 'sig, 'layer) env \<Rightarrow> u32 \<Rightarrow> ('d cli_world, bpfman_error, unit) st" where
  "execute_get L E i =
     bind_st (on_manager (get_program E i)) (\<lambda>program.
     map_err_st (\<lambda>e. RpcSendError (show_bpfman_error e)) (print_program L E program))"

fun add_responses :: "'d host \<Rightarrow> program list \<Rightarrow> 'd \<Rightarrow> table \<Rightarrow> (bpfman_error, table) res" where
  "add_responses H [] d t = Ok t"
| "add_responses H (r # rs) d t = bind_res (add_response_prog H r d t) (add_responses H rs d)"

definition execute_list :: "('d, 'sig, 'layer) env \<Rightarrow> list_args \<Rightarrow> ('d cli_world, string, unit) st" where
  "execute_list E args =
     (let lf = \<lparr>lf_program_type = map_option program_type_to_u32 (la_program_type args),
        metadata_selector = pairs_or_default (la_metadata_selector args), bpfman_programs_only = \<not> la_all args\<rparr> in
     bind_st (on_manager (anyhow_st (list_programs E lf))) (\<lambda>rs.
     bind_st (on_manager (anyhow_st (from_db (\<lambda>d. add_responses (e_db E) rs d new_list)))) print_table))"

definition execute_unload :: "('d, 'sig, 'layer) env \<Rightarrow> u32 \<Rightarrow> ('d cli_world, string, unit) st" where
  "execute_unload E i = on_manager (anyhow_st (remove_program E i))"

definition execute_pull :: "cli_lib \<Rightarrow> ('d, 'sig, 'layer) env \<Rightarrow> pull_bytecode_args \<Rightarrow> ('d cli_world, string, unit) st" where
  "execute_pull L E args =
     bind_st (reads (\<lambda>_. image_of_pull_args L args)) (\<lambda>i. on_manager (pull_bytecode E i))"

fun commands_execute ::
  "cli_lib \<Rightarrow> ('d, 'sig, 'layer) env \<Rightarrow> string + 'd \<Rightarrow> u32 \<Rightarrow> commands \<Rightarrow> ('d cli_world, string, unit) st" where
  "commands_execute L E tmp rnd (Cmd_Load_File args) = execute_load_file L E tmp rnd args"
| "commands_execute L E tmp rnd (Cmd_Load_Image args) = execute_load_image L E tmp rnd args"
| "commands_execute L E tmp rnd (Cmd_Unload i) = execute_unload E i"
| "commands_execute L E tmp rnd (Cmd_List args) = execute_list E args"
| "commands_execute L E tmp rnd (Cmd_Get i) = map_err_st (\<lambda>e. ''get error: '' @ show_bpfman_error e) (execute_get L E i)"
| "commands_execute L E tmp rnd (Cmd_Image_Pull args) = execute_pull L E args"


subsection \<open>The command line and the server build the same programs\<close>

text \<open>The attach information a client sends for what a load command asks for.\<close>

fun info_of_command :: "load_commands \<Rightarrow> attach_info option" where
  "info_of_command (Load_Xdp iface priority proceed_on) = (case xdp_from_strings proceed_on of
     Ok po \<Rightarrow> Some (Info_Xdp \<lparr>xa_priority = priority, xa_iface = iface, xa_position = 0, xa_proceed_on = xdp_as_action_vec po\<rparr>)
   | _ \<Rightarrow> None)"
| "info_of_command (Load_Tc direction iface priority proceed_on) = (case tc_from_strings proceed_on of
     Ok po \<Rightarrow> Some (Info_Tc \<lparr>ta_priority = priority, ta_iface = iface, ta_position = 0, ta_direction = direction,
       ta_proceed_on = tc_as_action_vec po\<rparr>)
   | _ \<Rightarrow> None)"
| "info_of_command (Load_Tracepoint tracepoint) = Some (Info_Tracepoint tracepoint)"
| "info_of_command (Load_Kprobe fn_name offset retprobe container_pid) = (if container_pid \<noteq> None then None else
     Some (Info_Kprobe \<lparr>ka_fn_name = fn_name, ka_offset = (case offset of None \<Rightarrow> 0 | Some n \<Rightarrow> n), ka_retprobe = retprobe, ka_container_pid = None\<rparr>))"
| "info_of_command (Load_Uprobe fn_name offset target retprobe pid container_pid) =
     Some (Info_Uprobe \<lparr>ua_fn_name = fn_name, ua_offset = (case offset of None \<Rightarrow> 0 | Some n \<Rightarrow> n), ua_target = target, ua_retprobe = retprobe,
       ua_pid = pid, ua_container_pid = container_pid\<rparr>)"
| "info_of_command (Load_Fentry fn_name) = Some (Info_Fentry fn_name)"
| "info_of_command (Load_Fexit fn_name) = Some (Info_Fexit fn_name)"

fun explicit_verdicts :: "load_commands \<Rightarrow> bool" where
  "explicit_verdicts (Load_Tc direction iface priority proceed_on) = (proceed_on \<noteq> [])"
| "explicit_verdicts _ = True"

lemma collect_res_length: "collect_res rs = Ok xs \<Longrightarrow> length xs = length rs"
  by (induction rs arbitrary: xs) (auto simp: bind_res_eq_Ok ok_map_eq_Ok)

lemma tc_action_vec_round_trip:
  assumes "tc_from_strings vs = Ok xs" and "vs \<noteq> []"
  shows "tc_from_int32s (tc_as_action_vec xs) = Ok xs"
proof -
  have "xs \<noteq> []" using assms collect_res_length by (force simp: tc_from_strings_def)
  then show ?thesis by (simp add: tc_from_int32s_def tc_as_action_vec_def comp_def tc_entry_roundtrip collect_res_map_Ok [where f = "\<lambda>x. x", simplified])
qed

lemma direction_from_string_Ok:
  "direction_from_string s = Ok dir \<Longrightarrow> s = ''ingress'' \<or> s = ''egress''"
  by (auto simp: direction_from_string_def split: if_splits)

lemma created_Ok: "created what mk m d = (Ok p, d') \<longleftrightarrow> (\<exists>a. m d = (Ok a, d') \<and> p = mk a)"
  by (auto simp: created_def bind_st_eq_Ok map_err_st_eq_Ok)

lemma anyhow_Ok: "anyhow_st m d = (Ok a, d') \<longleftrightarrow> m d = (Ok a, d')"
  by (simp add: anyhow_st_def map_err_st_eq_Ok)



subsection \<open>Printed globals are arguments again\<close>

text \<open>The hex crate: upper-case digits, and decoding undoes encoding.\<close>

definition hex_codec :: "cli_lib \<Rightarrow> bool" where
  "hex_codec L \<longleftrightarrow> (\<forall>bs. from_hex L (encode_upper L bs) = Some bs \<and> set (encode_upper L bs) \<subseteq> set ''0123456789ABCDEF'')"

lemma update_fresh: "k \<notin> fst ` set m \<Longrightarrow> AList.update k v m = m @ [(k, v)]"
  by (induction m) auto

lemma hashmap_of_distinct_from:
  "distinct (map fst (m @ kvs)) \<Longrightarrow> foldl (\<lambda>m kv. AList.update (fst kv) (snd kv) m) m kvs = m @ kvs"
  by (induction kvs arbitrary: m) (auto simp: update_fresh)

lemma hashmap_of_distinct: "distinct (map fst kvs) \<Longrightarrow> hashmap_of kvs = kvs"
  using hashmap_of_distinct_from [of "[]" kvs] by (simp add: hashmap_of_def)

lemma parse_global_text:
  assumes "hex_codec L" and "CHR ''='' \<notin> set k" and "v \<noteq> []"
  shows "parse_global_arg L (global_text L (k, v)) = Ok \<lparr>ga_name = k, ga_value = v\<rparr>"
proof -
  have "CHR ''='' \<notin> set (encode_upper L v)" using assms(1) by (force simp: hex_codec_def)
  then have "split_on (CHR ''='') (global_text L (k, v)) = [k, encode_upper L v]"
    using assms(2) by (simp add: global_text_def split_on_append split_on_none)
  then show ?thesis using assms(1, 3) by (simp add: parse_global_arg_def hex_codec_def)
qed

text \<open>
  C35: the globals \<open>bpfman get\<close> shows are \<open>--global\<close> arguments again. When the table of a program is
  printed, its rows under \<open>Global:\<close> are one text per entry of the global data, every text parses as
  an argument, and the arguments together give the global data back; names with an equals sign and
  empty values, which the command line cannot express, aside.
\<close>

theorem printed_globals_parse:
  assumes "hex_codec L" and "new_program L H program d = Ok t"
    and "get_global_data H (program_get_data program) d = Ok gd" and "distinct (map fst gd)"
    and "\<forall>(k, v) \<in> set gd. CHR ''='' \<notin> set k \<and> v \<noteq> []"
  shows "\<exists>pre texts post args. rows t = pre @ labelled ''Global:'' texts @ post \<and> length texts = length gd
    \<and> collect_res (map (parse_global_arg L) texts) = Ok args \<and> parse_global (Some args) = gd"
proof -
  let ?texts = "map (global_text L) gd" and ?args = "map (\<lambda>kv. \<lparr>ga_name = fst kv, ga_value = snd kv\<rparr>) gd"
  have "collect_res (map (parse_global_arg L) ?texts) = Ok ?args"
    unfolding map_map comp_def using assms(5) by (intro collect_res_all_Ok) (auto simp: parse_global_text [OF assms(1)])
  moreover have "parse_global (Some ?args) = gd"
    using assms(4) by (simp add: parse_global_def comp_def hashmap_of_distinct)
  moreover have "\<exists>pre post. rows t = pre @ labelled ''Global:'' ?texts @ post"
    using assms(2, 3) by (auto simp: new_program_def Let_def bind_res_eq_Ok) (metis append_Cons)+
  ultimately show ?thesis
    by (elim exE, intro exI conjI) (assumption | rule length_map)+
qed


text \<open>A concrete codec, and two runs.\<close>

definition hex_digit :: "nat \<Rightarrow> char" where
  "hex_digit n = ''0123456789ABCDEF'' ! n"

fun hex_decode :: "string \<Rightarrow> bytes option" where
  "hex_decode [] = Some []"
| "hex_decode [c] = None"
| "hex_decode (c # c' # cs) =
     Option.bind (position (\<lambda>x. x = c) ''0123456789ABCDEF'') (\<lambda>h.
     Option.bind (position (\<lambda>x. x = c') ''0123456789ABCDEF'') (\<lambda>l.
     map_option (\<lambda>bs. of_nat (16 * h + l) # bs) (hex_decode cs)))"

definition hex_encode :: "bytes \<Rightarrow> string" where
  "hex_encode bs = concat (map (\<lambda>b. [hex_digit (unat b div 16), hex_digit (unat b mod 16)]) bs)"

definition demo_cli_lib :: cli_lib where
  "demo_cli_lib = \<lparr>from_hex = hex_decode, encode_upper = hex_encode, base64_decode = \<lambda>s. Inl ''Invalid padding''\<rparr>"

lemma hex_digit_position: "n < 16 \<Longrightarrow> position (\<lambda>x. x = hex_digit n) ''0123456789ABCDEF'' = Some n"
proof -
  have "list_all (\<lambda>n. position (\<lambda>x. x = hex_digit n) ''0123456789ABCDEF'' = Some n) [0..<16]" by code_simp
  then show "n < 16 \<Longrightarrow> ?thesis" by (simp add: list_all_iff)
qed

lemma demo_hex_codec: "hex_codec demo_cli_lib"
proof -
  have half: "unat b div 16 < 16" "unat b mod 16 < 16" for b :: u8
    using unsigned_less [of b, where 'a = nat] by auto
  have join: "of_nat (16 * (unat b div 16) + unat b mod 16) = b" for b :: u8
    unfolding mult_div_mod_eq by simp
  have "hex_decode (hex_encode bs) = Some bs" for bs
    by (induction bs) (simp_all add: hex_encode_def hex_digit_position half join del: position.simps of_nat_add of_nat_mult)
  moreover have "set (hex_encode bs) \<subseteq> set ''0123456789ABCDEF''" for bs
  proof -
    define D where "D = set ''0123456789ABCDEF''"
    have "hex_digit n \<in> D" if "n < 16" for n
      unfolding hex_digit_def D_def using that by (intro nth_mem) simp
    then have "set (hex_encode bs) \<subseteq> D" using half by (auto simp: hex_encode_def)
    then show ?thesis by (simp only: D_def)
  qed
  ultimately show ?thesis by (simp add: hex_codec_def demo_cli_lib_def)
qed

definition demo_global_db :: ref_db where
  "demo_global_db = [(''t'', [(NAME, as_bytes ''pass''), (LOCATION_FILENAME, as_bytes ''/x.o''),
     (PREFIX_GLOBAL_DATA @ ''GLOBAL_u8'', [1]), (PREFIX_GLOBAL_DATA @ ''GLOBAL_u32'', [0x0A, 0x0B, 0x0C, 0x0D]),
     (TRACEPOINT_NAME, as_bytes ''sched/sched_switch'')])]"


abbreviation demo_t_prog :: program where
  "demo_t_prog \<equiv> Program_Tracepoint \<lparr>tracepoint_data = \<lparr>db_tree = ''t''\<rparr>\<rparr>"

lemma demo_global_data:
  "get_global_data ref_host \<lparr>db_tree = ''t''\<rparr> demo_global_db
     = (Ok [(''GLOBAL_u32'', [0x0A, 0x0B, 0x0C, 0x0D]), (''GLOBAL_u8'', [1])] :: (bpfman_error, (string, bytes) hashmap) res)"
  by code_simp

lemma demo_global_rest:
  "is_ok (get_name ref_host \<lparr>db_tree = ''t''\<rparr> demo_global_db)" "is_ok (get_location ref_host \<lparr>db_tree = ''t''\<rparr> demo_global_db)"
  "is_ok (get_metadata ref_host \<lparr>db_tree = ''t''\<rparr> demo_global_db)" "is_ok (get_map_pin_path ref_host \<lparr>db_tree = ''t''\<rparr> demo_global_db)"
  "is_ok (get_map_owner_id ref_host \<lparr>db_tree = ''t''\<rparr> demo_global_db)" "is_ok (get_maps_used_by ref_host \<lparr>db_tree = ''t''\<rparr> demo_global_db)"
  "is_ok (kind_rows ref_host demo_t_prog demo_global_db)"
  by code_simp+

lemma is_ok_bind: "is_ok r \<Longrightarrow> (\<And>a. r = Ok a \<Longrightarrow> is_ok (f a)) \<Longrightarrow> is_ok (bind_res r f)"
  by (cases r) simp_all

lemma demo_global_table: "is_ok (new_program demo_cli_lib ref_host demo_t_prog demo_global_db)"
  unfolding new_program_def Let_def
  by (intro is_ok_bind) (simp_all add: demo_global_rest demo_global_data del: kind_rows.simps)

theorem printed_globals_parse_witness:
  "\<exists>t pre texts post args. new_program demo_cli_lib ref_host demo_t_prog demo_global_db = Ok t
    \<and> rows t = pre @ labelled ''Global:'' texts @ post
    \<and> collect_res (map (parse_global_arg demo_cli_lib) texts) = Ok args
    \<and> parse_global (Some args) = [(''GLOBAL_u32'', [0x0A, 0x0B, 0x0C, 0x0D]), (''GLOBAL_u8'', [1])]"
proof -
  obtain t where t: "new_program demo_cli_lib ref_host demo_t_prog demo_global_db = Ok t"
    using is_ok_ex [OF demo_global_table] by blast
  from printed_globals_parse [OF demo_hex_codec t] demo_global_data
  have "\<exists>pre texts post args. rows t = pre @ labelled ''Global:'' texts @ post
    \<and> collect_res (map (parse_global_arg demo_cli_lib) texts) = Ok args
    \<and> parse_global (Some args) = [(''GLOBAL_u32'', [0x0A, 0x0B, 0x0C, 0x0D]), (''GLOBAL_u8'', [1])]"
    by fastforce
  with t show ?thesis by blast
qed


end
