(* ===== verification/Bpfman_Ns.thy ===== *)
theory Bpfman_Ns
  imports Aya_Kernel
begin

text \<open>
  The helper \<open>bpfman-ns/src/main.rs\<close>, which the manager starts to attach a uprobe inside a
  container. Its system calls (opening namespace files, \<open>setns\<close>, aya) are events of a log with the
  outcomes of the parameter \<open>ns_host\<close>. The namespace the process is in is the last one it entered.
\<close>

record uprobe_args =
  un_program_pin_path :: string
  un_fn_name :: "string option"
  un_offset :: u64
  un_target :: string
  un_retprobe :: bool
  un_pid :: "i32 option"
  un_container_pid :: i32

datatype ns_call =
    Ns_Open string
  | Ns_From_Pin string probe_kind
  | Ns_Setns string
  | Ns_Attach "string option" u64 string "i32 option"
  | Ns_Take_Link nat
  | Ns_Into_Fd_Link
  | Ns_Pin_Link string

record ns_host =
  n_unit :: "ns_call list \<Rightarrow> ns_call \<Rightarrow> string + unit"
  n_link :: "ns_call list \<Rightarrow> ns_call \<Rightarrow> string + nat"
  n_flags :: string

definition ns_call :: "(ns_call list \<Rightarrow> ns_call \<Rightarrow> string + 'a) \<Rightarrow> ns_call \<Rightarrow> (ns_call list, string, 'a) st" where
  "ns_call reply c l = (of_sum (reply l c), l @ [c])"

definition mnt_file :: "string \<Rightarrow> string \<Rightarrow> string" where
  "mnt_file root pid = root @ pid @ ''/ns/mnt''"

text \<open>The file, which names the namespace entered, and the process id of the error text.\<close>

definition set_ns :: "ns_host \<Rightarrow> string \<Rightarrow> u32 \<Rightarrow> (ns_call list, string, unit) st" where
  "set_ns N file pid = map_err_st (\<lambda>e. ''error setting ns to PID '' @ show_u32 pid @ '' '' @ n_flags N @ '' namespace. error: '' @ e)
     (ns_call (n_unit N) (Ns_Setns file))"

definition open_target :: "ns_host \<Rightarrow> i32 \<Rightarrow> (ns_call list, string, string) st" where
  "open_target N pid l =
     (let p = mnt_file ''/proc/'' (show_int (sint pid)); q = mnt_file ''/host/proc/'' (show_int (sint pid)) in
     case ns_call (n_unit N) (Ns_Open p) l of
       (Ok _, l') \<Rightarrow> (Ok p, l')
     | (Err _, l') \<Rightarrow> then_st (map_err_st (\<lambda>e. ''error opening target file: '' @ e) (ns_call (n_unit N) (Ns_Open q))) (ret q) l'
     | (Panic e, l') \<Rightarrow> (Panic e, l'))"

definition execute_uprobe_attach :: "ns_host \<Rightarrow> uprobe_args \<Rightarrow> u32 \<Rightarrow> (ns_call list, string, unit) st" where
  "execute_uprobe_attach N args bpfman_pid =
     (let bpfman_mnt = mnt_file ''/proc/'' (show_u32 bpfman_pid) in
     then_st (map_err_st (\<lambda>e. ''error opening bpfman file: '' @ e) (ns_call (n_unit N) (Ns_Open bpfman_mnt))) (
     bind_st (open_target N (un_container_pid args)) (\<lambda>target_mnt.
     then_st (map_err_st (\<lambda>_. ''failed to get UProbe from pin file'')
       (ns_call (n_unit N) (Ns_From_Pin (un_program_pin_path args) UProbe_K))) (
     then_st (set_ns N target_mnt (un_container_pid args)) (
     bind_st (map_err_st (\<lambda>e. ''error attaching uprobe: '' @ e)
       (ns_call (n_link N) (Ns_Attach (un_fn_name args) (un_offset args) (un_target args) (un_pid args)))) (\<lambda>link_id.
     then_st (set_ns N bpfman_mnt bpfman_pid) (
     then_st (expect_st ''take_link failed for uprobe'' (ns_call (n_unit N) (Ns_Take_Link link_id))) (
     then_st (expect_st ''unable to get owned uprobe attach link'' (ns_call (n_unit N) Ns_Into_Fd_Link)) (
     ns_call (n_unit N) (Ns_Pin_Link (un_program_pin_path args @ ''_link'')))))))))))"


subsection \<open>Where the helper acts\<close>

text \<open>The namespace files entered, latest first, at every call of a log.\<close>

fun entered :: "string option \<Rightarrow> ns_call list \<Rightarrow> (ns_call \<times> string option) list" where
  "entered ns [] = []"
| "entered ns (Ns_Setns f # cs) = (Ns_Setns f, ns) # entered (Some f) cs"
| "entered ns (c # cs) = (c, ns) # entered ns cs"

lemma ns_call_Ok: "ns_call reply c l = (Ok a, l') \<longleftrightarrow> reply l c = Inr a \<and> l' = l @ [c]"
  by (auto simp: ns_call_def)

lemma open_target_Ok:
  assumes "open_target N pid l = (Ok f, l')"
  shows "\<exists>opens. l' = l @ opens \<and> (let p = mnt_file ''/proc/'' (show_int (sint pid)); q = mnt_file ''/host/proc/'' (show_int (sint pid)) in
    f = p \<and> opens = [Ns_Open p] \<or> f = q \<and> opens = [Ns_Open p, Ns_Open q])"
  using assms
  by (auto simp: open_target_def Let_def then_st_eq_Ok map_err_st_eq_Ok ns_call_Ok split: prod.splits res.splits)
    (auto simp: ns_call_def)

text \<open>
  C32: a run of the helper that succeeds attached the requested function at the requested offset inside
  the namespace of the container, and pinned the link next to the program's pin back in its own
  namespace, whatever happened before; and no run depends on whether a return probe was asked for,
  so the argument has no effect.
\<close>

theorem uprobe_attached_in_container:
  assumes "execute_uprobe_attach N args pid l = (Ok (), l')"
  shows "\<exists>target opens h. let own = mnt_file ''/proc/'' (show_u32 pid) in
      target \<in> {mnt_file ''/proc/'' (show_int (sint (un_container_pid args))), mnt_file ''/host/proc/'' (show_int (sint (un_container_pid args)))}
    \<and> l' = l @ opens @ [Ns_From_Pin (un_program_pin_path args) UProbe_K, Ns_Setns target,
        Ns_Attach (un_fn_name args) (un_offset args) (un_target args) (un_pid args), Ns_Setns own,
        Ns_Take_Link h, Ns_Into_Fd_Link, Ns_Pin_Link (un_program_pin_path args @ ''_link'')]
    \<and> (Ns_Attach (un_fn_name args) (un_offset args) (un_target args) (un_pid args), Some target) \<in> set (entered None (drop (length l) l'))
    \<and> (Ns_Pin_Link (un_program_pin_path args @ ''_link''), Some own) \<in> set (entered None (drop (length l) l'))
    \<and> (\<forall>r. execute_uprobe_attach N (args\<lparr>un_retprobe := r\<rparr>) pid l = (Ok (), l'))"
proof -
  have same: "execute_uprobe_attach N (args\<lparr>un_retprobe := r\<rparr>) pid = execute_uprobe_attach N args pid" for r
    by (simp add: execute_uprobe_attach_def)
  from assms obtain target l1 h where run: "open_target N (un_container_pid args) (l @ [Ns_Open (mnt_file ''/proc/'' (show_u32 pid))]) = (Ok target, l1)"
    "l' = l1 @ [Ns_From_Pin (un_program_pin_path args) UProbe_K, Ns_Setns target,
        Ns_Attach (un_fn_name args) (un_offset args) (un_target args) (un_pid args), Ns_Setns (mnt_file ''/proc/'' (show_u32 pid)),
        Ns_Take_Link h, Ns_Into_Fd_Link, Ns_Pin_Link (un_program_pin_path args @ ''_link'')]"
    by (auto simp: execute_uprobe_attach_def Let_def set_ns_def then_st_eq_Ok bind_st_eq_Ok map_err_st_eq_Ok expect_st_eq_Ok ns_call_Ok)
  from open_target_Ok [OF run(1)] show ?thesis
    unfolding Let_def same run(2)
    by (elim exE conjE disjE) (use assms run in \<open>auto intro!: exI [of _ h]\<close>)
qed

definition demo_ns :: ns_host where
  "demo_ns = \<lparr>n_unit = \<lambda>l c. case c of Ns_Open f \<Rightarrow> if f = ''/proc/42/ns/mnt'' then Inl ''No such file or directory (os error 2)'' else Inr ()
     | _ \<Rightarrow> Inr (), n_link = \<lambda>l c. Inr 3, n_flags = ''CLONE_NEWNS''\<rparr>"

definition demo_uprobe_args :: uprobe_args where
  "demo_uprobe_args = \<lparr>un_program_pin_path = ''/run/bpfman/fs/prog_7'', un_fn_name = Some ''malloc'', un_offset = 0, un_target = ''libc'',
     un_retprobe = True, un_pid = None, un_container_pid = 42\<rparr>"

lemma demo_ns_run: "is_ok (fst (execute_uprobe_attach demo_ns demo_uprobe_args 7 []))"
  by code_simp

theorem uprobe_attached_in_container_witness:
  "\<exists>l' target. execute_uprobe_attach demo_ns demo_uprobe_args 7 [] = (Ok (), l')
    \<and> (Ns_Attach (Some ''malloc'') 0 ''libc'' None, Some target) \<in> set (entered None l')"
proof -
  obtain l' where run: "execute_uprobe_attach demo_ns demo_uprobe_args 7 [] = (Ok (), l')"
    using is_ok_run [OF demo_ns_run] by auto
  from uprobe_attached_in_container [OF run] run show ?thesis
    by (auto simp: Let_def demo_uprobe_args_def)
qed

end
