(* ===== verification/Csi_Storage.thy ===== *)
theory Csi_Storage
  imports Manager_Behaviour
begin

text \<open>
  The CSI plugin of \<open>bpfman-api/src/bin/rpc/storage.rs\<close>, which publishes the maps of a loaded
  program to a container as a volume, with the part of \<open>serve.rs\<close> and \<open>main.rs\<close> that prepares
  sockets and directories. Changing an owner, opening a pinned map, pinning it, mounting and
  unmounting are calls of a log with the outcomes of the parameter \<open>csi_host\<close>; a mount gives the
  file system that is visible afterwards. The generated messages are those of \<open>csi.v1.rs\<close>.
\<close>


subsection \<open>Messages\<close>

record mount_volume =
  mv_fs_type :: string
  mv_mount_flags :: "string list"
  mv_volume_mount_group :: string

datatype access_type = Access_Block | Access_Mount mount_volume

record volume_capability =
  vc_access_mode :: "i32 option"
  vc_access_type :: "access_type option"

record node_publish_volume_request =
  np_volume_id :: string
  np_publish_context :: "(string, string) hashmap"
  np_staging_target_path :: string
  np_target_path :: string
  np_volume_capability :: "volume_capability option"
  np_readonly :: bool
  np_secrets :: "(string, string) hashmap"
  np_volume_context :: "(string, string) hashmap"

record node_unpublish_volume_request =
  nu_volume_id :: string
  nu_target_path :: string

text \<open>A gRPC status: its code and its message.\<close>

datatype csi_status = Csi_Status nat string

abbreviation NPV_NOT_FOUND :: nat where "NPV_NOT_FOUND \<equiv> 5"
abbreviation DRIVER_NAME :: string where "DRIVER_NAME \<equiv> ''csi.bpfman.io''"
abbreviation MAPS_KEY :: string where "MAPS_KEY \<equiv> ''csi.bpfman.io/maps''"
abbreviation PROGRAM_KEY :: string where "PROGRAM_KEY \<equiv> ''csi.bpfman.io/program''"
abbreviation OPERATOR_PROGRAM_KEY :: string where "OPERATOR_PROGRAM_KEY \<equiv> ''bpfman.io/ProgramName''"
abbreviation RTPATH_BPFMAN_CSI_SOCKET :: string where "RTPATH_BPFMAN_CSI_SOCKET \<equiv> ''/run/bpfman/csi/csi.sock''"
abbreviation RTDIR_BPFMAN_CSI_FS :: string where "RTDIR_BPFMAN_CSI_FS \<equiv> ''/run/bpfman/csi/fs''"
abbreviation OWNER_READ_WRITE :: u32 where "OWNER_READ_WRITE \<equiv> 0x1E8"
abbreviation SOCK_MODE :: u32 where "SOCK_MODE \<equiv> 0x1B0"


subsection \<open>Calls\<close>

datatype csi_call =
    C_Chown string "u32 option"
  | C_Map_From_Pin string
  | C_Map_Pin nat string
  | C_Bind_Mount string string
  | C_Umount string

record csi_host =
  c_unit :: "csi_call list \<Rightarrow> csi_call \<Rightarrow> string + unit"
  c_map :: "csi_call list \<Rightarrow> string \<Rightarrow> string + nat"
  c_pin :: "csi_call list \<Rightarrow> fs \<Rightarrow> csi_call \<Rightarrow> string + fs_node"
  c_mount :: "csi_call list \<Rightarrow> fs \<Rightarrow> csi_call \<Rightarrow> string + fs"
  c_bind :: "string \<Rightarrow> fs \<Rightarrow> string + fs"
  c_io_status :: "string \<Rightarrow> csi_status"
  c_debug :: "string \<Rightarrow> string"

record 'd csi_world =
  cs_manager :: "'d kworld"
  cs_calls :: "csi_call list"

abbreviation cs_fs :: "'d csi_world \<Rightarrow> fs" where "cs_fs w \<equiv> wfs (cs_manager w)"

definition on_kworld :: "('d kworld, 'e, 'a) st \<Rightarrow> ('d csi_world, 'e, 'a) st" where
  "on_kworld m = zoom cs_manager (\<lambda>v w. w\<lparr>cs_manager := v\<rparr>) m"

definition on_files :: "(fs, 'e, 'a) st \<Rightarrow> ('d csi_world, 'e, 'a) st" where
  "on_files m = on_kworld (on_fs m)"

definition c_call :: "(csi_call list \<Rightarrow> string + 'a) \<Rightarrow> csi_call \<Rightarrow> ('d csi_world, string, 'a) st" where
  "c_call reply c w = (of_sum (reply (cs_calls w)), w\<lparr>cs_calls := cs_calls w @ [c]\<rparr>)"

text \<open>A call that changes the file system when it succeeds.\<close>

definition c_change :: "(csi_call list \<Rightarrow> fs \<Rightarrow> string + fs) \<Rightarrow> csi_call \<Rightarrow> ('d csi_world, string, unit) st" where
  "c_change reply c w = (case reply (cs_calls w) (cs_fs w) of
     Inl e \<Rightarrow> (Err e, w\<lparr>cs_calls := cs_calls w @ [c]\<rparr>)
   | Inr f \<Rightarrow> (Ok (), w\<lparr>cs_manager := (cs_manager w)\<lparr>wfs := f\<rparr>, cs_calls := cs_calls w @ [c]\<rparr>))"

definition set_file_permissions :: "io_fault \<Rightarrow> string \<Rightarrow> u32 \<Rightarrow> (fs, 'e, unit) st" where
  "set_file_permissions F p mode f = (Ok (), if F ''set_permissions'' p = None
     then f(p := map_option (with_mode mode) (f p)) else f)"

text \<open>\<open>Path::join\<close>: an absolute second path replaces the first.\<close>

definition path_join :: "string \<Rightarrow> string \<Rightarrow> string" where
  "path_join dir p = (if prefix ''/'' p then p else if dir = [] \<or> last dir = CHR ''/'' then dir @ p else dir @ ''/'' @ p)"

definition unmount :: "csi_host \<Rightarrow> string \<Rightarrow> ('d csi_world, string, unit) st" where
  "unmount C directory = map_err_st (\<lambda>_. ''unable to unmount fs at '' @ directory)
     (c_change (\<lambda>l f. c_mount C l f (C_Umount directory)) (C_Umount directory))"

definition mount_fs_in_container :: "csi_host \<Rightarrow> string \<Rightarrow> string \<Rightarrow> ('d csi_world, string, unit) st" where
  "mount_fs_in_container C path target_path =
     map_err_st (\<lambda>_. ''unable to mount bpffs '' @ path @ '' in container at '' @ target_path)
     (c_change (\<lambda>l f. c_mount C l f (C_Bind_Mount path target_path)) (C_Bind_Mount path target_path))"


subsection \<open>Publishing and unpublishing\<close>

definition not_found :: "string \<Rightarrow> csi_status" where
  "not_found msg = Csi_Status NPV_NOT_FOUND msg"

definition fs_group_of :: "node_publish_volume_request \<Rightarrow> string option" where
  "fs_group_of req = Option.bind (np_volume_capability req) (\<lambda>c. Option.bind (vc_access_type c) (\<lambda>t. case t of
     Access_Mount v \<Rightarrow> Some (mv_volume_mount_group v) | Access_Block \<Rightarrow> None))"

definition list_filter_default :: list_filter where
  "list_filter_default = \<lparr>lf_program_type = None, metadata_selector = [], bpfman_programs_only = False\<rparr>"

text \<open>The first program whose metadata names the requested one.\<close>

fun find_named :: "'d host \<Rightarrow> string \<Rightarrow> program list \<Rightarrow> 'd \<Rightarrow> ('e, program option) res" where
  "find_named H program_name [] d = Ok None"
| "find_named H program_name (p # ps) d =
     bind_res (expect_res ''unable to get program metadata'' (get_metadata H (program_get_data p) d)) (\<lambda>metadata.
     if map_of metadata OPERATOR_PROGRAM_KEY = Some program_name then Ok (Some p) else find_named H program_name ps d)"

definition chown_group :: "csi_host \<Rightarrow> string option \<Rightarrow> string \<Rightarrow> ('d csi_world, csi_status, unit) st" where
  "chown_group C fs_group path = (case fs_group of None \<Rightarrow> ret ()
   | Some g \<Rightarrow> map_err_st (c_io_status C) (c_call (\<lambda>l. c_unit C l (C_Chown path (parse_u32 g))) (C_Chown path (parse_u32 g))))"

definition repin_map ::
  "csi_host \<Rightarrow> io_fault \<Rightarrow> string option \<Rightarrow> string \<Rightarrow> string \<Rightarrow> string \<Rightarrow> string \<Rightarrow> ('d csi_world, csi_status, unit) st" where
  "repin_map C F fs_group program_name core_map_path path m =
     (let src = path_join core_map_path m; map_path = path_join path m in
     bind_st (map_err_st (\<lambda>e. not_found (''map '' @ m @ '' not found in '' @ program_name @ [CHR 0x27] @ ''s pinned maps: '' @ e))
       (c_call (\<lambda>l. c_map C l src) (C_Map_From_Pin src))) (\<lambda>h.
     then_st (map_err_st (\<lambda>e. not_found (''failed re-pinning map '' @ m @ '' for '' @ program_name @ [CHR 0x27] @ ''s bpf-fs: '' @ e))
       (c_change (\<lambda>l f. map_sum id (\<lambda>n. f(map_path \<mapsto> n)) (c_pin C l f (C_Map_Pin h map_path))) (C_Map_Pin h map_path))) (
     then_st (chown_group C fs_group map_path) (
     if fs_group = None then ret () else on_files (set_file_permissions F map_path SOCK_MODE)))))"

definition publish_maps ::
  "('d, 'sig, 'layer) env \<Rightarrow> csi_host \<Rightarrow> node_publish_volume_request \<Rightarrow> string list \<Rightarrow> string \<Rightarrow> string \<Rightarrow>
   ('d csi_world, csi_status, unit) st" where
  "publish_maps E C req maps program_name core_map_path =
     (let target_path = np_target_path req; path = path_join RTDIR_BPFMAN_CSI_FS (np_volume_id req) in
     bind_st (reads (\<lambda>w. Ok (path_exists (cs_fs w) target_path))) (\<lambda>target_exists.
     then_st (if target_exists then ret () else
       then_st (map_err_st (\<lambda>e. not_found (''failed creating target path '' @ c_debug C target_path @ '': '' @ e))
         (on_files (create_dir_all (e_fault E) target_path)))
       (on_files (set_dir_permissions (e_fault E) target_path OWNER_READ_WRITE))) (
     then_st (map_err_st (c_io_status C) (on_files (create_dir_all (e_fault E) path))) (
     then_st (map_err_st (\<lambda>e. not_found (''failed creating bpf-fs for pod '' @ np_volume_id req @ '': '' @ e))
       (on_files (create_bpffs (e_start E) path))) (
     then_st (chown_group C (fs_group_of req) path) (
     then_st (try_for_each (repin_map C (e_fault E) (fs_group_of req) program_name core_map_path path) maps) (
     map_err_st (\<lambda>e. not_found (''failed mounting bpffs '' @ c_debug C path @ '' to container '' @ target_path @ '': '' @ e))
       (mount_fs_in_container C path target_path))))))))"

definition map_path_of :: "'d host \<Rightarrow> program \<Rightarrow> 'd \<Rightarrow> (csi_status, string) res" where
  "map_path_of H p d =
     bind_res (map_err (\<lambda>e. Csi_Status 10 (''failed to get map_pin_path: '' @ show_bpfman_error e))
       (get_map_pin_path H (program_get_data p) d)) (\<lambda>path.
     expect_opt ''map pin path should be set since the program is already loaded'' path)"

definition node_publish_volume ::
  "('d, 'sig, 'layer) env \<Rightarrow> csi_host \<Rightarrow> node_publish_volume_request \<Rightarrow> ('d csi_world, csi_status, unit) st" where
  "node_publish_volume E C req =
     (case (map_of (np_volume_context req) MAPS_KEY, map_of (np_volume_context req) PROGRAM_KEY) of
       (Some m, Some program_name) \<Rightarrow>
         bind_st (map_err_st (\<lambda>e. Csi_Status 10 (''failed list programs: '' @ show_bpfman_error e))
           (on_kworld (list_programs E list_filter_default))) (\<lambda>programs.
         bind_st (on_kworld (from_db (find_named (e_db E) program_name programs))) (\<lambda>found.
         bind_st (reads (\<lambda>_. ok_or (not_found (''Bpfman Program '' @ program_name @ '' not found'')) found)) (\<lambda>prog_data.
         bind_st (on_kworld (from_db (map_path_of (e_db E) prog_data))) (\<lambda>core_map_path.
         publish_maps E C req (split_on (CHR '','') m) program_name core_map_path))))
     | (None, Some program) \<Rightarrow> throw (not_found (''No '' @ MAPS_KEY @ '' set in volume context from '' @ program))
     | (Some m, None) \<Rightarrow> throw (not_found (''No '' @ PROGRAM_KEY @ '' set in volume context in for requested maps '' @ m))
     | (None, None) \<Rightarrow> throw (not_found (''No '' @ MAPS_KEY @ '' or '' @ PROGRAM_KEY @ '' set in volume context'')))"

definition node_unpublish_volume ::
  "io_fault \<Rightarrow> csi_host \<Rightarrow> node_unpublish_volume_request \<Rightarrow> ('d csi_world, csi_status, unit) st" where
  "node_unpublish_volume F C req =
     (let path = path_join RTDIR_BPFMAN_CSI_FS (nu_volume_id req) in
     then_st (map_err_st (\<lambda>e. Csi_Status 5 (''Failed to unmount bpffs from container at '' @ nu_target_path req @ '': '' @ e))
       (unmount C (nu_target_path req))) (
     then_st (map_err_st (\<lambda>e. Csi_Status 5 (''Failed to unmount bpffs at '' @ c_debug C path @ '': '' @ e)) (unmount C path)) (
     bind_st (reads (\<lambda>w. Ok (path_exists (cs_fs w) path))) (\<lambda>there.
     if there then map_err_st (\<lambda>e. Csi_Status 5 (''Failed to remove bpffs at '' @ c_debug C path @ '': '' @ e))
       (on_files (remove_dir_all F path)) else ret ()))))"


subsection \<open>The services\<close>

record csi_identity =
  ci_name :: string
  ci_version :: string

record csi_node =
  cn_node_id :: string

record storage_manager =
  sm_identity :: csi_identity
  sm_node :: csi_node

record plugin_info =
  pl_name :: string
  pl_vendor_version :: string
  pl_manifest :: "(string, string) hashmap"

record node_info =
  ni_node_id :: string
  ni_max_volumes_per_node :: "64 word"
  ni_accessible_topology :: "(string, string) hashmap option"

definition get_plugin_info :: "csi_identity \<Rightarrow> (csi_status, plugin_info) res" where
  "get_plugin_info i = Ok \<lparr>pl_name = ci_name i, pl_vendor_version = ci_version i, pl_manifest = []\<rparr>"

text \<open>Staging, unstaging, statistics and expansion have one answer.\<close>

definition unimplemented :: "(csi_status, 'a) res" where
  "unimplemented = Err (Csi_Status 12 [])"

text \<open>One capability, the RPC type \<open>VolumeMountGroup\<close>.\<close>

definition node_get_capabilities :: "(csi_status, i32 list) res" where
  "node_get_capabilities = Ok [6]"

definition node_get_info :: "csi_node \<Rightarrow> (csi_status, node_info) res" where
  "node_get_info n = Ok \<lparr>ni_node_id = cn_node_id n, ni_max_volumes_per_node = 0, ni_accessible_topology = None\<rparr>"

definition storage_manager_new :: "string \<Rightarrow> string option \<Rightarrow> ('e, storage_manager) res" where
  "storage_manager_new version kube_node_name =
     bind_res (expect_opt ''cannot start bpfman csi driver if KUBE_NODE_NAME not set'' kube_node_name) (\<lambda>node_id.
     Ok \<lparr>sm_identity = \<lparr>ci_name = DRIVER_NAME, ci_version = version\<rparr>, sm_node = \<lparr>cn_node_id = node_id\<rparr>\<rparr>)"

definition bind_socket :: "csi_host \<Rightarrow> string \<Rightarrow> (fs, string, unit) st" where
  "bind_socket C path f = (case c_bind C path f of Inl e \<Rightarrow> (Err e, f) | Inr f' \<Rightarrow> (Ok (), f'))"

text \<open>\<open>serve.rs\<close>: a stale socket is removed, the new one gets its mode.\<close>

definition std_unix_stream :: "csi_host \<Rightarrow> io_fault \<Rightarrow> string \<Rightarrow> (fs, string, unit) st" where
  "std_unix_stream C F path =
     then_st (remove_if_exists F path) (
     then_st (bind_socket C path)
       (set_file_permissions F path SOCK_MODE))"

definition storage_manager_run :: "csi_host \<Rightarrow> io_fault \<Rightarrow> (fs, 'e, unit) st" where
  "storage_manager_run C F =
     then_st (expect_st ''cannot create csi filesystem'' (create_dir_all F RTDIR_BPFMAN_CSI_FS)) (
     then_st (expect_st ''Panicked cleaning up stale csi socket'' (remove_if_exists F RTPATH_BPFMAN_CSI_SOCKET)) (
     then_st (expect_st (''failed to bind '' @ RTPATH_BPFMAN_CSI_SOCKET) (bind_socket C RTPATH_BPFMAN_CSI_SOCKET))
       (set_file_permissions F RTPATH_BPFMAN_CSI_SOCKET SOCK_MODE)))"

text \<open>\<open>main.rs\<close>, logging aside.\<close>

definition initialize_rpc :: "io_fault \<Rightarrow> bool \<Rightarrow> (fs, string, unit) st" where
  "initialize_rpc F csi_support =
     then_st (map_err_st (\<lambda>_. ''unable to create socket directory'') (create_dir_all F ''/run/bpfman-sock'')) (
     if csi_support then map_err_st (\<lambda>_. ''unable to create CSI directory'') (create_dir_all F ''/run/bpfman/csi'') else ret ())"


subsection \<open>What is published\<close>

definition adds_calls :: "csi_call list \<Rightarrow> 'd csi_world \<Rightarrow> 'd csi_world \<Rightarrow> bool" where
  "adds_calls cs w w' \<longleftrightarrow> cs_calls w' = cs_calls w @ cs
     \<and> wdb (cs_manager w') = wdb (cs_manager w) \<and> wkern (cs_manager w') = wkern (cs_manager w)"

lemma adds_calls_Nil [simp]: "adds_calls [] w w"
  by (simp add: adds_calls_def)

lemma adds_calls_append: "adds_calls cs u v \<Longrightarrow> adds_calls ds v w \<Longrightarrow> adds_calls (cs @ ds) u w"
  by (simp add: adds_calls_def)

lemma on_files_Ok: "on_files m w = (Ok a, w') \<Longrightarrow> adds_calls [] w w'"
  by (auto simp: on_files_def on_kworld_def zoom_def adds_calls_def)

lemma c_call_Ok: "c_call reply c w = (Ok a, w') \<Longrightarrow> adds_calls [c] w w'"
  by (auto simp: c_call_def adds_calls_def)

lemma c_change_Ok: "c_change reply c w = (Ok a, w') \<Longrightarrow> adds_calls [c] w w'"
  by (auto simp: c_change_def adds_calls_def split: sum.splits)

definition chown_calls :: "string option \<Rightarrow> string \<Rightarrow> csi_call list" where
  "chown_calls g path = (case g of None \<Rightarrow> [] | Some gid \<Rightarrow> [C_Chown path (parse_u32 gid)])"

definition repin_calls :: "string option \<Rightarrow> string \<Rightarrow> string \<Rightarrow> nat \<Rightarrow> string \<Rightarrow> csi_call list" where
  "repin_calls g core path h m =
     [C_Map_From_Pin (path_join core m), C_Map_Pin h (path_join path m)] @ chown_calls g (path_join path m)"

lemma chown_group_Ok: "chown_group C g path w = (Ok a, w') \<Longrightarrow> adds_calls (chown_calls g path) w w'"
  by (cases g) (auto simp: chown_group_def chown_calls_def map_err_st_eq_Ok dest: c_call_Ok)

lemma repin_map_Ok:
  assumes "repin_map C F g name core path m w = (Ok (), w')"
  shows "\<exists>h. adds_calls (repin_calls g core path h m) w w'"
proof -
  from assms obtain h w1 w2 w3 where run:
    "c_call (\<lambda>l. c_map C l (path_join core m)) (C_Map_From_Pin (path_join core m)) w = (Ok h, w1)"
    "c_change (\<lambda>l f. map_sum id (\<lambda>n. f(path_join path m \<mapsto> n)) (c_pin C l f (C_Map_Pin h (path_join path m))))
      (C_Map_Pin h (path_join path m)) w1 = (Ok (), w2)"
    "chown_group C g (path_join path m) w2 = (Ok (), w3)"
    and last: "(if g = None then ret () else on_files (set_file_permissions F (path_join path m) SOCK_MODE)) w3 = (Ok () :: (csi_status, unit) res, w')"
    by (auto simp: repin_map_def Let_def bind_st_eq_Ok then_st_eq_Ok map_err_st_eq_Ok simp del: fun_upd_apply)
  have "adds_calls [] w3 w'" using last by (cases g) (auto dest: on_files_Ok)
  with c_call_Ok [OF run(1)] c_change_Ok [OF run(2)] chown_group_Ok [OF run(3)] show ?thesis
    unfolding repin_calls_def by (intro exI [of _ h]) (simp add: adds_calls_def)
qed

lemma repin_all_Ok:
  "try_for_each (repin_map C F g name core path) maps w = (Ok (), w') \<Longrightarrow>
   \<exists>hs. length hs = length maps \<and> adds_calls (concat (map2 (repin_calls g core path) hs maps)) w w'"
proof (induction maps arbitrary: w)
  case Nil
  then show ?case by simp
next
  case (Cons m maps)
  then obtain v where v: "repin_map C F g name core path m w = (Ok (), v)"
    "try_for_each (repin_map C F g name core path) maps v = (Ok (), w')"
    by (auto simp: then_st_eq_Ok)
  obtain h hs where "adds_calls (repin_calls g core path h m) w v" "length hs = length maps"
    "adds_calls (concat (map2 (repin_calls g core path) hs maps)) v w'"
    using repin_map_Ok [OF v(1)] Cons.IH [OF v(2)] by blast
  then have "length (h # hs) = length (m # maps)
    \<and> adds_calls (concat (map2 (repin_calls g core path) (h # hs) (m # maps))) w w'"
    by (simp add: adds_calls_append)
  then show ?case by blast
qed

lemma publish_maps_Ok:
  assumes "publish_maps E C req maps name core w = (Ok (), w')"
  shows "\<exists>hs. length hs = length maps
    \<and> adds_calls (chown_calls (fs_group_of req) (path_join RTDIR_BPFMAN_CSI_FS (np_volume_id req))
        @ concat (map2 (repin_calls (fs_group_of req) core (path_join RTDIR_BPFMAN_CSI_FS (np_volume_id req))) hs maps)
        @ [C_Bind_Mount (path_join RTDIR_BPFMAN_CSI_FS (np_volume_id req)) (np_target_path req)]) w w'"
proof -
  let ?path = "path_join RTDIR_BPFMAN_CSI_FS (np_volume_id req)" and ?target = "np_target_path req"
  let ?prepare = "if path_exists (cs_fs w) ?target then ret () else
       then_st (map_err_st (\<lambda>e. not_found (''failed creating target path '' @ c_debug C ?target @ '': '' @ e))
         (on_files (create_dir_all (e_fault E) ?target)))
       (on_files (set_dir_permissions (e_fault E) ?target OWNER_READ_WRITE))"
  from assms obtain w1 w2 w3 w4 w5 where run: "?prepare w = (Ok (), w1)"
    "on_files (create_dir_all (e_fault E) ?path) w1 = (Ok (), w2)"
    "on_files (create_bpffs (e_start E) ?path) w2 = (Ok (), w3)"
    "chown_group C (fs_group_of req) ?path w3 = (Ok (), w4)"
    "try_for_each (repin_map C (e_fault E) (fs_group_of req) name core ?path) maps w4 = (Ok (), w5)"
    "c_change (\<lambda>l f. c_mount C l f (C_Bind_Mount ?path ?target)) (C_Bind_Mount ?path ?target) w5 = (Ok (), w')"
    by (auto simp: publish_maps_def mount_fs_in_container_def Let_def bind_st_eq_Ok then_st_eq_Ok map_err_st_eq_Ok split del: if_split)
  have "adds_calls [] w w1"
    using run(1) by (auto simp: then_st_eq_Ok map_err_st_eq_Ok adds_calls_def dest!: on_files_Ok split: if_splits)
  then have "adds_calls [] w w3" using on_files_Ok [OF run(2)] on_files_Ok [OF run(3)] by (simp add: adds_calls_def)
  moreover obtain hs where "length hs = length maps" "adds_calls (concat (map2 (repin_calls (fs_group_of req) core ?path) hs maps)) w4 w5"
    using repin_all_Ok [OF run(5)] by blast
  ultimately show ?thesis
    using chown_group_Ok [OF run(4)] c_change_Ok [OF run(6)] by (intro exI [of _ hs]) (simp add: adds_calls_def)
qed

lemma find_named_Ok:
  "find_named H name ps d = (Ok (Some p) :: (csi_status, program option) res) \<Longrightarrow>
   p \<in> set ps \<and> (\<exists>md. get_metadata H (program_get_data p) d = Ok md \<and> map_of md OPERATOR_PROGRAM_KEY = Some name)"
  by (induction ps) (auto simp: bind_res_eq_Ok split: if_splits)


text \<open>
  C36: unpublishing a volume unmounts the container's target, then the volume, and nothing else; the
  volume's directory is gone and every other path is as the two unmounts left it. In particular the
  target directory, which publishing creates, is never removed.
\<close>

theorem unpublished_volume_gone:
  assumes "node_unpublish_volume F C req w = (Ok (), w')"
  shows "\<exists>f g. let path = path_join RTDIR_BPFMAN_CSI_FS (nu_volume_id req) in
      c_mount C (cs_calls w) (cs_fs w) (C_Umount (nu_target_path req)) = Inr f
    \<and> c_mount C (cs_calls w @ [C_Umount (nu_target_path req)]) f (C_Umount path) = Inr g
    \<and> cs_calls w' = cs_calls w @ [C_Umount (nu_target_path req), C_Umount path]
    \<and> \<not> path_exists (cs_fs w') path
    \<and> (\<forall>q. q \<noteq> path \<and> \<not> below path q \<longrightarrow> cs_fs w' q = g q)
    \<and> wdb (cs_manager w') = wdb (cs_manager w) \<and> wkern (cs_manager w') = wkern (cs_manager w)"
  using assms
  by (auto simp: node_unpublish_volume_def unmount_def Let_def bind_st_eq_Ok then_st_eq_Ok map_err_st_eq_Ok c_change_def
      on_files_def on_kworld_def zoom_def remove_dir_all_def path_exists_def
      split: sum.splits if_splits option.splits fs_node.splits prod.splits)


subsection \<open>A run of both\<close>

definition demo_csi :: csi_host where
  "demo_csi = \<lparr>c_unit = \<lambda>l c. Inr (), c_map = \<lambda>l p. Inr (length l), c_pin = \<lambda>l f c. Inr (File 384), c_mount = \<lambda>l f c. Inr f,
     c_bind = \<lambda>p f. Inr (f(p \<mapsto> File 448)), c_io_status = Csi_Status 2, c_debug = id\<rparr>"

definition demo_publish :: node_publish_volume_request where
  "demo_publish = \<lparr>np_volume_id = ''csi-1'', np_publish_context = [], np_staging_target_path = [], np_target_path = ''/var/lib/pod/maps'',
     np_volume_capability = Some \<lparr>vc_access_mode = None, vc_access_type = Some (Access_Mount \<lparr>mv_fs_type = [], mv_mount_flags = [],
       mv_volume_mount_group = ''1000''\<rparr>)\<rparr>, np_readonly = False, np_secrets = [],
     np_volume_context = [(MAPS_KEY, ''stats,config''), (PROGRAM_KEY, ''counter'')]\<rparr>"

definition demo_volume_db :: ref_db where
  "demo_volume_db = [(prog_tree 9,
     [(ID, ne4 ref_host 9), (KIND, ne4 ref_host (program_type_to_u32 ProgramType_Xdp)), (PREFIX_METADATA @ OPERATOR_PROGRAM_KEY, as_bytes ''counter''),
      (MAP_PIN_PATH, as_bytes ''/run/bpfman/fs/maps/9'')])]"

definition demo_volume_world :: "ref_db csi_world" where
  "demo_volume_world = \<lparr>cs_manager = \<lparr>wdb = demo_volume_db, wfs = Map.empty, wkern = []\<rparr>, cs_calls = []\<rparr>"

abbreviation demo_volume_prog :: program where
  "demo_volume_prog \<equiv> Program_Xdp \<lparr>xdp_data = \<lparr>db_tree = prog_tree 9\<rparr>\<rparr>"

lemma demo_volume_tree:
  "opened ref_host (prog_tree 9) demo_volume_db = demo_volume_db"
  "new_from_db ref_host 9 (prog_tree 9) demo_volume_db = Ok demo_volume_prog"
  "(bytes_to_string (as_bytes (prog_tree 9)) :: (bpfman_error, string) res) = Ok (prog_tree 9)"
  "db_tree_names ref_host demo_volume_db = [prog_tree 9]"
  "last (split_on (CHR ''_'') (prog_tree 9)) = show_u32 9"
  by code_simp+

lemma demo_volume_iter:
  "get_programs_iter ref_host demo_volume_db = (Ok [(9, demo_volume_prog)] :: (bpfman_error, (u32 \<times> program) list) res, demo_volume_db)"
proof -
  have "str_contains (prog_tree 9) PROGRAM_PREFIX"
    unfolding str_contains_def prog_tree_def by (rule prefix_imp_sublist) simp
  then show ?thesis
    by (simp add: get_programs_iter_def program_of_tree_def demo_volume_tree parse_u32_show bind_st_def then_st_def)
qed

lemma demo_volume_list:
  "(list_loaded ref_host list_filter_default [(9, demo_volume_prog)] [Inr demo_info] :: (ref_db, bpfman_error, program list) st) demo_volume_db
     = (Ok [demo_volume_prog], demo_volume_db)"
  by code_simp

lemma demo_volume_found:
  "find_named ref_host ''counter'' [demo_volume_prog] demo_volume_db = (Ok (Some demo_volume_prog) :: (csi_status, program option) res)"
  "map_path_of ref_host demo_volume_prog demo_volume_db = Ok ''/run/bpfman/fs/maps/9''"
  by code_simp+

lemma on_files_run: "m (cs_fs w) = (Ok a, g) \<Longrightarrow> on_files m w = (Ok a, w\<lparr>cs_manager := (cs_manager w)\<lparr>wfs := g\<rparr>\<rparr>)"
  by (simp add: on_files_def on_kworld_def zoom_def)

lemma demo_repin_run:
  "is_ok (fst (repin_map demo_csi F g name core path m w))"
  by (cases g) (simp_all add: repin_map_def Let_def bind_st_def then_st_def map_err_st_def c_call_def c_change_def chown_group_def
      demo_csi_def on_files_def on_kworld_def zoom_def set_file_permissions_def)

lemma demo_repin_all: "is_ok (fst (try_for_each (repin_map demo_csi F g name core path) maps w))"
proof (induction maps arbitrary: w)
  case (Cons m maps)
  obtain v where "repin_map demo_csi F g name core path m w = (Ok (), v)" using is_ok_run [OF demo_repin_run [of F g name core path m w]] by auto
  with Cons.IH [of v] show ?case by (simp add: then_st_def bind_st_def)
qed simp

lemma demo_prepare_run:
  assumes "\<forall>q. \<not> is_file f q"
  shows "\<exists>g. create_dir_all (\<lambda>op q. None) p f = (Ok (), g) \<and> (\<forall>q. \<not> is_file g q) \<and> is_dir g p"
proof -
  have "path_free f p" using assms by (simp add: path_free_def)
  from create_dir_all_ok [OF _ this, of "\<lambda>op q. None"] assms show ?thesis by (auto simp: keeps_dirs_def)
qed

lemma demo_publish_run:
  assumes "\<forall>q. \<not> is_file (cs_fs w) q"
  shows "is_ok (fst (publish_maps demo_ready_env demo_csi demo_publish maps name core w))"
proof -
  let ?F = "\<lambda>op q. None" and ?path = "path_join RTDIR_BPFMAN_CSI_FS (np_volume_id demo_publish)" and ?target = "np_target_path demo_publish"
  obtain g where g: "create_dir_all ?F ?target (cs_fs w) = (Ok (), g)" "\<forall>q. \<not> is_file g q" "is_dir g ?target"
    using demo_prepare_run [OF assms] by blast
  have "\<exists>h. set_dir_permissions ?F ?target OWNER_READ_WRITE g = (Ok () :: (csi_status, unit) res, h) \<and> keeps_dirs g h"
    by (rule set_dir_permissions_ok [OF _ g(3)]) simp
  then obtain h where h: "set_dir_permissions ?F ?target OWNER_READ_WRITE g = (Ok () :: (csi_status, unit) res, h)" "\<forall>q. \<not> is_file h q"
    using g(2) by (auto simp: keeps_dirs_def)
  obtain k where k: "create_dir_all ?F ?path (cs_fs w) = (Ok (), k)" using demo_prepare_run [OF assms] by blast
  obtain l where l: "create_dir_all ?F ?path h = (Ok (), l)" using demo_prepare_run [OF h(2)] by blast
  have env: "e_fault demo_ready_env = ?F" "mount_bpf (e_start demo_ready_env) dir f = Inr f" for dir f
    by (simp_all add: demo_ready_env_def demo_env_def demo_mounted_def)
  have rest: "is_ok (fst (then_st (chown_group demo_csi gr ?path) (then_st (try_for_each (repin_map demo_csi ?F gr name core ?path) maps)
      (map_err_st er (mount_fs_in_container demo_csi ?path ?target))) v))" for gr er and v :: "ref_db csi_world"
  proof -
    obtain v1 where v1: "chown_group demo_csi gr ?path v = (Ok (), v1)"
      by (cases gr) (auto simp: chown_group_def map_err_st_def c_call_def demo_csi_def)
    obtain v2 where "try_for_each (repin_map demo_csi ?F gr name core ?path) maps v1 = (Ok (), v2)"
      using is_ok_run [OF demo_repin_all [of ?F gr name core ?path maps v1]] by auto
    with v1 show ?thesis
      by (simp add: then_st_def bind_st_def map_err_st_def mount_fs_in_container_def c_change_def) (simp add: demo_csi_def)
  qed
  show ?thesis
    unfolding publish_maps_def Let_def env
    by (cases "path_exists (cs_fs w) ?target")
      (simp_all add: bind_st_def then_st_Ok [OF on_files_run] then_st_def map_err_st_def on_files_run g h k l create_bpffs_def env rest [unfolded then_st_def bind_st_def map_err_st_def])
qed


definition demo_unpublish :: node_unpublish_volume_request where
  "demo_unpublish = \<lparr>nu_volume_id = ''csi-1'', nu_target_path = ''/var/lib/pod/maps''\<rparr>"

definition demo_published_world :: "ref_db csi_world" where
  "demo_published_world = \<lparr>cs_manager = \<lparr>wdb = [], wfs = [''/run/bpfman/csi/fs/csi-1'' \<mapsto> Dir 493, ''/run/bpfman/csi/fs/csi-1/stats'' \<mapsto> File 384,
     ''/var/lib/pod/maps'' \<mapsto> Dir 488], wkern = []\<rparr>, cs_calls = []\<rparr>"

lemma demo_unpublish_run: "is_ok (fst (node_unpublish_volume (\<lambda>op q. None) demo_csi demo_unpublish demo_published_world))"
  by code_simp

theorem unpublished_volume_gone_witness:
  "\<exists>w'. node_unpublish_volume (\<lambda>op q. None) demo_csi demo_unpublish demo_published_world = (Ok (), w')
    \<and> \<not> path_exists (cs_fs w') ''/run/bpfman/csi/fs/csi-1'' \<and> cs_fs w' ''/var/lib/pod/maps'' = Some (Dir 488)"
proof -
  obtain w' where run: "node_unpublish_volume (\<lambda>op q. None) demo_csi demo_unpublish demo_published_world = (Ok (), w')"
    using is_ok_run [OF demo_unpublish_run] by auto
  have path: "path_join RTDIR_BPFMAN_CSI_FS (nu_volume_id demo_unpublish) = ''/run/bpfman/csi/fs/csi-1''"
    "\<not> below ''/run/bpfman/csi/fs/csi-1'' ''/var/lib/pod/maps''" by code_simp+
  from unpublished_volume_gone [OF run] run path(2) show ?thesis
    unfolding Let_def path(1) by (auto simp: demo_csi_def demo_published_world_def)
qed

end
