(* ===== verification/Rpc_Server.thy ===== *)
theory Rpc_Server
  imports Csi_Storage
begin

text \<open>
  The server process (\<open>rpc/main.rs\<close> and \<open>rpc/serve.rs\<close>): choosing the socket, and the tasks that
  run side by side until the server ends: the server on the socket, the storage manager, and the
  handler that waits for a timer or a signal and tells the others to stop. The tasks are a step
  relation whose events are the passing of a second, signals, requests and the ends of the tasks.
  The property is when the server stops: the timer is not reset by requests.
\<close>


subsection \<open>Arguments and logging\<close>

record rpc_args =
  rpc_csi_support :: bool
  rpc_timeout :: u64
  rpc_socket_path :: string

definition rpc_args_default :: rpc_args where
  "rpc_args_default = \<lparr>rpc_csi_support = False, rpc_timeout = 15, rpc_socket_path = ''/run/bpfman-sock/bpfman.sock''\<rparr>"

text \<open>The level of the log: \<open>Error\<close> unless \<open>RUST_LOG\<close> holds one that \<open>LevelFilter::from_str\<close> accepts.\<close>

definition manage_rpc_journal_log_level :: "'l \<Rightarrow> (string \<Rightarrow> string + 'l) \<Rightarrow> string option \<Rightarrow> 'l" where
  "manage_rpc_journal_log_level level_error from_str rust_log = (case rust_log of
     None \<Rightarrow> level_error
   | Some s \<Rightarrow> (case from_str s of Inl e \<Rightarrow> level_error | Inr value \<Rightarrow> value))"


subsection \<open>The socket\<close>

text \<open>
  \<open>receive_descriptors\<close> gives for each descriptor whether it is a Unix socket; the two calls that
  turn it into a listener may fail.
\<close>

definition systemd_unix_stream :: "string + bool list \<Rightarrow> string + unit \<Rightarrow> string + unit \<Rightarrow> (string, unit) res" where
  "systemd_unix_stream receive_descriptors set_nonblocking from_std =
     bind_res (of_sum receive_descriptors) (\<lambda>listen_fds. case listen_fds of
       [is_unix] \<Rightarrow> if \<not> is_unix then Err ''Wrong Socket''
         else bind_res (of_sum set_nonblocking) (\<lambda>_. of_sum from_std)
     | _ \<Rightarrow> Err ''Unable to retrieve fd from systemd'')"

datatype uds_stream = Systemd_Stream | Std_Stream

text \<open>The first half of \<open>serve_unix\<close>: the stream it serves on.\<close>

definition serve_stream :: "csi_host \<Rightarrow> io_fault \<Rightarrow> (string, unit) res \<Rightarrow> string \<Rightarrow> (fs, string, uds_stream) st" where
  "serve_stream C F systemd path = (case systemd of
     Ok _ \<Rightarrow> ret Systemd_Stream
   | Err _ \<Rightarrow> then_st (std_unix_stream C F path) (ret Std_Stream)
   | Panic p \<Rightarrow> panic p)"


subsection \<open>The tasks\<close>

text \<open>What the \<open>JoinSet\<close> of \<open>shutdown_handler\<close> waits for.\<close>

datatype shutdown_task = Sleep_Until nat | Recv_Sigint | Recv_Sigterm

definition shutdown_tasks :: "u64 \<Rightarrow> nat \<Rightarrow> shutdown_task list" where
  "shutdown_tasks timeout now = (if 0 < timeout then [Sleep_Until (now + unat timeout)] else []) @ [Recv_Sigint, Recv_Sigterm]"

datatype task_state = Running | Finished | Failed

record rpc_state =
  sv_now :: nat
  sv_joinset :: "shutdown_task list"
  sv_shutdown :: bool
  sv_unix :: task_state
  sv_csi :: "task_state option"
  sv_served :: nat

datatype rpc_event = Second | Sigint | Sigterm | Rpc_Request | Unix_Ends | Unix_Error | Csi_Ends | Csi_Panics

text \<open>\<open>serve\<close> has started the tasks.\<close>

definition serve_start :: "bool \<Rightarrow> u64 \<Rightarrow> rpc_state" where
  "serve_start csi_support timeout = \<lparr>sv_now = 0, sv_joinset = shutdown_tasks timeout 0, sv_shutdown = False,
     sv_unix = Running, sv_csi = (if csi_support then Some Running else None), sv_served = 0\<rparr>"

text \<open>Whether an event ends a task of the set.\<close>

fun completes :: "nat \<Rightarrow> rpc_event \<Rightarrow> shutdown_task \<Rightarrow> bool" where
  "completes now Second (Sleep_Until t) \<longleftrightarrow> t \<le> now + 1"
| "completes now Sigint Recv_Sigint \<longleftrightarrow> True"
| "completes now Sigterm Recv_Sigterm \<longleftrightarrow> True"
| "completes now _ _ \<longleftrightarrow> False"

text \<open>
  \<open>join_next\<close> returns with the first task that ends; then the shutdown is sent to the receivers.
\<close>

definition join_next :: "rpc_event \<Rightarrow> rpc_state \<Rightarrow> rpc_state" where
  "join_next ev s = (if list_ex (completes (sv_now s) ev) (sv_joinset s) then s\<lparr>sv_shutdown := True\<rparr> else s)"

inductive rpc_step :: "rpc_state \<Rightarrow> rpc_event \<Rightarrow> rpc_state \<Rightarrow> bool" where
  Step_Second: "rpc_step s Second ((join_next Second s)\<lparr>sv_now := sv_now s + 1\<rparr>)"
| Step_Signal: "ev \<in> {Sigint, Sigterm} \<Longrightarrow> rpc_step s ev (join_next ev s)"
| Step_Request: "sv_unix s = Running \<Longrightarrow> rpc_step s Rpc_Request (s\<lparr>sv_served := sv_served s + 1\<rparr>)"
| Step_Unix_Ends: "sv_unix s = Running \<Longrightarrow> sv_shutdown s \<Longrightarrow> rpc_step s Unix_Ends (s\<lparr>sv_unix := Finished\<rparr>)"
| Step_Unix_Error: "sv_unix s = Running \<Longrightarrow> rpc_step s Unix_Error (s\<lparr>sv_unix := Finished\<rparr>)"
| Step_Csi_Ends: "sv_csi s = Some Running \<Longrightarrow> sv_shutdown s \<Longrightarrow> rpc_step s Csi_Ends (s\<lparr>sv_csi := Some Finished\<rparr>)"
| Step_Csi_Panics: "sv_csi s = Some Running \<Longrightarrow> rpc_step s Csi_Panics (s\<lparr>sv_csi := Some Failed\<rparr>)"

inductive rpc_run :: "rpc_state \<Rightarrow> rpc_event list \<Rightarrow> rpc_state \<Rightarrow> bool" where
  Run_Nil: "rpc_run s [] s"
| Run_Snoc: "rpc_run s evs s' \<Longrightarrow> rpc_step s' ev s'' \<Longrightarrow> rpc_run s (evs @ [ev]) s''"

inductive_cases rpc_request_cases: "rpc_step s Rpc_Request s'"

text \<open>The end of \<open>serve\<close>: all tasks joined, a failed storage manager is its error.\<close>

definition serve_result :: "rpc_state \<Rightarrow> (string, unit) res option" where
  "serve_result s =
     (if sv_unix s = Running \<or> sv_csi s = Some Running \<or> \<not> sv_shutdown s then None
      else if sv_csi s = Some Failed then Some (Err ''task panicked'') else Some (Ok ()))"


text \<open>
  \<open>serve\<close> up to the point where it waits, and \<open>main\<close>: without directories or a socket the server
  does not start.
\<close>

definition serve :: "csi_host \<Rightarrow> io_fault \<Rightarrow> (string, unit) res \<Rightarrow> bool \<Rightarrow> u64 \<Rightarrow> string \<Rightarrow> (fs, string, rpc_state) st" where
  "serve C F systemd csi_support timeout socket_path =
     bind_st (serve_stream C F systemd socket_path) (\<lambda>_. ret (serve_start csi_support timeout))"

definition rpc_main :: "csi_host \<Rightarrow> io_fault \<Rightarrow> (string, unit) res \<Rightarrow> rpc_args \<Rightarrow> (fs, string, rpc_state) st" where
  "rpc_main C F systemd args =
     then_st (initialize_rpc F (rpc_csi_support args))
       (serve C F systemd (rpc_csi_support args) (rpc_timeout args) (rpc_socket_path args))"


subsection \<open>When the server stops\<close>

lemma rpc_run_state:
  assumes "rpc_run s0 evs s" and "s0 = serve_start csi_support timeout"
  shows "sv_now s = count_list evs Second \<and> sv_joinset s = shutdown_tasks timeout 0
    \<and> (sv_shutdown s \<longleftrightarrow> 0 < timeout \<and> unat timeout \<le> count_list evs Second \<or> Sigint \<in> set evs \<or> Sigterm \<in> set evs)"
  using assms
proof (induction rule: rpc_run.induct)
  case (Run_Nil s)
  then show ?case by (auto simp: serve_start_def unat_gt_0)
next
  case (Run_Snoc s evs s' ev s'')
  from Run_Snoc(2) Run_Snoc.IH [OF Run_Snoc.prems] show ?case
    by cases (auto simp: join_next_def shutdown_tasks_def)
qed

lemma rpc_run_one: "rpc_step s ev s' \<Longrightarrow> rpc_run s [ev] s'"
  using Run_Snoc [OF Run_Nil] by simp

text \<open>The ends of the tasks that still run once the shutdown is sent, and the state after them.\<close>

lemma unix_task_ends:
  assumes "sv_shutdown s" and "sv_csi s \<noteq> Some Running"
  shows "\<exists>ends s'. length ends \<le> 1 \<and> rpc_run s ends s' \<and> serve_result s' \<noteq> None"
proof (cases "sv_unix s = Running")
  case True
  then show ?thesis
    using rpc_run_one [OF Step_Unix_Ends [OF True assms(1)]] assms
    by (intro exI [of _ "[Unix_Ends]"] exI [of _ "s\<lparr>sv_unix := Finished\<rparr>"]) (simp add: serve_result_def)
next
  case False
  then show ?thesis
    using assms by (intro exI [of _ "[]"] exI [of _ s]) (simp add: serve_result_def Run_Nil)
qed

lemma rpc_run_Cons:
  assumes "rpc_run s' evs s''" and "rpc_step s ev s'"
  shows "rpc_run s (ev # evs) s''"
  using assms
proof (induction rule: rpc_run.induct)
  case (Run_Nil s')
  then show ?case by (rule rpc_run_one)
next
  case (Run_Snoc s' evs t ev' t')
  then show ?case using rpc_run.Run_Snoc [of s "ev # evs" t ev' t'] by simp
qed

lemma tasks_end:
  assumes "sv_shutdown s"
  shows "\<exists>ends s'. length ends \<le> 2 \<and> rpc_run s ends s' \<and> serve_result s' \<noteq> None"
proof (cases "sv_csi s = Some Running")
  case True
  let ?s = "s\<lparr>sv_csi := Some Finished\<rparr>"
  have "\<exists>ends s'. length ends \<le> 1 \<and> rpc_run ?s ends s' \<and> serve_result s' \<noteq> None"
    by (rule unix_task_ends) (simp_all add: assms)
  then obtain ends s' where "length ends \<le> 1" "rpc_run ?s ends s'" "serve_result s' \<noteq> None"
    by blast
  then show ?thesis
    using rpc_run_Cons [OF _ Step_Csi_Ends [OF True assms]]
    by (intro exI [of _ "Csi_Ends # ends"] exI [of _ s']) simp
next
  case False
  with unix_task_ends [OF assms] show ?thesis by (meson le_trans one_le_numeral)
qed

lemma rpc_main_starts:
  assumes "rpc_main C F systemd args f = (Ok s, f')"
  shows "s = serve_start (rpc_csi_support args) (rpc_timeout args)"
  using assms by (auto simp: rpc_main_def serve_def then_st_eq_Ok bind_st_eq_Ok ret_def)


text \<open>A server with a timeout of two seconds that serves a request in each of them is told to stop.\<close>

definition busy_run :: "rpc_event list" where
  "busy_run = [Second, Rpc_Request, Second, Rpc_Request]"

lemma busy_server: "\<exists>s. rpc_run (serve_start True 2) busy_run s \<and> sv_served s = 2"
proof -
  let ?s = "serve_start True 2"
  let ?t = "(join_next Second ?s)\<lparr>sv_now := sv_now ?s + 1\<rparr>"
  let ?u = "?t\<lparr>sv_served := sv_served ?t + 1\<rparr>"
  let ?v = "(join_next Second ?u)\<lparr>sv_now := sv_now ?u + 1\<rparr>"
  have run: "rpc_run ?v [Rpc_Request] (?v\<lparr>sv_served := sv_served ?v + 1\<rparr>)"
    by (rule rpc_run_one, rule Step_Request) (simp add: join_next_def serve_start_def)
  have "rpc_step ?t Rpc_Request ?u"
    by (rule Step_Request) (simp add: join_next_def serve_start_def)
  from rpc_run_Cons [OF rpc_run_Cons [OF rpc_run_Cons [OF run Step_Second] this] Step_Second]
  have "rpc_run ?s busy_run (?v\<lparr>sv_served := sv_served ?v + 1\<rparr>)" by (simp only: busy_run_def)
  then show ?thesis
    by (intro exI [of _ "?v\<lparr>sv_served := sv_served ?v + 1\<rparr>"]) (simp add: join_next_def serve_start_def)
qed

definition busy_args :: rpc_args where
  "busy_args = rpc_args_default\<lparr>rpc_csi_support := True, rpc_timeout := 2\<rparr>"

lemma busy_main: "\<exists>f'. rpc_main demo_csi (\<lambda>op q. None) (Ok ()) busy_args Map.empty = (Ok (serve_start True 2), f')"
proof -
  have "\<forall>q. \<not> is_file Map.empty q" by (simp add: is_file_def)
  from demo_prepare_run [OF this, of "''/run/bpfman-sock''"]
  obtain g where g: "create_dir_all (\<lambda>op q. None) ''/run/bpfman-sock'' Map.empty = (Ok (), g)" "\<forall>q. \<not> is_file g q" by blast
  from demo_prepare_run [OF g(2), of "''/run/bpfman/csi''"]
  obtain h where "create_dir_all (\<lambda>op q. None) ''/run/bpfman/csi'' g = (Ok (), h)" by blast
  with g show ?thesis
    by (simp add: rpc_main_def serve_def serve_stream_def initialize_rpc_def busy_args_def rpc_args_default_def
        then_st_def bind_st_def map_err_st_def ret_def)
qed


end
