(* ===== verification/Log_Exporter.thy ===== *)
theory Log_Exporter
  imports Rust_Data
begin

text \<open>
  The log exporter (\<open>bpf-log-exporter/src/main.rs\<close>): it receives the records of the Linux audit
  system from a netlink socket, collects the records of one system call in a log message and
  writes the message when the last of them has come. The netlink crates that read a packet
  (\<open>deserialize\<close>) and \<open>hex::decode\<close> are parameters. Beside the model stands the text the kernel
  gives to these records, and the property is that the exporter logs what the kernel reported.
\<close>


subsection \<open>Strings\<close>

text \<open>\<open>char::is_whitespace\<close> on UTF-8: the length of the white space a string begins with.\<close>

definition white_len :: "string \<Rightarrow> nat" where
  "white_len s = (case map of_char s :: nat list of
     [] \<Rightarrow> 0
   | a # bs \<Rightarrow> if a \<in> {9, 10, 11, 12, 13, 32} then 1
       else if a = 0xC2 \<and> (\<exists>b \<in> set (take 1 bs). b \<in> {0x85, 0xA0}) then 2
       else if take 3 (a # bs) \<in> {[0xE1, 0x9A, 0x80], [0xE2, 0x80, 0xA8], [0xE2, 0x80, 0xA9], [0xE2, 0x80, 0xAF],
         [0xE2, 0x81, 0x9F], [0xE3, 0x80, 0x80]} \<union> (\<lambda>c. [0xE2, 0x80, c]) ` {0x80..0x8A} then 3 else 0)"

function split_words :: "string \<Rightarrow> string \<Rightarrow> string list" where
  "split_words cur [] = (if cur = [] then [] else [cur])"
| "split_words cur (c # s) = (if white_len (c # s) = 0 then split_words (cur @ [c]) s
     else (if cur = [] then [] else [cur]) @ split_words [] (drop (white_len (c # s) - 1) s))"
  by pat_completeness auto
termination by (relation "measure (\<lambda>(cur, s). length s)") auto

definition split_whitespace :: "string \<Rightarrow> string list" where
  "split_whitespace s = split_words [] s"

text \<open>\<open>replace\<close> of a pattern that is not empty.\<close>

function replace_str :: "string \<Rightarrow> string \<Rightarrow> string \<Rightarrow> string" where
  "replace_str p r [] = []"
| "replace_str p r (c # s) = (if prefix p (c # s) then r @ replace_str p r (drop (length p - 1) s)
     else c # replace_str p r s)"
  by pat_completeness auto
termination by (relation "measure (\<lambda>(p, r, s). length s)") auto


subsection \<open>The log message\<close>

record log_message =
  timestamp :: string
  prog_id :: u32
  log_op :: string
  syscall_op :: u32
  pid :: u32
  uid :: u32
  gid :: u32
  comm :: string
  cmdline :: string

definition log_message_new :: log_message where
  "log_message_new = \<lparr>timestamp = [], prog_id = 0, log_op = [], syscall_op = 0, pid = 0, uid = 0, gid = 0,
     comm = [], cmdline = []\<rparr>"

definition NETLINK_GROUP_READ_LOG :: u32 where
  "NETLINK_GROUP_READ_LOG = 1"


subsection \<open>The records\<close>

text \<open>The first word with a prefix, and the text after its last equals sign.\<close>

definition find_part :: "string \<Rightarrow> string \<Rightarrow> string list \<Rightarrow> (string, string) res" where
  "find_part msg k parts = expect_opt msg (List.find (prefix k) parts)"

definition field_value :: "string \<Rightarrow> string \<Rightarrow> string list \<Rightarrow> (string, string) res" where
  "field_value msg k parts = ok_map (\<lambda>w. last (split_on (CHR ''='') w)) (find_part msg k parts)"

definition parse_unwrap :: "string \<Rightarrow> (string, u32) res" where
  "parse_unwrap s = expect_opt ''unwrap'' (parse_u32 s)"

abbreviation quote_char :: char where "quote_char \<equiv> CHR 0x22"

definition unquote :: "string \<Rightarrow> string" where
  "unquote s = filter (\<lambda>c. c \<noteq> quote_char) s"

definition syscall_event :: "string \<Rightarrow> log_message \<Rightarrow> (string, log_message) res" where
  "syscall_event message m =
     (if \<not> str_contains message ''syscall=321'' then Ok m else
      (let parts = split_whitespace message in
       bind_res (field_value ''unwrap'' ''a0='' parts) (\<lambda>a0.
       bind_res (field_value ''uid not found'' ''uid='' parts) (\<lambda>user.
       bind_res (field_value ''pid not found'' ''pid='' parts) (\<lambda>process.
       bind_res (field_value ''gid not found'' ''gid='' parts) (\<lambda>grp.
       bind_res (field_value ''unwrap'' ''comm='' parts) (\<lambda>command.
       bind_res (parse_unwrap a0) (\<lambda>a0.
       bind_res (parse_unwrap user) (\<lambda>user.
       bind_res (parse_unwrap process) (\<lambda>process.
       bind_res (parse_unwrap grp) (\<lambda>grp.
       Ok (m\<lparr>syscall_op := a0, pid := process, uid := user, gid := grp, comm := unquote command\<rparr>))))))))))))"

definition bpf_event :: "string \<Rightarrow> log_message \<Rightarrow> (string, log_message) res" where
  "bpf_event message m =
     (let parts = split_whitespace message in
      bind_res (field_value ''unwrap'' ''prog-id='' parts) (\<lambda>i.
      bind_res (field_value ''unwrap'' ''op='' parts) (\<lambda>operation.
      bind_res (parse_unwrap i) (\<lambda>i.
      Ok (m\<lparr>prog_id := i, log_op := operation\<rparr>)))))"

text \<open>The regular expression \<open>^[0-9A-F]+$\<close>.\<close>

definition is_hex :: "string \<Rightarrow> bool" where
  "is_hex s \<longleftrightarrow> s \<noteq> [] \<and> (\<forall>c \<in> set s. is_digit c \<or> c \<in> set ''ABCDEF'')"

text \<open>A title in hexadecimal is decoded and its NUL bytes become spaces.\<close>

definition decode_title :: "(string \<Rightarrow> string + bytes) \<Rightarrow> string \<Rightarrow> (string, string) res" where
  "decode_title hex_decode s =
     bind_res (expect_res ''unwrap'' (of_sum (hex_decode s))) (\<lambda>bs.
     if utf8_valid bs then Ok (map (\<lambda>c. if c = CHR 0x00 then CHR '' '' else c) (chars_of bs))
     else Panic ''unwrap'')"

definition proctitle_event :: "(string \<Rightarrow> string + bytes) \<Rightarrow> string \<Rightarrow> log_message \<Rightarrow> (string, log_message) res" where
  "proctitle_event hex_decode message m =
     (let parts = split_whitespace message in
      bind_res (find_part ''unwrap'' ''audit('' parts) (\<lambda>w.
      let stamp = hd (split_on (CHR '':'') w) in
      bind_res (field_value ''unwrap'' ''proctitle='' parts) (\<lambda>title.
      bind_res (if is_hex title then decode_title hex_decode title else Ok (unquote title)) (\<lambda>cmd.
      Ok (m\<lparr>timestamp := replace_str ''audit('' [] stamp, cmdline := cmd\<rparr>)))))"

text \<open>One event: the new message and what is written to the log.\<close>

definition audit_event ::
  "(string \<Rightarrow> string + bytes) \<Rightarrow> u16 \<Rightarrow> string \<Rightarrow> log_message \<Rightarrow> (string, log_message \<times> log_message list) res" where
  "audit_event hex_decode event_id message m =
     (if event_id = 1300 then ok_map (\<lambda>m. (m, [])) (syscall_event message m)
      else if event_id = 1334 then ok_map (\<lambda>m. (m, [])) (bpf_event message m)
      else if event_id = 1327 then ok_map (\<lambda>m. (m, [])) (proctitle_event hex_decode message m)
      else if event_id = 1320 then Ok (log_message_new, [m])
      else Ok (m, []))"


subsection \<open>The loop\<close>

text \<open>
  The payload of a packet: an event, another audit message, an error with its code and text, or
  something else, with the text \<open>{:?}\<close> gives it.
\<close>

datatype payload =
    Audit_Event u16 string
  | Audit_Other
  | Payload_Error "i32 option" string
  | Payload_Unexpected string

text \<open>
  The loop over what \<open>recv\<close> returns: the messages it logs, and how it ends, \<open>None\<close> when it waits
  for more.
\<close>

fun recieve_loop ::
  "(bytes \<Rightarrow> string + payload) \<Rightarrow> (string \<Rightarrow> string + bytes) \<Rightarrow> (string + bytes) list \<Rightarrow> log_message \<Rightarrow>
   log_message list \<times> (string, unit) res option" where
  "recieve_loop deserialize hex_decode [] m = ([], None)"
| "recieve_loop deserialize hex_decode (Inl e # rs) m = ([], Some (Err e))"
| "recieve_loop deserialize hex_decode (Inr bs # rs) m = (case deserialize bs of
     Inl e \<Rightarrow> ([], Some (Panic ''unwrap''))
   | Inr p \<Rightarrow> (case p of
       Audit_Event event_id message \<Rightarrow> (case audit_event hex_decode event_id message m of
           Ok (m', logged) \<Rightarrow> (case recieve_loop deserialize hex_decode rs m' of (ls, r) \<Rightarrow> (logged @ ls, r))
         | Err e \<Rightarrow> ([], Some (Err e))
         | Panic q \<Rightarrow> ([], Some (Panic q)))
     | Audit_Other \<Rightarrow> recieve_loop deserialize hex_decode rs m
     | Payload_Error code text \<Rightarrow> if code = Some (- 17) then ([], Some (Ok ())) else ([], Some (Err text))
     | Payload_Unexpected text \<Rightarrow> ([], Some (Err (''unexpected netlink message '' @ text)))))"

text \<open>\<open>NetlinkAudit::new\<close>, with the answers of the four socket calls, and \<open>main\<close>.\<close>

definition netlink_audit_new :: "string + unit \<Rightarrow> string + unit \<Rightarrow> string + unit \<Rightarrow> (u32 \<Rightarrow> string + unit) \<Rightarrow> (string, unit) res" where
  "netlink_audit_new socket bind_auto connect add_membership =
     bind_res (expect_res ''unwrap'' (of_sum socket)) (\<lambda>_.
     bind_res (expect_res ''unwrap'' (of_sum bind_auto)) (\<lambda>_.
     bind_res (expect_res ''unwrap'' (of_sum connect)) (\<lambda>_.
     expect_res ''failed to add membership'' (of_sum (add_membership NETLINK_GROUP_READ_LOG)))))"

definition exporter_main ::
  "(string, unit) res \<Rightarrow> (bytes \<Rightarrow> string + payload) \<Rightarrow> (string \<Rightarrow> string + bytes) \<Rightarrow> (string + bytes) list \<Rightarrow>
   log_message list \<times> (string, unit) res option" where
  "exporter_main audit deserialize hex_decode rs = (case audit of
     Ok _ \<Rightarrow> (case recieve_loop deserialize hex_decode rs log_message_new of
       (ls, r) \<Rightarrow> (ls, map_option (map_err (\<lambda>_. ''failed to receive audit events'')) r))
   | Err e \<Rightarrow> ([], Some (Err e))
   | Panic p \<Rightarrow> ([], Some (Panic p)))"


subsection \<open>Words\<close>

definition graphic :: "string \<Rightarrow> bool" where
  "graphic s \<longleftrightarrow> (\<forall>c \<in> set s. 33 \<le> (of_char c :: nat) \<and> (of_char c :: nat) \<le> 126)"

lemma graphic_simps [simp]:
  "graphic []" "graphic (c # s) \<longleftrightarrow> 33 \<le> (of_char c :: nat) \<and> (of_char c :: nat) \<le> 126 \<and> graphic s"
  "graphic (s @ t) \<longleftrightarrow> graphic s \<and> graphic t"
  by (auto simp: graphic_def)

lemma white_len_graphic: "33 \<le> (of_char c :: nat) \<Longrightarrow> (of_char c :: nat) \<le> 126 \<Longrightarrow> white_len (c # s) = 0"
  by (auto simp: white_len_def)

lemma white_len_space: "white_len (CHR '' '' # s) = 1"
  by (simp add: white_len_def)

lemma split_words_graphic: "graphic w \<Longrightarrow> split_words cur (w @ s) = split_words (cur @ w) s"
  by (induction w arbitrary: cur) (simp_all add: white_len_graphic)

lemma split_words_join:
  "(\<And>w. w \<in> set ws \<Longrightarrow> graphic w \<and> w \<noteq> []) \<Longrightarrow> split_words [] (str_join '' '' ws) = ws"
proof (induction ws rule: induct_list012)
  case (2 w)
  then show ?case using split_words_graphic [of w "[]" "[]"] by simp
next
  case (3 v w ws)
  have "split_words [] (str_join '' '' (v # w # ws)) = split_words v (CHR '' '' # str_join '' '' (w # ws))"
    using split_words_graphic [of v "[]"] 3(3) by simp
  also have "\<dots> = v # split_words [] (str_join '' '' (w # ws))"
    using 3(3) [of v] by (simp add: white_len_space)
  finally show ?case using 3(2) 3(3) by simp
qed simp

lemma split_whitespace_join:
  "\<forall>w \<in> set ws. graphic w \<and> w \<noteq> [] \<Longrightarrow> split_whitespace (str_join '' '' ws) = ws"
  by (simp add: split_whitespace_def split_words_join)

lemma graphic_digits: "\<forall>c \<in> set s. is_digit c \<Longrightarrow> graphic s"
  by (auto simp: graphic_def is_digit_def)

lemma graphic_show [simp]: "graphic (show_nat n)" "graphic (show_u32 w)"
  using show_nat_digits graphic_digits by (auto simp: show_u32_def)

text \<open>The value of a field.\<close>

lemma eq_notin_show [simp]: "CHR ''='' \<notin> set (show_nat n)" "CHR ''='' \<notin> set (show_u32 w)"
proof -
  have "\<not> is_digit (CHR ''='')" by (simp add: is_digit_def)
  then show "CHR ''='' \<notin> set (show_nat n)" "CHR ''='' \<notin> set (show_u32 w)"
    using show_nat_digits by (auto simp: show_u32_def)
qed

lemma field_value_find:
  "List.find (prefix (k @ ''='')) ws = Some (k @ CHR ''='' # v) \<Longrightarrow> CHR ''='' \<notin> set v \<Longrightarrow>
   field_value msg (k @ ''='') ws = Ok v"
  by (simp add: field_value_def find_part_def last_split_on)

lemma parse_unwrap_show [simp]: "parse_unwrap (show_u32 w) = Ok w"
  by (simp add: parse_unwrap_def)


subsection \<open>What the kernel reports\<close>

text \<open>
  One call of \<open>bpf\<close> as the audit system reports it: a record of the system call, one of the program,
  one of the title of the process and an empty one at the end, all with the same time and serial
  number. Numbers are decimal, but the arguments of the call hexadecimal; texts a user controls are
  quoted, or in hexadecimal when they have a quote, a space or a byte that is not printable.
\<close>

record audit_record =
  ar_time :: string
  ar_serial :: u32
  ar_cmd :: nat
  ar_ppid :: u32
  ar_pid :: u32
  ar_auid :: u32
  ar_uid :: u32
  ar_gid :: u32
  ar_euid :: u32
  ar_egid :: u32
  ar_comm :: string
  ar_prog_id :: u32
  ar_op :: string
  ar_title :: string

definition upper_hex :: "bytes \<Rightarrow> string" where
  "upper_hex bs = concat (map (\<lambda>b. [''0123456789ABCDEF'' ! (unat b div 16), ''0123456789ABCDEF'' ! (unat b mod 16)]) bs)"

definition quotable :: "string \<Rightarrow> bool" where
  "quotable s \<longleftrightarrow> graphic s \<and> quote_char \<notin> set s"

definition untrusted :: "string \<Rightarrow> string" where
  "untrusted s = (if quotable s then quote_char # s @ [quote_char] else upper_hex (as_bytes s))"

definition stamp_word :: "audit_record \<Rightarrow> string" where
  "stamp_word r = ''audit('' @ ar_time r @ '':'' @ show_u32 (ar_serial r) @ ''):''"

definition syscall_words :: "audit_record \<Rightarrow> string list" where
  "syscall_words r = [stamp_word r, ''arch=c000003e'', ''syscall=321'', ''success=yes'', ''exit=0'',
     ''a0='' @ show_hex (ar_cmd r), ''a1=7ffd'', ''items=0'', ''ppid='' @ show_u32 (ar_ppid r), ''pid='' @ show_u32 (ar_pid r),
     ''auid='' @ show_u32 (ar_auid r), ''uid='' @ show_u32 (ar_uid r), ''gid='' @ show_u32 (ar_gid r),
     ''euid='' @ show_u32 (ar_euid r), ''egid='' @ show_u32 (ar_egid r), ''comm='' @ untrusted (ar_comm r)]"

definition bpf_words :: "audit_record \<Rightarrow> string list" where
  "bpf_words r = [stamp_word r, ''prog-id='' @ show_u32 (ar_prog_id r), ''op='' @ ar_op r]"

definition title_words :: "audit_record \<Rightarrow> string list" where
  "title_words r = [stamp_word r, ''proctitle='' @ untrusted (ar_title r)]"

definition audit_packets :: "audit_record \<Rightarrow> payload list" where
  "audit_packets r = [Audit_Event 1300 (str_join '' '' (syscall_words r)), Audit_Event 1334 (str_join '' '' (bpf_words r)),
     Audit_Event 1327 (str_join '' '' (title_words r)), Audit_Event 1320 (stamp_word r)]"

text \<open>
  The records the exporter reads right: the command has one decimal digit, the time is that of the
  kernel, and the texts have no equals sign.
\<close>

definition readable :: "audit_record \<Rightarrow> bool" where
  "readable r \<longleftrightarrow> ar_cmd r < 10 \<and> (\<forall>c \<in> set (ar_time r). is_digit c \<or> c = CHR ''.'')
     \<and> quotable (ar_comm r) \<and> CHR ''='' \<notin> set (ar_comm r) \<and> graphic (ar_op r) \<and> CHR ''='' \<notin> set (ar_op r)
     \<and> ar_title r \<noteq> [] \<and> (quotable (ar_title r) \<longrightarrow> CHR ''='' \<notin> set (ar_title r)) \<and> is_str (ar_title r)"

text \<open>What it should log for them.\<close>

definition log_of :: "audit_record \<Rightarrow> log_message" where
  "log_of r = \<lparr>timestamp = ar_time r, prog_id = ar_prog_id r, log_op = ar_op r, syscall_op = word_of_nat (ar_cmd r),
     pid = ar_pid r, uid = ar_uid r, gid = ar_gid r, comm = ar_comm r,
     cmdline = map (\<lambda>c. if c = CHR 0x00 then CHR '' '' else c) (ar_title r)\<rparr>"

lemma join_contains: "w \<in> set ws \<Longrightarrow> str_contains (str_join sep ws) w"
proof (induction sep ws rule: str_join.induct)
  case (3 sep x y ys)
  show ?case
  proof (cases "w = x")
    case False
    then obtain ps ss where "str_join sep (y # ys) = ps @ w @ ss" using 3 by (auto simp: str_contains_def sublist_def)
    then have "str_join sep (x # y # ys) = (x @ sep @ ps) @ w @ ss" by simp
    then show ?thesis unfolding str_contains_def sublist_def by blast
  qed (simp add: str_contains_def)
qed (auto simp: str_contains_def)

lemma upper_hex_digits:
  "c \<in> set (upper_hex bs) \<Longrightarrow> is_digit c \<or> c \<in> set ''ABCDEF''" "upper_hex bs = [] \<longleftrightarrow> bs = []"
proof -
  have hex: "is_digit (''0123456789ABCDEF'' ! n) \<or> ''0123456789ABCDEF'' ! n \<in> set ''ABCDEF''" if "n < 16" for n
  proof -
    have "\<forall>n \<in> {0..<16}. is_digit (''0123456789ABCDEF'' ! n) \<or> ''0123456789ABCDEF'' ! n \<in> set ''ABCDEF''" by code_simp
    then show ?thesis using that by simp
  qed
  have div: "unat b div 16 < 16" for b :: u8 using unsigned_less [of b, where 'a = nat] by simp
  have "\<exists>n < 16. c = ''0123456789ABCDEF'' ! n" if "c \<in> set (upper_hex bs)"
  proof -
    from that obtain b :: u8 where "c = ''0123456789ABCDEF'' ! (unat b div 16) \<or> c = ''0123456789ABCDEF'' ! (unat b mod 16)"
      by (auto simp: upper_hex_def)
    moreover have "unat b mod 16 < 16" by simp
    ultimately show ?thesis using div by blast
  qed
  then show "c \<in> set (upper_hex bs) \<Longrightarrow> is_digit c \<or> c \<in> set ''ABCDEF''" using hex by blast
  show "upper_hex bs = [] \<longleftrightarrow> bs = []" by (cases bs) (simp_all add: upper_hex_def)
qed

lemma untrusted_word: "graphic (untrusted s)" "untrusted s \<noteq> [] \<or> s = []" "CHR ''='' \<notin> set (untrusted s) \<longleftrightarrow> \<not> (quotable s \<and> CHR ''='' \<in> set s)"
proof -
  have hex: "33 \<le> (of_char c :: nat) \<and> (of_char c :: nat) \<le> 126 \<and> c \<noteq> CHR ''=''" if "c \<in> set (upper_hex bs)" for c bs
    using upper_hex_digits(1) [OF that] by (auto simp: is_digit_def)
  then show "graphic (untrusted s)" by (auto simp: untrusted_def quotable_def graphic_def)
  show "untrusted s \<noteq> [] \<or> s = []" using upper_hex_digits(2) [of "as_bytes s"] by (auto simp: untrusted_def as_bytes_def)
  show "CHR ''='' \<notin> set (untrusted s) \<longleftrightarrow> \<not> (quotable s \<and> CHR ''='' \<in> set s)" using hex by (auto simp: untrusted_def)
qed

lemma unquote_untrusted: "quotable s \<Longrightarrow> unquote (untrusted s) = s"
proof -
  assume q: "quotable s"
  then have "\<forall>c \<in> set s. c \<noteq> quote_char" unfolding quotable_def by metis
  then have "filter (\<lambda>c. c \<noteq> quote_char) s = s" by (simp only: filter_id_conv)
  with q show ?thesis by (simp add: unquote_def untrusted_def)
qed

lemma graphic_stamp: "\<forall>c \<in> set (ar_time r). is_digit c \<or> c = CHR ''.'' \<Longrightarrow> graphic (stamp_word r)"
proof -
  assume "\<forall>c \<in> set (ar_time r). is_digit c \<or> c = CHR ''.''"
  then have "graphic (ar_time r)" unfolding graphic_def is_digit_def by fastforce
  then show ?thesis by (simp add: stamp_word_def)
qed

lemma stamp_ok: "readable r \<Longrightarrow> graphic (stamp_word r) \<and> stamp_word r \<noteq> []"
  using graphic_stamp unfolding readable_def by (auto simp: stamp_word_def)

lemma show_hex_small: "n < 10 \<Longrightarrow> show_hex n = show_u32 (word_of_nat n)"
  by (simp add: show_hex.simps hex_char_def show_u32_def show_nat.simps digit_char_def unat_of_nat)

lemma syscall_event_run:
  assumes "readable r"
  shows "syscall_event (str_join '' '' (syscall_words r)) m = Ok (m\<lparr>syscall_op := word_of_nat (ar_cmd r), pid := ar_pid r,
    uid := ar_uid r, gid := ar_gid r, comm := ar_comm r\<rparr>)"
proof -
  have "graphic (stamp_word r)" "stamp_word r \<noteq> []" using stamp_ok [OF assms] by auto
  moreover have "graphic (untrusted (ar_comm r))" by (rule untrusted_word)
  moreover have "show_hex (ar_cmd r) = show_u32 (word_of_nat (ar_cmd r))" using assms by (intro show_hex_small) (simp add: readable_def)
  ultimately have parts: "split_whitespace (str_join '' '' (syscall_words r)) = syscall_words r"
    by (intro split_whitespace_join) (simp add: syscall_words_def)
  have sys: "str_contains (str_join '' '' (syscall_words r)) ''syscall=321''"
    by (rule join_contains) (simp add: syscall_words_def)
  have fields: "field_value msg (''a0'' @ ''='') (syscall_words r) = Ok (show_u32 (word_of_nat (ar_cmd r)))"
    "field_value msg (''uid'' @ ''='') (syscall_words r) = Ok (show_u32 (ar_uid r))"
    "field_value msg (''pid'' @ ''='') (syscall_words r) = Ok (show_u32 (ar_pid r))"
    "field_value msg (''gid'' @ ''='') (syscall_words r) = Ok (show_u32 (ar_gid r))"
    "field_value msg (''comm'' @ ''='') (syscall_words r) = Ok (untrusted (ar_comm r))" for msg
    using assms show_hex_small untrusted_word(3)
    by (intro field_value_find; simp add: syscall_words_def stamp_word_def readable_def)+
  show ?thesis
    using sys parts fields assms unquote_untrusted by (simp add: syscall_event_def readable_def)
qed

lemma bpf_event_run:
  assumes "readable r"
  shows "bpf_event (str_join '' '' (bpf_words r)) m = Ok (m\<lparr>prog_id := ar_prog_id r, log_op := ar_op r\<rparr>)"
proof -
  have "graphic (stamp_word r)" "stamp_word r \<noteq> []" using stamp_ok [OF assms] by auto
  then have parts: "split_whitespace (str_join '' '' (bpf_words r)) = bpf_words r"
    using assms by (intro split_whitespace_join) (simp add: bpf_words_def readable_def)
  have fields: "field_value msg (''prog-id'' @ ''='') (bpf_words r) = Ok (show_u32 (ar_prog_id r))"
    "field_value msg (''op'' @ ''='') (bpf_words r) = Ok (ar_op r)" for msg
    using assms by (intro field_value_find; simp add: bpf_words_def stamp_word_def readable_def)+
  show ?thesis using parts fields by (simp add: bpf_event_def)
qed

lemma replace_str_none: "CHR ''a'' \<notin> set s \<Longrightarrow> replace_str ''audit('' [] s = s"
  by (induction s) auto

lemma stamp_time:
  assumes "\<forall>c \<in> set (ar_time r). is_digit c \<or> c = CHR ''.''"
  shows "replace_str ''audit('' [] (hd (split_on (CHR '':'') (stamp_word r))) = ar_time r"
proof -
  have no: "CHR '':'' \<notin> set (ar_time r)" "CHR ''a'' \<notin> set (ar_time r)"
    using assms by (auto simp: is_digit_def dest!: bspec)
  have "split_on (CHR '':'') (stamp_word r) =
      split_on (CHR '':'') (''audit('' @ ar_time r) @ split_on (CHR '':'') (show_u32 (ar_serial r) @ ''):'')"
    using split_on_append [of "CHR '':''" "''audit('' @ ar_time r"] by (simp add: stamp_word_def)
  also have "split_on (CHR '':'') (''audit('' @ ar_time r) = [''audit('' @ ar_time r]"
    using no(1) by (intro split_on_none) simp
  finally show ?thesis using replace_str_none [OF no(2)] by simp
qed

lemma title_read:
  assumes "hex_decode (upper_hex (as_bytes s)) = Inr (as_bytes s)" and "s \<noteq> []" and "is_str s"
  shows "(if is_hex (untrusted s) then decode_title hex_decode (untrusted s) else Ok (unquote (untrusted s)))
    = Ok (map (\<lambda>c. if c = CHR 0x00 then CHR '' '' else c) s)"
proof (cases "quotable s")
  case True
  then have "\<not> is_hex (untrusted s)" by (simp add: untrusted_def is_hex_def is_digit_def)
  moreover have "map (\<lambda>c. if c = CHR 0x00 then CHR '' '' else c) s = s"
  proof (rule map_idI)
    fix c assume "c \<in> set s"
    with True have "33 \<le> (of_char c :: nat)" by (auto simp: quotable_def graphic_def)
    then show "(if c = CHR 0x00 then CHR '' '' else c) = c" by auto
  qed
  ultimately show ?thesis using unquote_untrusted [OF True] by simp
next
  case False
  then have "is_hex (untrusted s)"
    using upper_hex_digits(1) upper_hex_digits(2) [of "as_bytes s"] assms(2) by (auto simp: untrusted_def is_hex_def as_bytes_def)
  moreover have "utf8_valid (as_bytes s)" using assms(3) by (simp add: is_str_def)
  ultimately show ?thesis using False assms(1) by (simp add: decode_title_def untrusted_def)
qed

lemma proctitle_event_run:
  assumes "readable r" and "hex_decode (upper_hex (as_bytes (ar_title r))) = Inr (as_bytes (ar_title r))"
  shows "proctitle_event hex_decode (str_join '' '' (title_words r)) m =
    Ok (m\<lparr>timestamp := ar_time r, cmdline := map (\<lambda>c. if c = CHR 0x00 then CHR '' '' else c) (ar_title r)\<rparr>)"
proof -
  have "graphic (stamp_word r)" "stamp_word r \<noteq> []" using stamp_ok [OF assms(1)] by auto
  then have parts: "split_whitespace (str_join '' '' (title_words r)) = title_words r"
    using untrusted_word(1) by (intro split_whitespace_join) (simp add: title_words_def)
  have stamp: "find_part msg ''audit('' (title_words r) = Ok (stamp_word r)" for msg
    by (simp add: find_part_def title_words_def stamp_word_def)
  have field: "field_value msg (''proctitle'' @ ''='') (title_words r) = Ok (untrusted (ar_title r))" for msg
    using assms(1) untrusted_word(3) by (intro field_value_find; simp add: title_words_def stamp_word_def readable_def)
  have "replace_str ''audit('' [] (hd (split_on (CHR '':'') (stamp_word r))) = ar_time r"
    using assms(1) by (intro stamp_time) (simp add: readable_def)
  then show ?thesis
    using parts stamp field title_read [of hex_decode "ar_title r", OF assms(2)] assms(1)
    by (simp add: proctitle_event_def Let_def readable_def)
qed

text \<open>The loop on packets that were read.\<close>

fun payload_loop :: "(string \<Rightarrow> string + bytes) \<Rightarrow> payload list \<Rightarrow> log_message \<Rightarrow> log_message list \<times> (string, unit) res option" where
  "payload_loop hex_decode [] m = ([], None)"
| "payload_loop hex_decode (Audit_Event event_id message # ps) m = (case audit_event hex_decode event_id message m of
     Ok (m', logged) \<Rightarrow> (case payload_loop hex_decode ps m' of (ls, r) \<Rightarrow> (logged @ ls, r))
   | Err e \<Rightarrow> ([], Some (Err e))
   | Panic q \<Rightarrow> ([], Some (Panic q)))"
| "payload_loop hex_decode (Audit_Other # ps) m = payload_loop hex_decode ps m"
| "payload_loop hex_decode (Payload_Error code text # ps) m =
     (if code = Some (- 17) then ([], Some (Ok ())) else ([], Some (Err text)))"
| "payload_loop hex_decode (Payload_Unexpected text # ps) m = ([], Some (Err (''unexpected netlink message '' @ text)))"

lemma recieve_loop_payloads:
  "map de bss = map Inr ps \<Longrightarrow> recieve_loop de hex_decode (map Inr bss) m = payload_loop hex_decode ps m"
proof (induction hex_decode ps m arbitrary: bss rule: payload_loop.induct)
  case (2 hex_decode event_id message ps m)
  then obtain bs bss' where "bss = bs # bss'" "de bs = Inr (Audit_Event event_id message)" "map de bss' = map Inr ps"
    by (cases bss) auto
  then show ?case using 2 by (simp split: res.split prod.split)
qed auto

text \<open>Packets the exporter passes over.\<close>

fun noise :: "payload \<Rightarrow> bool" where
  "noise (Audit_Event event_id message) \<longleftrightarrow> event_id \<notin> {1300, 1334, 1327, 1320}"
| "noise Audit_Other \<longleftrightarrow> True"
| "noise _ \<longleftrightarrow> False"

lemma skip_noise: "payload_loop hex_decode ps m = payload_loop hex_decode (filter (\<lambda>p. \<not> noise p) ps) m"
proof (induction ps arbitrary: m)
  case (Cons p ps)
  then show ?case by (cases p) (auto simp: audit_event_def split: res.split prod.split)
qed simp

lemma groups_run:
  assumes "\<forall>r \<in> set rs. readable r \<and> hex_decode (upper_hex (as_bytes (ar_title r))) = Inr (as_bytes (ar_title r))"
  shows "payload_loop hex_decode (concat (map audit_packets rs)) log_message_new = (map log_of rs, None)"
  using assms
proof (induction rs)
  case (Cons r rs)
  then have r: "readable r" "hex_decode (upper_hex (as_bytes (ar_title r))) = Inr (as_bytes (ar_title r))" by simp_all
  note runs = syscall_event_run [OF r(1)] bpf_event_run [OF r(1)] proctitle_event_run [of r hex_decode, OF r]
  show ?case using Cons by (simp add: audit_packets_def audit_event_def runs log_of_def)
qed simp


subsection \<open>Properties\<close>



text \<open>A program load by a process whose title has two words.\<close>

definition demo_record :: audit_record where
  "demo_record = \<lparr>ar_time = ''1710775200.123'', ar_serial = 42, ar_cmd = 5, ar_ppid = 1, ar_pid = 77, ar_auid = 1000, ar_uid = 0,
     ar_gid = 3, ar_euid = 0, ar_egid = 0, ar_comm = ''bpfman'', ar_prog_id = 9, ar_op = ''LOAD'',
     ar_title = ''bpfman'' @ [CHR 0x00] @ ''load''\<rparr>"

definition demo_deserialize :: "payload list \<Rightarrow> bytes \<Rightarrow> string + payload" where
  "demo_deserialize ps bs = (case bs of [n] \<Rightarrow> Inr (ps ! unat n) | _ \<Rightarrow> Inl ''bad packet'')"

definition demo_hex_decode :: "string \<Rightarrow> string + bytes" where
  "demo_hex_decode s = (if s = upper_hex (as_bytes (ar_title demo_record)) then Inr (as_bytes (ar_title demo_record)) else Inl ''not decoded'')"

lemma demo_readable: "readable demo_record"
  by code_simp



end
