(* ===== verification/Metrics_Exporter.thy ===== *)
theory Metrics_Exporter
  imports Bpfman_Types
begin

text \<open>
  The metrics exporter (\<open>bpf-metrics-exporter/src/main.rs\<close>): the instruments it registers and the
  callback that observes the programs, links and maps the kernel reports. OpenTelemetry is reached
  through \<open>observe_u64\<close> and \<open>observe_i64\<close>, whose calls are the log of the model; what aya reports
  and how chrono formats a time are parameters. The properties are that every reported object is
  observed, that no two observations are of the same series, and that a program type the manager
  does not know stops the callback.
\<close>


subsection \<open>Instruments\<close>

datatype instrument_kind = U64_Gauge | I64_Gauge | U64_Counter

record instrument =
  inst_name :: string
  inst_kind :: instrument_kind
  inst_description :: string
  inst_unit :: "string option"

definition instruments :: "instrument list" where
  "instruments = [
     \<lparr>inst_name = ''bpf_program_info'', inst_kind = U64_Gauge, inst_description = ''eBPF Program metadata'', inst_unit = None\<rparr>,
     \<lparr>inst_name = ''bpf_map_info'', inst_kind = U64_Gauge, inst_description = ''eBPF Map metadata'', inst_unit = None\<rparr>,
     \<lparr>inst_name = ''bpf_link_info'', inst_kind = U64_Gauge, inst_description = ''eBPF Link metadata'', inst_unit = None\<rparr>,
     \<lparr>inst_name = ''bpf_program_load_time'', inst_kind = I64_Gauge, inst_description = ''BPF program load time'',
       inst_unit = Some ''seconds''\<rparr>,
     \<lparr>inst_name = ''bpf_program_size_translated_bytes'', inst_kind = U64_Counter,
       inst_description = ''BPF program size in bytes'', inst_unit = Some ''bytes''\<rparr>,
     \<lparr>inst_name = ''bpf_program_size_jitted_bytes'', inst_kind = U64_Counter,
       inst_description = ''The size in bytes of the program's JIT-compiled machine code.'', inst_unit = Some ''bytes''\<rparr>,
     \<lparr>inst_name = ''bpf_program_mem_bytes'', inst_kind = U64_Counter,
       inst_description = ''BPF program memory usage in bytes'', inst_unit = Some ''bytes''\<rparr>,
     \<lparr>inst_name = ''bpf_program_verified_instructions'', inst_kind = U64_Counter,
       inst_description = ''BPF program verified instructions'', inst_unit = Some ''instructions''\<rparr>,
     \<lparr>inst_name = ''bpf_map_key_size'', inst_kind = U64_Counter, inst_description = ''BPF map key size'', inst_unit = Some ''bytes''\<rparr>,
     \<lparr>inst_name = ''bpf_map_value_size'', inst_kind = U64_Counter, inst_description = ''BPF map value size'', inst_unit = Some ''bytes''\<rparr>,
     \<lparr>inst_name = ''bpf_map_max_entries'', inst_kind = U64_Counter,
       inst_description = ''BPF map maxiumum number of entries'', inst_unit = Some ''bytes''\<rparr>]"

text \<open>The instruments the callback is registered for.\<close>

definition observed_instruments :: "string list" where
  "observed_instruments = [''bpf_program_info'', ''bpf_map_info'', ''bpf_link_info'', ''bpf_program_load_time'',
     ''bpf_program_size_jitted_bytes'', ''bpf_program_size_translated_bytes'', ''bpf_program_mem_bytes'',
     ''bpf_program_verified_instructions'', ''bpf_map_key_size'', ''bpf_map_value_size'', ''bpf_map_max_entries'']"


subsection \<open>Observations\<close>

type_synonym i64 = "64 word"

datatype label_value = Label_Str string | Label_Bool bool

type_synonym labels = "(string \<times> label_value) list"

datatype observation = Observe_U64 string u64 labels | Observe_I64 string i64 labels

definition observe_u64 :: "string \<Rightarrow> u64 \<Rightarrow> labels \<Rightarrow> (observation list, 'e, unit) st" where
  "observe_u64 name v ls obs = (Ok (), obs @ [Observe_U64 name v ls])"

definition observe_i64 :: "string \<Rightarrow> i64 \<Rightarrow> labels \<Rightarrow> (observation list, 'e, unit) st" where
  "observe_i64 name v ls obs = (Ok (), obs @ [Observe_I64 name v ls])"

text \<open>What aya reports; \<open>Inl\<close> where its call failed.\<close>

record metric_program =
  mp_id :: u32
  mp_name :: "string option"
  mp_type :: u32
  mp_tag :: u64
  mp_gpl :: bool
  mp_map_ids :: "string + u32 list"
  mp_loaded_at :: i64
  mp_jitted :: u32
  mp_translated :: u32
  mp_memory :: "string + u32"
  mp_verified :: u32

record metric_link =
  ml_id :: u32
  ml_prog_id :: u32
  ml_type :: u32

record metric_map =
  mm_id :: u32
  mm_name :: "string option"
  mm_type :: u32
  mm_key_size :: u32
  mm_value_size :: u32
  mm_max_entries :: u32
  mm_flags :: u32

definition or_default :: "'a \<Rightarrow> string + 'a \<Rightarrow> 'a" where
  "or_default z x = (case x of Inl e \<Rightarrow> z | Inr a \<Rightarrow> a)"

definition name_or_default :: "string option \<Rightarrow> string" where
  "name_or_default n = (case n of None \<Rightarrow> [] | Some s \<Rightarrow> s)"

text \<open>\<open>{:?}\<close> of a vector of numbers.\<close>

definition show_ids :: "u32 list \<Rightarrow> string" where
  "show_ids ids = ''['' @ str_join '', '' (map show_u32 ids) @ '']''"


subsection \<open>The callback\<close>

definition observe_program :: "(i64 \<Rightarrow> string) \<Rightarrow> metric_program \<Rightarrow> (observation list, string, unit) st" where
  "observe_program format_time p =
     bind_st (reads (\<lambda>_. expect_res ''unwrap'' (program_type_from_u32 (mp_type p)))) (\<lambda>ty.
     let name = name_or_default (mp_name p);
         info = [(''id'', Label_Str (show_u32 (mp_id p))), (''name'', Label_Str name), (''type'', Label_Str (show_program_type ty)),
           (''tag'', Label_Str (show_nat (unat (mp_tag p)))), (''gpl_compatible'', Label_Bool (mp_gpl p)),
           (''map_ids'', Label_Str (show_ids (or_default [] (mp_map_ids p)))),
           (''load_time'', Label_Str (format_time (mp_loaded_at p)))];
         key = [(''id'', Label_Str (show_u32 (mp_id p))), (''name'', Label_Str name), (''type'', Label_Str (show_program_type ty))]
     in
     then_st (observe_u64 ''bpf_program_info'' 1 info) (
     then_st (observe_i64 ''bpf_program_load_time'' (mp_loaded_at p) key) (
     then_st (observe_u64 ''bpf_program_size_jitted_bytes'' (ucast (mp_jitted p)) key) (
     then_st (observe_u64 ''bpf_program_size_translated_bytes'' (ucast (mp_translated p)) key) (
     then_st (observe_u64 ''bpf_program_mem_bytes'' (ucast (or_default 0 (mp_memory p))) key)
       (observe_u64 ''bpf_program_verified_instructions'' (ucast (mp_verified p)) key))))))"

definition observe_link :: "metric_link \<Rightarrow> (observation list, string, unit) st" where
  "observe_link l = observe_u64 ''bpf_link_info'' 1
     [(''id'', Label_Str (show_u32 (ml_id l))), (''prog_id'', Label_Str (show_u32 (ml_prog_id l))),
      (''type'', Label_Str (show_u32 (ml_type l)))]"

definition observe_map :: "metric_map \<Rightarrow> (observation list, string, unit) st" where
  "observe_map m =
     (let name = name_or_default (mm_name m);
          info = [(''name'', Label_Str name), (''id'', Label_Str (show_u32 (mm_id m))), (''type'', Label_Str (show_u32 (mm_type m))),
            (''key_size'', Label_Str (show_u32 (mm_key_size m))), (''value_size'', Label_Str (show_u32 (mm_value_size m))),
            (''max_entries'', Label_Str (show_u32 (mm_max_entries m))), (''flags'', Label_Str (show_u32 (mm_flags m)))];
          key = [(''name'', Label_Str name), (''id'', Label_Str (show_u32 (mm_id m))), (''type'', Label_Str (show_u32 (mm_type m)))]
     in
     then_st (observe_u64 ''bpf_map_info'' 1 info) (
     then_st (observe_u64 ''bpf_map_key_size'' (ucast (mm_key_size m)) key) (
     then_st (observe_u64 ''bpf_map_value_size'' (ucast (mm_value_size m)) key)
       (observe_u64 ''bpf_map_max_entries'' (ucast (mm_max_entries m)) key))))"

text \<open>\<open>flatten\<close> of an iterator of results: the failures are left out.\<close>

fun flatten_results :: "(string + 'a) list \<Rightarrow> 'a list" where
  "flatten_results [] = []"
| "flatten_results (Inl e # xs) = flatten_results xs"
| "flatten_results (Inr a # xs) = a # flatten_results xs"

definition metrics_callback ::
  "(i64 \<Rightarrow> string) \<Rightarrow> (string + metric_program) list \<Rightarrow> (string + metric_link) list \<Rightarrow> (string + metric_map) list \<Rightarrow>
   (observation list, string, unit) st" where
  "metrics_callback format_time programs links maps =
     then_st (try_for_each (observe_program format_time) (flatten_results programs)) (
     then_st (try_for_each observe_link (flatten_results links))
       (try_for_each observe_map (flatten_results maps)))"


subsection \<open>What a run observes\<close>

definition key_labels :: "program_type \<Rightarrow> metric_program \<Rightarrow> labels" where
  "key_labels ty p = [(''id'', Label_Str (show_u32 (mp_id p))), (''name'', Label_Str (name_or_default (mp_name p))),
     (''type'', Label_Str (show_program_type ty))]"

definition known_type :: "metric_program \<Rightarrow> program_type option" where
  "known_type p = (case program_type_from_u32 (mp_type p) of Ok ty \<Rightarrow> Some ty | _ \<Rightarrow> None)"

definition observed_values :: "metric_program \<Rightarrow> (string \<times> u64) list" where
  "observed_values p = [(''bpf_program_size_jitted_bytes'', ucast (mp_jitted p)),
     (''bpf_program_size_translated_bytes'', ucast (mp_translated p)),
     (''bpf_program_mem_bytes'', ucast (or_default 0 (mp_memory p))), (''bpf_program_verified_instructions'', ucast (mp_verified p))]"

definition program_observations :: "(i64 \<Rightarrow> string) \<Rightarrow> program_type \<Rightarrow> metric_program \<Rightarrow> observation list" where
  "program_observations format_time ty p =
     Observe_U64 ''bpf_program_info'' 1 (key_labels ty p @
       [(''tag'', Label_Str (show_nat (unat (mp_tag p)))), (''gpl_compatible'', Label_Bool (mp_gpl p)),
        (''map_ids'', Label_Str (show_ids (or_default [] (mp_map_ids p)))), (''load_time'', Label_Str (format_time (mp_loaded_at p)))])
     # Observe_I64 ''bpf_program_load_time'' (mp_loaded_at p) (key_labels ty p)
     # map (\<lambda>(n, v). Observe_U64 n v (key_labels ty p)) (observed_values p)"

lemma observe_program_run:
  "observe_program format_time p obs = (case known_type p of
     Some ty \<Rightarrow> (Ok (), obs @ program_observations format_time ty p) | None \<Rightarrow> (Panic ''unwrap'', obs))"
proof (cases "program_type_from_u32 (mp_type p)")
  case (Ok ty)
  then show ?thesis
    by (simp add: observe_program_def known_type_def program_observations_def key_labels_def observed_values_def Let_def
        bind_st_def then_st_def observe_u64_def observe_i64_def)
next
  case (Panic q)
  then show ?thesis by (simp add: program_type_from_u32_def split: if_splits)
qed (simp add: observe_program_def known_type_def bind_st_def)

definition link_observation :: "metric_link \<Rightarrow> observation" where
  "link_observation l = Observe_U64 ''bpf_link_info'' 1
     [(''id'', Label_Str (show_u32 (ml_id l))), (''prog_id'', Label_Str (show_u32 (ml_prog_id l))), (''type'', Label_Str (show_u32 (ml_type l)))]"

definition map_labels :: "metric_map \<Rightarrow> labels" where
  "map_labels m = [(''name'', Label_Str (name_or_default (mm_name m))), (''id'', Label_Str (show_u32 (mm_id m))),
     (''type'', Label_Str (show_u32 (mm_type m)))]"

definition map_observations :: "metric_map \<Rightarrow> observation list" where
  "map_observations m = Observe_U64 ''bpf_map_info'' 1 (map_labels m @
       [(''key_size'', Label_Str (show_u32 (mm_key_size m))), (''value_size'', Label_Str (show_u32 (mm_value_size m))),
        (''max_entries'', Label_Str (show_u32 (mm_max_entries m))), (''flags'', Label_Str (show_u32 (mm_flags m)))])
     # map (\<lambda>(n, v). Observe_U64 n v (map_labels m)) [(''bpf_map_key_size'', ucast (mm_key_size m)),
        (''bpf_map_value_size'', ucast (mm_value_size m)), (''bpf_map_max_entries'', ucast (mm_max_entries m))]"

lemma try_for_each_observe:
  "(\<And>x obs. f x obs = (Ok (), obs @ g x)) \<Longrightarrow> try_for_each f xs obs = (Ok (), obs @ concat (map g xs))"
  by (induction xs arbitrary: obs) (simp_all add: then_st_def bind_st_def)

lemma links_maps_run:
  "try_for_each observe_link ls obs = (Ok (), obs @ map link_observation ls)"
  "try_for_each observe_map ms obs = (Ok (), obs @ concat (map map_observations ms))"
proof -
  have "try_for_each observe_link ls obs = (Ok (), obs @ concat (map (\<lambda>l. [link_observation l]) ls))"
    by (rule try_for_each_observe) (simp add: observe_link_def observe_u64_def link_observation_def)
  then show "try_for_each observe_link ls obs = (Ok (), obs @ map link_observation ls)" by simp
  show "try_for_each observe_map ms obs = (Ok (), obs @ concat (map map_observations ms))"
    by (rule try_for_each_observe)
      (simp add: observe_map_def observe_u64_def map_observations_def map_labels_def Let_def then_st_def bind_st_def)
qed

text \<open>The programs up to the first of an unknown type, and whether there is one.\<close>

lemma programs_run:
  "try_for_each (observe_program format_time) ps obs =
    (if \<forall>p \<in> set ps. known_type p \<noteq> None then Ok () else Panic ''unwrap'',
     obs @ concat (map (\<lambda>p. program_observations format_time (the (known_type p)) p) (takeWhile (\<lambda>p. known_type p \<noteq> None) ps)))"
  by (induction ps arbitrary: obs) (auto simp: then_st_def bind_st_def observe_program_run split: option.split)

lemma callback_run:
  assumes "\<forall>p \<in> set (flatten_results programs). known_type p \<noteq> None"
  shows "metrics_callback format_time programs links maps [] = (Ok (),
    concat (map (\<lambda>p. program_observations format_time (the (known_type p)) p) (flatten_results programs))
    @ map link_observation (flatten_results links) @ concat (map map_observations (flatten_results maps)))"
proof -
  have all: "takeWhile (\<lambda>p. known_type p \<noteq> None) (flatten_results programs) = flatten_results programs"
    using assms by (simp add: takeWhile_eq_all_conv)
  show ?thesis
    using assms by (simp add: metrics_callback_def then_st_def bind_st_def programs_run links_maps_run all del: not_None_eq)
qed


subsection \<open>Properties\<close>

text \<open>The series an observation belongs to, and the kind of its value.\<close>

fun series :: "observation \<Rightarrow> string \<times> labels" where
  "series (Observe_U64 name v ls) = (name, ls)"
| "series (Observe_I64 name v ls) = (name, ls)"

fun observes_kind :: "observation \<Rightarrow> instrument_kind \<Rightarrow> bool" where
  "observes_kind (Observe_U64 name v ls) k \<longleftrightarrow> k \<in> {U64_Gauge, U64_Counter}"
| "observes_kind (Observe_I64 name v ls) k \<longleftrightarrow> k = I64_Gauge"

definition registered :: "observation \<Rightarrow> bool" where
  "registered o' \<longleftrightarrow> fst (series o') \<in> set observed_instruments \<and>
     (\<exists>i \<in> set instruments. inst_name i = fst (series o') \<and> observes_kind o' (inst_kind i))"

lemma registered_names:
  "\<forall>n \<in> set [''bpf_program_info'', ''bpf_map_info'', ''bpf_link_info'', ''bpf_program_size_jitted_bytes'',
     ''bpf_program_size_translated_bytes'', ''bpf_program_mem_bytes'', ''bpf_program_verified_instructions'', ''bpf_map_key_size'',
     ''bpf_map_value_size'', ''bpf_map_max_entries''].
   n \<in> set observed_instruments \<and> (\<exists>i \<in> set instruments. inst_name i = n \<and> inst_kind i \<in> {U64_Gauge, U64_Counter})"
  "''bpf_program_load_time'' \<in> set observed_instruments \<and> (\<exists>i \<in> set instruments. inst_name i = ''bpf_program_load_time'' \<and> inst_kind i = I64_Gauge)"
  by code_simp+

lemma observations_registered:
  "o' \<in> set (program_observations format_time ty p) \<Longrightarrow> registered o'" "registered (link_observation l)"
  "o' \<in> set (map_observations m) \<Longrightarrow> registered o'"
proof -
  have u64: "registered (Observe_U64 n v ls)" if "n \<in> set [''bpf_program_info'', ''bpf_map_info'', ''bpf_link_info'',
      ''bpf_program_size_jitted_bytes'', ''bpf_program_size_translated_bytes'', ''bpf_program_mem_bytes'',
      ''bpf_program_verified_instructions'', ''bpf_map_key_size'', ''bpf_map_value_size'', ''bpf_map_max_entries'']" for n v ls
    using bspec [OF registered_names(1) that] by (simp add: registered_def)
  have i64: "registered (Observe_I64 ''bpf_program_load_time'' v ls)" for v ls
    using registered_names(2) by (simp add: registered_def)
  show "o' \<in> set (program_observations format_time ty p) \<Longrightarrow> registered o'"
    by (auto simp: program_observations_def observed_values_def intro!: u64 i64)
  show "registered (link_observation l)" unfolding link_observation_def by (rule u64) simp
  show "o' \<in> set (map_observations m) \<Longrightarrow> registered o'" by (auto simp: map_observations_def intro!: u64)
qed

lemma series_id:
  "s \<in> series ` set (program_observations format_time ty p) \<Longrightarrow>
     prefix ''bpf_program_'' (fst s) \<and> map_of (snd s) ''id'' = Some (Label_Str (show_u32 (mp_id p)))"
  "s = series (link_observation l) \<Longrightarrow> fst s = ''bpf_link_info'' \<and> map_of (snd s) ''id'' = Some (Label_Str (show_u32 (ml_id l)))"
  "s \<in> series ` set (map_observations m) \<Longrightarrow>
     prefix ''bpf_map_'' (fst s) \<and> map_of (snd s) ''id'' = Some (Label_Str (show_u32 (mm_id m)))"
  by (auto simp: program_observations_def observed_values_def key_labels_def link_observation_def map_observations_def map_labels_def)

lemma series_distinct:
  "distinct (map series (program_observations format_time ty p))" "distinct (map series (map_observations m))"
  by (simp_all add: program_observations_def observed_values_def map_observations_def)

lemma distinct_concat_id:
  assumes "distinct (map f xs)" and "\<And>x. x \<in> set xs \<Longrightarrow> distinct (g x)"
    and "\<And>x s. x \<in> set xs \<Longrightarrow> s \<in> set (g x) \<Longrightarrow> h s = Some (Label_Str (show_u32 (f x)))"
  shows "distinct (concat (map g xs))"
  using assms
proof (induction xs)
  case (Cons x xs)
  have "set (g x) \<inter> set (concat (map g xs)) = {}"
  proof (rule ccontr)
    assume "set (g x) \<inter> set (concat (map g xs)) \<noteq> {}"
    then obtain s y where "s \<in> set (g x)" "y \<in> set xs" "s \<in> set (g y)" by auto
    then have "f x = f y" using Cons.prems(3) [of x s] Cons.prems(3) [of y s] by simp
    then show False using Cons.prems(1) \<open>y \<in> set xs\<close> by auto
  qed
  then show ?case using Cons by auto
qed simp

lemma callback_known:
  assumes "metrics_callback format_time programs links maps [] = (Ok (), obs)"
  shows "\<forall>p \<in> set (flatten_results programs). known_type p \<noteq> None"
proof (rule ccontr)
  assume "\<not> ?thesis"
  then show False using assms by (auto simp: metrics_callback_def then_st_def bind_st_def programs_run split: if_splits)
qed

lemma unknown_type: "32 \<le> mp_type p \<Longrightarrow> known_type p = None"
proof (cases "program_type_from_u32 (mp_type p)")
  case (Ok ty)
  moreover have "program_type_to_u32 ty < 32" by (cases ty) simp_all
  ultimately show "32 \<le> mp_type p \<Longrightarrow> ?thesis" by (simp add: program_type_from_u32_iff not_le [symmetric])
qed (simp_all add: known_type_def)

text \<open>
  C34: every observation is made on one of the instruments the callback is registered for, with a
  value of the instrument's type, and when the kernel reports each id once, no two observations of a
  run are of the same series.
\<close>

theorem observations_well_typed:
  assumes "metrics_callback format_time programs links maps [] = (Ok (), obs)"
    and "distinct (map mp_id (flatten_results programs))" and "distinct (map ml_id (flatten_results links))"
    and "distinct (map mm_id (flatten_results maps))"
  shows "(\<forall>o' \<in> set obs. registered o') \<and> distinct (map series obs)"
proof -
  let ?ps = "flatten_results programs" and ?ms = "flatten_results maps" and ?ls = "flatten_results links"
  let ?g = "\<lambda>p. program_observations format_time (the (known_type p)) p" and ?h = "\<lambda>s. map_of (snd s) ''id''"
  have obs: "obs = concat (map ?g ?ps) @ map link_observation ?ls @ concat (map map_observations ?ms)"
    using callback_run [OF callback_known [OF assms(1)], of format_time links maps] assms(1) by simp
  let ?A = "concat (map (\<lambda>p. map series (?g p)) ?ps)" and ?B = "concat (map (\<lambda>l. [series (link_observation l)]) ?ls)"
    and ?C = "concat (map (\<lambda>m. map series (map_observations m)) ?ms)"
  have a: "distinct ?A"
    by (rule distinct_concat_id [OF assms(2), where h = ?h]) (auto simp: series_distinct dest!: series_id(1) [OF imageI])
  have b: "distinct ?B"
    by (rule distinct_concat_id [OF assms(3), where h = ?h]) (auto simp: series_id(2) [OF refl])
  have c: "distinct ?C"
    by (rule distinct_concat_id [OF assms(4), where h = ?h]) (auto simp: series_distinct dest!: series_id(3) [OF imageI])
  have names: "s \<in> set ?A \<Longrightarrow> prefix ''bpf_program_'' (fst s)" "s \<in> set ?B \<Longrightarrow> prefix ''bpf_link_'' (fst s)"
    "s \<in> set ?C \<Longrightarrow> prefix ''bpf_map_'' (fst s)" for s
  proof -
    show "s \<in> set ?A \<Longrightarrow> prefix ''bpf_program_'' (fst s)" using series_id(1) by fastforce
    show "s \<in> set ?B \<Longrightarrow> prefix ''bpf_link_'' (fst s)" by (auto simp: series_id(2) [OF refl])
    show "s \<in> set ?C \<Longrightarrow> prefix ''bpf_map_'' (fst s)" using series_id(3) by fastforce
  qed
  have "\<not> (prefix ''bpf_program_'' n \<and> prefix ''bpf_link_'' n)" "\<not> (prefix ''bpf_program_'' n \<and> prefix ''bpf_map_'' n)"
    "\<not> (prefix ''bpf_link_'' n \<and> prefix ''bpf_map_'' n)" for n by (auto simp: prefix_def)
  then have "set ?A \<inter> (set ?B \<union> set ?C) = {}" "set ?B \<inter> set ?C = {}" using names by blast+
  with a b c have "distinct (?A @ ?B @ ?C)" by (simp only: distinct_append set_append)
  moreover have "map series obs = ?A @ ?B @ ?C" by (simp add: obs map_concat comp_def)
  ultimately have "distinct (map series obs)" by (simp only:)
  moreover have "\<forall>o' \<in> set obs. registered o'" unfolding obs using observations_registered by auto
  ultimately show ?thesis by blast
qed

text \<open>
  C40: one program of a type the manager does not know, from 32 on, stops the callback: it panics, the
  programs before it were observed, and those after it, the links and the maps are not.
\<close>

theorem unknown_type_stops_callback:
  assumes "flatten_results programs = ps @ p # qs" and "\<forall>q \<in> set ps. known_type q \<noteq> None" and "32 \<le> mp_type p"
  shows "metrics_callback format_time programs links maps [] =
    (Panic ''unwrap'', concat (map (\<lambda>q. program_observations format_time (the (known_type q)) q) ps))"
proof -
  have none: "known_type p = None" by (rule unknown_type [OF assms(3)])
  have "takeWhile (\<lambda>q. known_type q \<noteq> None) (ps @ p # qs) = ps"
    using assms(2) none takeWhile_append2 [of ps "\<lambda>q. known_type q \<noteq> None" "p # qs"] by simp
  then show ?thesis
    using none by (simp add: metrics_callback_def then_st_def bind_st_def programs_run assms(1) del: not_None_eq)
qed

text \<open>Two programs, a link and a map.\<close>

definition demo_metric :: "u32 \<Rightarrow> u32 \<Rightarrow> metric_program" where
  "demo_metric i ty = \<lparr>mp_id = i, mp_name = Some ''pass'', mp_type = ty, mp_tag = 171, mp_gpl = True, mp_map_ids = Inr [4, 5],
     mp_loaded_at = 1710775200, mp_jitted = 64, mp_translated = 96, mp_memory = Inl ''error'', mp_verified = 9\<rparr>"

abbreviation demo_links :: "(string + metric_link) list" where
  "demo_links \<equiv> [Inr \<lparr>ml_id = 2, ml_prog_id = 9, ml_type = 7\<rparr>]"

abbreviation demo_maps :: "(string + metric_map) list" where
  "demo_maps \<equiv> [Inr \<lparr>mm_id = 4, mm_name = None, mm_type = 2, mm_key_size = 4, mm_value_size = 8, mm_max_entries = 1, mm_flags = 0\<rparr>]"

lemma demo_known: "known_type (demo_metric i 6) \<noteq> None"
  by (simp add: known_type_def demo_metric_def program_type_from_u32_def)

theorem observations_well_typed_witness:
  "\<exists>obs. metrics_callback (\<lambda>t. ''2024-03-18 15:20:00'') [Inr (demo_metric 8 6), Inl ''gone'', Inr (demo_metric 9 6)] demo_links demo_maps []
      = (Ok (), obs) \<and> (\<forall>o' \<in> set obs. registered o') \<and> distinct (map series obs)"
proof -
  let ?ps = "[Inr (demo_metric 8 6), Inl ''gone'', Inr (demo_metric 9 6)]"
  have "\<forall>p \<in> set (flatten_results ?ps). known_type p \<noteq> None" using demo_known by simp
  from callback_run [OF this] obtain obs where
    run: "metrics_callback (\<lambda>t. ''2024-03-18 15:20:00'') ?ps demo_links demo_maps [] = (Ok (), obs)" by blast
  have "distinct (map mp_id (flatten_results ?ps))" by (simp add: demo_metric_def)
  from observations_well_typed [OF run this] run show ?thesis by simp
qed

theorem unknown_type_stops_callback_witness:
  "fst (metrics_callback (\<lambda>t. ''2024-03-18 15:20:00'') [Inr (demo_metric 8 6), Inr (demo_metric 9 32)] demo_links demo_maps [])
    = Panic ''unwrap''"
  by (subst unknown_type_stops_callback [where ps = "[demo_metric 8 6]" and p = "demo_metric 9 32" and qs = "[]"])
    (use demo_known in \<open>simp_all add: demo_metric_def\<close>)

end
