(* ===== verification/Spec2Isabelle.thy ===== *)
theory Spec2Isabelle
  imports Priority_Chain Kernel_Protocol Map_Histories Api_Histories Bpfman_Cli Bpfman_Ns
    Csi_Storage Rpc_Server Log_Exporter Metrics_Exporter
begin

text \<open>
  A verification of bpfman, a manager for eBPF programs. bpfman loads programs for a client, keeps
  what it knows of them in a sled database, shares one dispatcher per network interface between up
  to ten XDP or TC programs that run in the order of their priority, attaches the other kinds of
  programs on their own, and pins what it created in a BPF file system. Clients reach it through a
  command line, a gRPC server and a CSI plugin; two exporters report on BPF programs beside it.

  \<^bold>\<open>State.\<close> The manager's state is the record \<open>world\<close>: the database, the file system (paths with
  directory or file and mode) and the log of kernel calls. Everything outside the repository is a
  parameter of the definitions that use it: the database (\<open>host\<close>, with the locale \<open>store\<close> for what
  sled promises and the interpretation \<open>ref\<close> on an executable database), faults of file operations,
  the outcomes of aya, netlink and the kernel (\<open>aya\<close>), the OCI and sigstore clients (\<open>oci\<close>, with
  the locale \<open>json_codec\<close>), the TOML parser, clap's splitting of a command line, hex and base64.
  A call returns a value, an error or a panic and the state it leaves, so what was written before
  a failure stays written. Integers have their width: \<open>u32\<close>, \<open>i32\<close>, \<open>u64\<close> and \<open>usize\<close> are words.

  \<^bold>\<open>Theories and sources\<close> (below \<open>src/bpfman/src\<close> unless a path is given).
  \<^item> \<open>Rust_Prelude\<close>, \<open>Rust_Data\<close>: results, state passing, bytes, UTF-8, decimal printing and parsing.
  \<^item> \<open>Bpfman_Errors\<close>: \<open>errors.rs\<close>, \<open>oci_utils/mod.rs\<close>. \<open>Sled_Store\<close>: the interface of the database.
  \<^item> \<open>Bpfman_Utils\<close>: \<open>utils.rs\<close>, with the locale \<open>db_vector\<close> of numbered lists under a key prefix,
    which the sublocales of \<open>Program_Data\<close>, \<open>Program_Kinds\<close> and \<open>Program_Maps\<close> instantiate.
  \<^item> \<open>Bpfman_Types\<close>, \<open>Program_Data\<close>, \<open>Program_Kinds\<close>: \<open>types.rs\<close>, that is the enumerations and proceed-on
    masks, \<open>ProgramData\<close> over a database tree, and the seven kinds of programs.
  \<^item> \<open>Os_World\<close>: the file system and \<open>Program::delete\<close>. \<open>Program_Maps\<close>, \<open>Map_Histories\<close>: the map trees of
    \<open>lib.rs\<close>, refined by the multiset of users of each map.
  \<^item> \<open>Image_Manager\<close>: \<open>oci_utils/image_manager.rs\<close> and \<open>cosign.rs\<close>. \<open>Image_Policy\<close>: the signature policy from
    the configuration to the manager's requests.
  \<^item> \<open>Bpfman_Config\<close>, \<open>Startup\<close>: \<open>config.rs\<close>, \<open>dispatcher_config.rs\<close>, start-up in \<open>utils.rs\<close> and \<open>lib.rs\<close>.
  \<^item> \<open>Aya_Kernel\<close>: kernel calls. \<open>Dispatchers\<close>, \<open>Dispatcher_Lifecycle\<close>: \<open>multiprog/\<close>. \<open>Dispatcher_Chain\<close>:
    the two BPF programs of \<open>src/bpf\<close> and the configuration the dispatchers give them.
  \<^item> \<open>Program_Positions\<close>, \<open>Program_Order\<close>, \<open>Priority_Chain\<close>: the scan for programs and their positions
    in \<open>lib.rs\<close>, with the locale \<open>net_programs\<close> for the two kinds that have positions and its extension
    \<open>dispatched_programs\<close> for what their dispatchers make of them.
  \<^item> \<open>Bpf_Manager\<close>, \<open>Kernel_Protocol\<close>, \<open>Manager_Behaviour\<close>: the operations of \<open>lib.rs\<close>.
  \<^item> \<open>Bpfman_Api\<close>: \<open>src/bpfman-api\<close>, messages, conversions and handlers. \<open>Bpfman_Cli\<close>: \<open>bin/cli\<close>.
  \<^item> \<open>Bpfman_Ns\<close>: \<open>src/bpfman-ns\<close>. \<open>Csi_Storage\<close>: the CSI plugin and the sockets of \<open>bin/rpc\<close>.
  \<^item> \<open>Db_Evolution\<close>, \<open>Program_Lifecycle\<close>, \<open>Request_Histories\<close>: no further code, but what the operations of
    \<open>lib.rs\<close> do to the database, as triples with a postcondition for success and one for failure,
    proved once in the locale \<open>store\<close> and composed to \<open>add_program\<close> and \<open>remove_program\<close>.
    \<open>Api_Histories\<close>: the same for the requests of clients.
  \<^item> \<open>Rpc_Server\<close>: \<open>src/bpfman-api/src/bin/rpc/main.rs\<close> and \<open>serve.rs\<close>, the tasks of the server.
  \<^item> \<open>Log_Exporter\<close>: \<open>src/bpf-log-exporter\<close>. \<open>Metrics_Exporter\<close>: \<open>src/bpf-metrics-exporter\<close>.

  \<^bold>\<open>What is shown.\<close>
  \<^item> Order: positions follow priority, then attachment, then name; the configuration that is written
    makes the dispatcher the chain that stops at the first verdict a program does not proceed on; so
    the XDP and the TC programs of an interface run by priority. Extensions fill the slots from the first on.
  \<^item> Kernel protocol: over every sequence of requests with any outcome, no program is attached or
    pinned before it is loaded and no link is pinned before it is taken.
  \<^item> Database: along every history of requests, whatever their outcome, it stays well formed, so that a
    lookup never panics and finds exactly the programs there are; an added program is found under the
    id the kernel gave it with everything that was stored for it, a removed one is gone, and
    the other programs stay. A request refused early leaves its
    temporary tree behind.
  \<^item> Maps: saving and deleting programs refines adding to and removing from multisets of users, and
    along every history a map exists exactly while it has users.
  \<^item> Manager: what attaching a kprobe did, the limit of ten programs, removal of the dispatcher with
    its last program, refusal of unknown ids, what a listing shows. The server stops on a signal or at its timeout,
    counted from its start, and can then always end.
  \<^item> Data: a loaded program moves to its final tree unchanged; kinds are recovered from the database.
  \<^item> Images: an unsigned image is refused when the configuration says so, before anything is stored or
    the kernel is called; the digest is checked before bytecode is used, a pulled image is served offline, the
    policy \<open>Never\<close> stays local.
  \<^item> Clients: the reply to a load is the reply to every get until the next change, with the metadata,
    global data and map owner of the request; replies hide credentials, attach information comes back as sent, the command line and
    the server build the same programs, printed globals are arguments again, the helper attaches in
    the container's namespace, a volume shows the requested maps, unpublishing removes it.
  \<^item> Start-up: every directory is in place afterwards; opening the database makes a bounded number of
    attempts, one fewer than configured.
  \<^item> Exporters: records the kernel writes for a BPF system call come out as one log message with their
    values, and which commands make the exporter panic; every observation goes to a registered
    instrument of its type, one per series, and a program of unknown type ends the callback.

  \<^bold>\<open>Bounds and termination.\<close> Every definition is total. The retry loop of the database recurses on the
  number of remaining attempts, the dispatchers on the ten slots, the scans on the finite list of tree
  names; there is no fuel. Concurrency of requests is not modelled: the database lock admits one
  operation at a time, and operations are interleaved as whole steps (\<open>manager_step\<close>).

  \<^bold>\<open>Not modelled.\<close> Log output; the inside of tokio and tonic, whose tasks are the steps of \<open>Rpc_Server\<close>;
  generated clients, servers and unused messages in \<open>bpfman.v1.rs\<close> and \<open>csi.v1.rs\<close>; \<open>static_program.rs\<close>,
  which is commented out; the OpenTelemetry pipeline of the metrics exporter; the build tasks, which
  start compilers and generators, and the tests. The texts of third-party errors are parameters.
\<close>

end
